(* ===== verification/Ibctl_Prelude.thy ===== *)
theory Ibctl_Prelude
  imports Main "HOL-Library.Word"
begin

text \<open>
  Shared vocabulary of the development: the collections the component proofs are
  carried by, the error and result types that stand for Rust's panics and
  \<open>Result\<close>s, the clocks, and the string operations of the Rust standard library the
  sources use (\<open>trim\<close>, \<open>to_lowercase\<close>, \<open>contains\<close>, \<open>split\<close>, \<open>parse\<close> for
  unsigned integers and decimal formatting), with the round trips between parsing and
  formatting that the marker files rest on.
\<close>

named_theorems ibctl_simps \<open>unfolding equations of the operations of a component\<close>
named_theorems ibctl_frame \<open>fields that an operation leaves alone\<close>
named_theorems ibctl_inv \<open>preservation of the component invariants\<close>

section \<open>Results, panics and clocks\<close>

text \<open>
  A Rust panic is a value: a definition whose source can panic returns
  \<open>panic + 'a\<close>. A \<open>Result\<close> is a sum with its error type on the left.
\<close>

datatype panic = RemainderByZero | DivisionByZero | IndexOutOfBounds | ArithmeticOverflow

type_synonym 'a rust = "panic + 'a"

definition and_then :: "'e + 'a \<Rightarrow> ('a \<Rightarrow> 'e + 'b) \<Rightarrow> 'e + 'b" where
  "and_then r k = (case r of Inl e \<Rightarrow> Inl e | Inr a \<Rightarrow> k a)"

lemma and_then_simps [simp]:
  "and_then (Inl e) k = Inl e"
  "and_then (Inr a) k = k a"
  by (simp_all add: and_then_def)

lemma and_then_Inr_iff: "and_then r k = Inr b \<longleftrightarrow> (\<exists>a. r = Inr a \<and> k a = Inr b)"
  by (cases r) auto

text \<open>
  \<open>std::time::Instant\<close> is a monotonic clock: a number of milliseconds from an arbitrary
  origin. On the platform the program runs on it is a signed second count, so an
  instant before the process started is representable; \<open>checked_sub\<close> fails only below
  the least signed 64-bit second. A \<open>Duration\<close> is a number of milliseconds, or of seconds
  where the name says so.
\<close>

type_synonym instant = int
type_synonym millis = nat

definition instant_checked_sub_secs :: "instant \<Rightarrow> nat \<Rightarrow> instant option" where
  "instant_checked_sub_secs t secs =
     (if t - 1000 * int secs < - (1000 * 2 ^ 63) then None else Some (t - 1000 * int secs))"

text \<open>\<open>checked_duration_since\<close> (\<open>None\<close> for a later anchor) and the saturating \<open>elapsed()\<close>.\<close>

definition checked_duration_since :: "instant \<Rightarrow> instant \<Rightarrow> millis option" where
  "checked_duration_since now t = (if now < t then None else Some (nat (now - t)))"

definition elapsed_ms :: "instant \<Rightarrow> instant \<Rightarrow> millis" where
  "elapsed_ms now t = nat (now - t)"

definition elapsed_secs :: "instant \<Rightarrow> instant \<Rightarrow> nat" where
  "elapsed_secs now t = elapsed_ms now t div 1000"

text \<open>
  \<open>u64\<close>, \<open>u32\<close> and \<open>u8\<close> quantities are natural numbers; wherever an operation of the
  source can leave the range, the saturation or the wrap is written out with these
  bounds.
\<close>

definition u8_max :: nat where "u8_max = 255"
definition u32_max :: nat where "u32_max = 4294967295"
definition u64_max :: nat where "u64_max = 18446744073709551615"
definition i64_max :: nat where "i64_max = 9223372036854775807"

definition saturating_add :: "nat \<Rightarrow> nat \<Rightarrow> nat \<Rightarrow> nat" where
  "saturating_add mx a b = min mx (a + b)"

definition saturating_mul :: "nat \<Rightarrow> nat \<Rightarrow> nat \<Rightarrow> nat" where
  "saturating_mul mx a b = min mx (a * b)"

lemma saturating_add_le: "saturating_add mx a b \<le> mx"
  by (simp add: saturating_add_def)

lemma saturating_mul_le: "saturating_mul mx a b \<le> mx"
  by (simp add: saturating_mul_def)

lemma saturating_add_exact: "a + b \<le> mx \<Longrightarrow> saturating_add mx a b = a + b"
  by (simp add: saturating_add_def)

text \<open>
  A wall-clock instant, \<open>jiff::Zoned\<close>, through the accessors the sources call:
  \<open>timestamp().as_second()\<close>, the civil date with its day of the year and weekday
  (\<open>to_sunday_zero_offset\<close>), and the civil time. A \<open>jiff::Timestamp\<close> is its second.
\<close>

record zoned =
  z_second_of_epoch :: int
  z_year :: int
  z_month :: nat
  z_day :: nat
  z_day_of_year :: nat
  z_weekday :: nat
  z_hour :: nat
  z_minute :: nat
  z_second :: nat
  z_nanosecond :: nat

type_synonym timestamp = int

text \<open>A concrete instant for the witnesses: Sunday 2026-07-12, 09:00:00 in the local zone.\<close>

definition sunday_nine :: zoned where
  "sunday_nine = \<lparr>z_second_of_epoch = 1783861200, z_year = 2026, z_month = 7, z_day = 12,
     z_day_of_year = 193, z_weekday = 0, z_hour = 9, z_minute = 0, z_second = 0, z_nanosecond = 0\<rparr>"

section \<open>Characters and strings\<close>

definition is_ws :: "char \<Rightarrow> bool" where
  "is_ws c \<longleftrightarrow> c \<in> {CHR '' '', CHR 0x09, CHR 0x0A, CHR 0x0B, CHR 0x0C, CHR 0x0D}"

definition trim_start :: "string \<Rightarrow> string" where
  "trim_start s = dropWhile is_ws s"

definition trim_end :: "string \<Rightarrow> string" where
  "trim_end s = rev (dropWhile is_ws (rev s))"

definition trim :: "string \<Rightarrow> string" where
  "trim s = trim_end (trim_start s)"

definition to_lower_char :: "char \<Rightarrow> char" where
  "to_lower_char c = (let n = (of_char c :: nat) in if 65 \<le> n \<and> n \<le> 90 then char_of (n + 32) else c)"

definition to_lowercase :: "string \<Rightarrow> string" where
  "to_lowercase s = map to_lower_char s"

definition to_upper_char :: "char \<Rightarrow> char" where
  "to_upper_char c = (let n = (of_char c :: nat) in if 97 \<le> n \<and> n \<le> 122 then char_of (n - 32) else c)"

definition to_uppercase :: "string \<Rightarrow> string" where
  "to_uppercase s = map to_upper_char s"

definition eq_ignore_ascii_case :: "string \<Rightarrow> string \<Rightarrow> bool" where
  "eq_ignore_ascii_case a b \<longleftrightarrow> to_lowercase a = to_lowercase b"

fun starts_with :: "string \<Rightarrow> string \<Rightarrow> bool" where
  "starts_with s [] = True"
| "starts_with [] (p # ps) = False"
| "starts_with (c # cs) (p # ps) = (c = p \<and> starts_with cs ps)"

fun contains_str :: "string \<Rightarrow> string \<Rightarrow> bool" where
  "contains_str [] p = (p = [])"
| "contains_str (c # cs) p = (starts_with (c # cs) p \<or> contains_str cs p)"

text \<open>\<open>str::split(c)\<close>: always at least one piece.\<close>

fun split_on :: "char \<Rightarrow> string \<Rightarrow> string list" where
  "split_on d [] = [[]]"
| "split_on d (c # cs) =
     (if c = d then [] # split_on d cs
      else (case split_on d cs of [] \<Rightarrow> [[c]] | p # ps \<Rightarrow> (c # p) # ps))"

text \<open>\<open>str::split_whitespace\<close>: the maximal runs of non-blank characters.\<close>

fun split_ws_acc :: "string \<Rightarrow> string \<Rightarrow> string list" where
  "split_ws_acc [] acc = (if acc = [] then [] else [rev acc])"
| "split_ws_acc (c # cs) acc =
     (if is_ws c then (if acc = [] then split_ws_acc cs [] else rev acc # split_ws_acc cs [])
      else split_ws_acc cs (c # acc))"

definition split_whitespace :: "string \<Rightarrow> string list" where
  "split_whitespace s = split_ws_acc s []"

lemma split_on_nonempty [simp]: "split_on d s \<noteq> []"
  by (induction s) (auto split: list.splits)

lemma split_on_none: "d \<notin> set s \<Longrightarrow> split_on d s = [s]"
  by (induction s) auto

lemma split_on_append: "d \<notin> set a \<Longrightarrow> split_on d (a @ d # b) = a # split_on d b"
  by (induction a) auto

lemma starts_with_iff: "starts_with s p \<longleftrightarrow> (\<exists>t. s = p @ t)"
  by (induction s p rule: starts_with.induct) auto

lemma contains_str_iff: "contains_str s p \<longleftrightarrow> (\<exists>u v. s = u @ p @ v)"
proof (induction s)
  case Nil
  then show ?case by simp
next
  case IH: (Cons c cs)
  show ?case
  proof
    assume "contains_str (c # cs) p"
    then consider (here) "starts_with (c # cs) p" | (later) "contains_str cs p" by auto
    then show "\<exists>u v. c # cs = u @ p @ v"
    proof cases
      case here
      then show ?thesis by (auto simp: starts_with_iff intro: exI [of _ "[]"])
    next
      case later
      then obtain u v where "cs = u @ p @ v" using IH by blast
      then have "c # cs = (c # u) @ p @ v" by simp
      then show ?thesis by blast
    qed
  next
    assume "\<exists>u v. c # cs = u @ p @ v"
    then obtain u v where eq: "c # cs = u @ p @ v" by blast
    show "contains_str (c # cs) p"
    proof (cases u)
      case Nil
      with eq have "starts_with (c # cs) p" by (simp only: starts_with_iff) auto
      then show ?thesis by simp
    next
      case (Cons d u')
      with eq have "cs = u' @ p @ v" by simp
      then have "contains_str cs p" using IH by blast
      then show ?thesis by simp
    qed
  qed
qed

lemma trim_no_ws: "\<forall>c \<in> set s. \<not> is_ws c \<Longrightarrow> trim s = s"
proof -
  assume h: "\<forall>c \<in> set s. \<not> is_ws c"
  then have "dropWhile is_ws s = s" and "dropWhile is_ws (rev s) = rev s"
    by (auto simp: dropWhile_eq_self_iff hd_rev)
  then show ?thesis by (simp add: trim_def trim_start_def trim_end_def)
qed

section \<open>Decimal numbers\<close>

text \<open>
  \<open>u32::from_str\<close> and its siblings: an optional \<open>+\<close>, at least one decimal digit, no
  other character, and an error when the value does not fit.
\<close>

definition is_digit :: "char \<Rightarrow> bool" where
  "is_digit c \<longleftrightarrow> 48 \<le> (of_char c :: nat) \<and> (of_char c :: nat) \<le> 57"

definition digit_val :: "char \<Rightarrow> nat" where
  "digit_val c = (of_char c :: nat) - 48"

definition digits_val :: "string \<Rightarrow> nat" where
  "digits_val s = foldl (\<lambda>acc c. 10 * acc + digit_val c) 0 s"

definition parse_digits :: "nat \<Rightarrow> string \<Rightarrow> nat option" where
  "parse_digits mx s =
     (if s \<noteq> [] \<and> list_all is_digit s \<and> digits_val s \<le> mx then Some (digits_val s) else None)"

definition parse_uint :: "nat \<Rightarrow> string \<Rightarrow> nat option" where
  "parse_uint mx s =
     (case s of
        [] \<Rightarrow> None
      | c # cs \<Rightarrow> if c = CHR ''+'' then parse_digits mx cs else parse_digits mx s)"

definition digit_char :: "nat \<Rightarrow> char" where
  "digit_char d = char_of (48 + d)"

fun show_nat :: "nat \<Rightarrow> string" where
  "show_nat n = (if n < 10 then [digit_char n] else show_nat (n div 10) @ [digit_char (n mod 10)])"

declare show_nat.simps [simp del]

definition show_int :: "int \<Rightarrow> string" where
  "show_int i = (if i < 0 then CHR ''-'' # show_nat (nat (- i)) else show_nat (nat i))"

lemma digit_char_code: "d < 10 \<Longrightarrow> (of_char (digit_char d) :: nat) = 48 + d"
  by (simp add: digit_char_def)

lemma digit_char_is_digit: "d < 10 \<Longrightarrow> is_digit (digit_char d)"
  by (simp add: is_digit_def digit_char_code)

lemma digit_val_char: "d < 10 \<Longrightarrow> digit_val (digit_char d) = d"
  by (simp add: digit_val_def digit_char_code)

lemma show_nat_nonempty [simp]: "show_nat n \<noteq> []"
  by (subst show_nat.simps) simp

lemma show_nat_digits: "list_all is_digit (show_nat n)"
proof (induction n rule: show_nat.induct)
  case (1 n)
  show ?case
  proof (cases "n < 10")
    case True
    then show ?thesis by (subst show_nat.simps) (simp add: digit_char_is_digit)
  next
    case False
    with "1.IH" show ?thesis by (subst show_nat.simps) (simp add: digit_char_is_digit)
  qed
qed

lemma digits_val_snoc: "digits_val (s @ [c]) = 10 * digits_val s + digit_val c"
  by (simp add: digits_val_def)

lemma digits_val_show_nat [simp]: "digits_val (show_nat n) = n"
proof (induction n rule: show_nat.induct)
  case (1 n)
  show ?case
  proof (cases "n < 10")
    case True
    then show ?thesis by (subst show_nat.simps) (simp add: digits_val_def digit_val_char)
  next
    case False
    with "1.IH" have "digits_val (show_nat n) = 10 * (n div 10) + n mod 10"
      by (subst show_nat.simps) (simp add: digits_val_snoc digit_val_char)
    then show ?thesis by simp
  qed
qed

lemma digit_neq: "is_digit c \<Longrightarrow> c \<noteq> CHR ''+'' \<and> c \<noteq> CHR ''-'' \<and> c \<noteq> CHR '':'' \<and> \<not> is_ws c"
  by (auto simp: is_digit_def is_ws_def)

lemma show_nat_chars: "c \<in> set (show_nat n) \<Longrightarrow> is_digit c"
  using show_nat_digits [of n] by (simp add: list_all_iff)

lemma show_nat_minus_free: "CHR ''-'' \<notin> set (show_nat n)"
  by (metis digit_neq show_nat_chars)

lemma show_nat_colon_free: "CHR '':'' \<notin> set (show_nat n)"
  by (metis digit_neq show_nat_chars)

lemma show_nat_ws_free: "\<forall>c \<in> set (show_nat n). \<not> is_ws c"
  by (metis digit_neq show_nat_chars)

lemma show_nat_inj: "show_nat m = show_nat n \<longleftrightarrow> m = n"
  by (metis digits_val_show_nat)

text \<open>Formatting and parsing are inverse on the values that fit.\<close>

lemma parse_show_nat: "n \<le> mx \<Longrightarrow> parse_uint mx (show_nat n) = Some n"
proof -
  assume h: "n \<le> mx"
  obtain c cs where s: "show_nat n = c # cs" by (cases "show_nat n") auto
  then have "c \<noteq> CHR ''+''" by (metis digit_neq list.set_intros(1) show_nat_chars)
  with h s show ?thesis
    using show_nat_digits [of n] digits_val_show_nat [of n]
    by (simp add: parse_uint_def parse_digits_def)
qed

lemma parse_uint_le: "parse_uint mx s = Some n \<Longrightarrow> n \<le> mx"
  by (auto simp: parse_uint_def parse_digits_def split: list.splits if_splits)

lemma show_int_ws_free: "\<forall>c \<in> set (show_int i). \<not> is_ws c"
  using show_nat_ws_free by (auto simp: show_int_def is_ws_def)

lemma show_int_inj: "show_int i = show_int j \<longleftrightarrow> i = j"
proof
  assume eq: "show_int i = show_int j"
  have hd_free: "\<And>n cs. show_nat n \<noteq> CHR ''-'' # cs"
    by (metis list.set_intros(1) show_nat_minus_free)
  show "i = j"
  proof (cases "i < 0"; cases "j < 0")
  qed (use eq hd_free in \<open>auto simp: show_int_def show_nat_inj, metis\<close>)
qed simp

section \<open>Lists\<close>

lemma find_SomeD: "find P xs = Some x \<Longrightarrow> x \<in> set xs \<and> P x"
  by (auto simp: find_Some_iff)

end
