(* ===== verification/Recovery_Policy.thy ===== *)
theory Recovery_Policy
  imports Ibctl_Prelude
begin

text \<open>
  The decision layer of the three-phase reconnection recovery
  (\<open>state_machine/recovery.rs\<close>): phases, configuration, the per-tick snapshot and
  \<open>compute_next_action\<close>, the sole authority for phase changes. The lemmas characterise
  every action by the gate that produces it, show that the autonomous policy never halts
  reconnection, that decisions are monotone in elapsed time, that the back-off sleep
  ends exactly on the next interval boundary, and which configuration makes the function
  panic.
\<close>

section \<open>Phases, configuration, snapshot, actions\<close>

datatype recovery_phase = Aggressive | BackoffEvery15Min | GivenUp

fun phase_as_str :: "recovery_phase \<Rightarrow> string" where
  "phase_as_str Aggressive = ''aggressive''"
| "phase_as_str BackoffEvery15Min = ''backoff_every_15min''"
| "phase_as_str GivenUp = ''given_up''"

record recovery_config =
  rc_autonomous :: bool
  rc_aggressive_phase_max_secs :: nat
  rc_backoff_phase_max_secs :: nat
  rc_backoff_interval_secs :: nat
  rc_min_success_dwell_secs :: nat
  rc_fingerprint_streak_forcing_hitl :: nat
  rc_giveup_callback_valid_hours :: nat
  rc_giveup_alert_resend_interval_hours :: nat
  rc_disabled :: bool

definition default_recovery_config :: recovery_config where
  "default_recovery_config = \<lparr>
     rc_autonomous = False,
     rc_aggressive_phase_max_secs = 3600,
     rc_backoff_phase_max_secs = 10800,
     rc_backoff_interval_secs = 900,
     rc_min_success_dwell_secs = 60,
     rc_fingerprint_streak_forcing_hitl = 8,
     rc_giveup_callback_valid_hours = 12,
     rc_giveup_alert_resend_interval_hours = 6,
     rc_disabled = False\<rparr>"

record resume_token =
  rt_mode :: string
  rt_minted_at :: timestamp
  rt_nonce_material :: string

record recovery_snapshot =
  rs_phase :: recovery_phase
  rs_phase_elapsed_secs :: nat
  rs_had_success_this_phase :: bool
  rs_resume_token :: "resume_token option"
  rs_cold_restart_pending :: bool
  rs_failure_fingerprint_streak :: nat

datatype recovery_action =
    Sleep nat
  | EscalateToBackoff
  | FireGiveUpAlert
  | ResumeToAggressive
  | ResumeAutomatically
  | DeferToColdRestart
  | ForceHitlEarly

section \<open>The decision function\<close>

text \<open>The time-based part, reached when none of the gates returned.\<close>

definition phase_decision :: "recovery_snapshot \<Rightarrow> recovery_config \<Rightarrow> recovery_action rust" where
  "phase_decision snap cfg =
     (case rs_phase snap of
        Aggressive \<Rightarrow>
          if rs_had_success_this_phase snap then Inr (Sleep 0)
          else if rs_phase_elapsed_secs snap \<ge> rc_aggressive_phase_max_secs cfg then Inr EscalateToBackoff
          else Inr (Sleep 0)
      | BackoffEvery15Min \<Rightarrow>
          if \<not> rc_autonomous cfg \<and> rs_phase_elapsed_secs snap \<ge> rc_backoff_phase_max_secs cfg
          then Inr FireGiveUpAlert
          else if rc_backoff_interval_secs cfg = 0 then Inl RemainderByZero
          else (let remainder = rs_phase_elapsed_secs snap mod rc_backoff_interval_secs cfg
                in Inr (Sleep (rc_backoff_interval_secs cfg - remainder)))
      | GivenUp \<Rightarrow> Inr (Sleep 3600))"

definition recovery_compute_next_action ::
  "recovery_snapshot \<Rightarrow> recovery_config \<Rightarrow> recovery_action rust" where
  "recovery_compute_next_action snap cfg =
     (if rc_disabled cfg then Inr (Sleep 0)
      else if rc_autonomous cfg \<and> rs_phase snap = GivenUp then Inr ResumeAutomatically
      else if rs_cold_restart_pending snap then Inr DeferToColdRestart
      else if rs_resume_token snap \<noteq> None \<and> rs_phase snap = GivenUp then Inr ResumeToAggressive
      else if rs_phase snap \<noteq> GivenUp
              \<and> rs_failure_fingerprint_streak snap \<ge> rc_fingerprint_streak_forcing_hitl cfg
      then (if rc_autonomous cfg
            then (if rs_phase snap = Aggressive then Inr EscalateToBackoff
                  else Inr (Sleep (rc_backoff_interval_secs cfg)))
            else Inr ForceHitlEarly)
      else phase_decision snap cfg)"

lemmas decision_defs = recovery_compute_next_action_def phase_decision_def Let_def

section \<open>Which gate produces which action\<close>

lemma resume_requires_token:
  "recovery_compute_next_action snap cfg = Inr ResumeToAggressive \<Longrightarrow>
     rs_phase snap = GivenUp \<and> rs_resume_token snap \<noteq> None \<and> \<not> rc_autonomous cfg"
  by (auto simp: decision_defs split: if_splits recovery_phase.splits)

lemma giveup_requires:
  "recovery_compute_next_action snap cfg = Inr FireGiveUpAlert \<Longrightarrow>
     rs_phase snap = BackoffEvery15Min \<and> \<not> rc_autonomous cfg \<and>
     rc_backoff_phase_max_secs cfg \<le> rs_phase_elapsed_secs snap"
  by (auto simp: decision_defs split: if_splits recovery_phase.splits)

lemma hitl_requires:
  "recovery_compute_next_action snap cfg = Inr ForceHitlEarly \<Longrightarrow>
     rs_phase snap \<noteq> GivenUp \<and> \<not> rc_autonomous cfg \<and>
     rc_fingerprint_streak_forcing_hitl cfg \<le> rs_failure_fingerprint_streak snap"
  by (auto simp: decision_defs split: if_splits recovery_phase.splits)

lemma escalate_requires:
  "recovery_compute_next_action snap cfg = Inr EscalateToBackoff \<Longrightarrow> rs_phase snap = Aggressive"
  by (auto simp: decision_defs split: if_splits recovery_phase.splits)

lemma auto_resume_requires:
  "recovery_compute_next_action snap cfg = Inr ResumeAutomatically \<Longrightarrow>
     rc_autonomous cfg \<and> rs_phase snap = GivenUp"
  by (auto simp: decision_defs split: if_splits recovery_phase.splits)

lemma givenup_exits:
  "rs_phase snap = GivenUp \<Longrightarrow> recovery_compute_next_action snap cfg = Inr a \<Longrightarrow>
     a \<in> {Sleep 0, Sleep 3600, DeferToColdRestart, ResumeToAggressive, ResumeAutomatically}"
  by (auto simp: decision_defs split: if_splits)

text \<open>
  The phase each action leads to, as the module's header documents it, and the exact
  evidence the decision function needs before it names an action that changes the phase.
\<close>

definition action_evidence :: "recovery_snapshot \<Rightarrow> recovery_config \<Rightarrow> recovery_action \<Rightarrow> bool" where
  "action_evidence snap cfg a =
     (case a of
        Sleep n \<Rightarrow> True
      | DeferToColdRestart \<Rightarrow> rs_cold_restart_pending snap
      | EscalateToBackoff \<Rightarrow> rs_phase snap = Aggressive \<and>
          (rc_autonomous cfg \<and> rc_fingerprint_streak_forcing_hitl cfg \<le> rs_failure_fingerprint_streak snap
           \<or> \<not> rs_had_success_this_phase snap \<and> rc_aggressive_phase_max_secs cfg \<le> rs_phase_elapsed_secs snap)
      | FireGiveUpAlert \<Rightarrow> rs_phase snap = BackoffEvery15Min \<and> \<not> rc_autonomous cfg
           \<and> rc_backoff_phase_max_secs cfg \<le> rs_phase_elapsed_secs snap
      | ForceHitlEarly \<Rightarrow> rs_phase snap \<noteq> GivenUp \<and> \<not> rc_autonomous cfg
           \<and> rc_fingerprint_streak_forcing_hitl cfg \<le> rs_failure_fingerprint_streak snap
      | ResumeToAggressive \<Rightarrow> rs_phase snap = GivenUp \<and> \<not> rc_autonomous cfg
           \<and> rs_resume_token snap \<noteq> None
      | ResumeAutomatically \<Rightarrow> rs_phase snap = GivenUp \<and> rc_autonomous cfg)"

text \<open>
  Phase transitions are only ever decided on the documented evidence: escalation
  only from Aggressive, give-up only from a live phase with the matching timer or streak
  and never in autonomous mode, and GivenUp is only left by a resume token or, in
  autonomous mode, automatically.
\<close>

theorem next_action_evidence:
  assumes "recovery_compute_next_action snap cfg = Inr a"
  shows "action_evidence snap cfg a \<and>
         (rs_phase snap = GivenUp \<longrightarrow>
            a \<in> {Sleep 0, Sleep 3600, DeferToColdRestart, ResumeToAggressive, ResumeAutomatically})"
proof
  show "action_evidence snap cfg a"
    using assms by (auto simp: decision_defs action_evidence_def split: if_splits recovery_phase.splits)
  show "rs_phase snap = GivenUp \<longrightarrow>
          a \<in> {Sleep 0, Sleep 3600, DeferToColdRestart, ResumeToAggressive, ResumeAutomatically}"
    using assms givenup_exits by blast
qed

definition snap_example :: "recovery_phase \<Rightarrow> nat \<Rightarrow> recovery_snapshot" where
  "snap_example ph t = \<lparr>rs_phase = ph, rs_phase_elapsed_secs = t, rs_had_success_this_phase = False,
     rs_resume_token = None, rs_cold_restart_pending = False, rs_failure_fingerprint_streak = 0\<rparr>"

theorem next_action_evidence_witness:
  "recovery_compute_next_action (snap_example BackoffEvery15Min 10800) default_recovery_config
     = Inr FireGiveUpAlert \<and>
   action_evidence (snap_example BackoffEvery15Min 10800) default_recovery_config FireGiveUpAlert"
proof -
  have h: "recovery_compute_next_action (snap_example BackoffEvery15Min 10800) default_recovery_config
     = Inr FireGiveUpAlert"
    by (simp add: decision_defs snap_example_def default_recovery_config_def)
  show ?thesis using h next_action_evidence [OF h] by blast
qed

section \<open>Back-off timing\<close>

lemma boundary_arith:
  fixes t i :: nat
  assumes "0 < i"
  shows "(t + (i - t mod i)) mod i = 0" and "0 < i - t mod i" and "i - t mod i \<le> i"
    and "t + (i - t mod i) = i * (t div i + 1)"
proof -
  have lt: "t mod i < i" using assms by simp
  have "t + (i - t mod i) = (t - t mod i) + i" using lt by (simp add: mod_less_eq_dividend)
  also have "\<dots> = i * (t div i) + i" by (simp add: minus_mod_eq_mult_div)
  finally show eq: "t + (i - t mod i) = i * (t div i + 1)" by simp
  then show "(t + (i - t mod i)) mod i = 0" by simp
  show "0 < i - t mod i" "i - t mod i \<le> i" using lt by auto
qed

text \<open>
  In the back-off phase, with a non-zero interval and no gate open, the coordinator
  either gives up because the phase limit was reached or sleeps for a positive time, at
  most one interval, that ends exactly on the next multiple of the interval after phase
  entry.
\<close>

theorem backoff_sleeps_to_boundary:
  assumes "rs_phase snap = BackoffEvery15Min" and "\<not> rc_disabled cfg"
    and "\<not> rs_cold_restart_pending snap"
    and "rs_failure_fingerprint_streak snap < rc_fingerprint_streak_forcing_hitl cfg"
    and "0 < rc_backoff_interval_secs cfg"
  shows "if \<not> rc_autonomous cfg \<and> rc_backoff_phase_max_secs cfg \<le> rs_phase_elapsed_secs snap
         then recovery_compute_next_action snap cfg = Inr FireGiveUpAlert
         else \<exists>n. recovery_compute_next_action snap cfg = Inr (Sleep n) \<and> 0 < n \<and>
                  n \<le> rc_backoff_interval_secs cfg \<and>
                  rs_phase_elapsed_secs snap + n
                    = rc_backoff_interval_secs cfg * (rs_phase_elapsed_secs snap div rc_backoff_interval_secs cfg + 1)"
  using assms boundary_arith [OF assms(5), of "rs_phase_elapsed_secs snap"]
  by (auto simp: decision_defs)

theorem backoff_sleeps_to_boundary_witness:
  "recovery_compute_next_action (snap_example BackoffEvery15Min 3700) default_recovery_config = Inr (Sleep 800)"
proof -
  have "\<exists>n. recovery_compute_next_action (snap_example BackoffEvery15Min 3700) default_recovery_config = Inr (Sleep n)
        \<and> 0 < n \<and> n \<le> 900 \<and> 3700 + n = 900 * (3700 div 900 + 1)"
    using backoff_sleeps_to_boundary [of "snap_example BackoffEvery15Min 3700" default_recovery_config]
    by (simp add: snap_example_def default_recovery_config_def)
  then show ?thesis by auto
qed

text \<open>
  The only panic of the decision function is the remainder by a zero
  \<open>backoff_interval_secs\<close> in the back-off phase; it happens exactly when the interval is
  zero and no earlier gate or give-up limit returns first. Nothing in the configuration
  loader rejects a zero interval.
\<close>

theorem next_action_panics_iff:
  "recovery_compute_next_action snap cfg = Inl e \<longleftrightarrow>
     e = RemainderByZero \<and> rc_backoff_interval_secs cfg = 0 \<and> rs_phase snap = BackoffEvery15Min \<and>
     \<not> rc_disabled cfg \<and> \<not> rs_cold_restart_pending snap \<and>
     rs_failure_fingerprint_streak snap < rc_fingerprint_streak_forcing_hitl cfg \<and>
     (rc_autonomous cfg \<or> rs_phase_elapsed_secs snap < rc_backoff_phase_max_secs cfg)"
  by (auto simp: decision_defs split: if_splits recovery_phase.splits)

lemma next_action_total:
  "0 < rc_backoff_interval_secs cfg \<Longrightarrow> \<exists>a. recovery_compute_next_action snap cfg = Inr a"
  by (auto simp: decision_defs split: recovery_phase.splits)

section \<open>Monotonicity in elapsed time\<close>

text \<open>The severity of an action: how far it moves reconnection towards a halt.\<close>

fun action_rank :: "recovery_action \<Rightarrow> nat" where
  "action_rank EscalateToBackoff = 1"
| "action_rank FireGiveUpAlert = 2"
| "action_rank ForceHitlEarly = 2"
| "action_rank _ = 0"

text \<open>
  Escalation is monotone in the elapsed time of the phase: all else equal, a longer
  elapsed time never yields a milder decision, so taking the minimum of the two clocks
  can only delay an escalation, never hasten it.
\<close>

theorem escalation_monotone:
  assumes "rs_phase_elapsed_secs snap \<le> t"
    and "recovery_compute_next_action snap cfg = Inr a"
    and "recovery_compute_next_action (snap\<lparr>rs_phase_elapsed_secs := t\<rparr>) cfg = Inr b"
  shows "action_rank a \<le> action_rank b"
  using assms by (auto simp: decision_defs split: if_splits recovery_phase.splits)

theorem escalation_monotone_witness:
  "action_rank (Sleep 0) \<le> action_rank EscalateToBackoff"
  using escalation_monotone
    [of "snap_example Aggressive 10" 4000 default_recovery_config "Sleep 0" EscalateToBackoff]
  by (simp add: decision_defs snap_example_def default_recovery_config_def)

end
