(* ===== verification/Ibctl_Files.thy ===== *)
theory Ibctl_Files
  imports Ibctl_Prelude
begin

text \<open>
  The file system as the marker code of ibctl sees it: files addressed by directory and
  name, the primitives \<open>File::create\<close>, \<open>write_all\<close>, \<open>sync_all\<close>, \<open>rename\<close> and
  \<open>remove_file\<close>, each of which may fail, and a process that may die between or inside
  two primitives. On top of them stand the two \<open>atomic_write\<close> routines of the sources
  (\<open>state_machine/recovery.rs\<close>, which propagates sync errors, and \<open>cold_restart.rs\<close> /
  \<open>state_machine/markers.rs\<close>, which ignore them), and the interface both provide: the
  target changes to the whole new content exactly when the write reports success.
\<close>

section \<open>Disk, faults and crashes\<close>

type_synonym path = "string \<times> string"

text \<open>
  \<open>Unreadable\<close> is a file that exists but that \<open>read_to_string\<close> cannot return
  (permissions, an I/O error, invalid UTF-8).
\<close>

datatype file_entry = Readable string | Unreadable

datatype io_error = NotFound | InvalidInput | InvalidData | OtherIo | Crashed

text \<open>
  A disk carries the files and the adversary: \<open>faults n\<close> makes the \<open>n\<close>-th primitive
  fail (with an error that is not the ``no such file'' the code treats specially), \<open>crash_at\<close> is the number of primitives after which the process is gone, and
  \<open>torn\<close> is how many bytes of an interrupted \<open>write_all\<close> reached the file.
\<close>

record disk =
  files :: "path \<Rightarrow> file_entry option"
  faults :: "nat \<Rightarrow> bool"
  crash_at :: "nat option"
  torn :: nat
  ticks :: nat

type_synonym files_fun = "(path \<Rightarrow> file_entry option) \<Rightarrow> path \<Rightarrow> file_entry option"
type_synonym 'a io = "disk \<Rightarrow> disk \<times> (io_error + 'a)"

definition healthy_disk :: "(path \<Rightarrow> file_entry option) \<Rightarrow> disk" where
  "healthy_disk fs = \<lparr>files = fs, faults = (\<lambda>_. False), crash_at = None, torn = 0, ticks = 0\<rparr>"

text \<open>
  One primitive: \<open>full\<close> is its effect when it succeeds, \<open>part\<close> its effect when it fails
  or when the process dies in the middle of it. Once the process is dead nothing
  changes any more.
\<close>

definition io_prim :: "files_fun \<Rightarrow> files_fun \<Rightarrow> unit io" where
  "io_prim full part d =
     (let dead = (case crash_at d of None \<Rightarrow> False | Some k \<Rightarrow> k < ticks d);
          dying = (crash_at d = Some (ticks d))
      in if dead then (d, Inl Crashed)
         else if dying then (d\<lparr>files := part (files d), ticks := Suc (ticks d)\<rparr>, Inl Crashed)
         else if faults d (ticks d)
         then (d\<lparr>files := part (files d), ticks := Suc (ticks d)\<rparr>, Inl OtherIo)
         else (d\<lparr>files := full (files d), ticks := Suc (ticks d)\<rparr>, Inr ()))"

definition io_return :: "'a \<Rightarrow> 'a io" where
  "io_return a d = (d, Inr a)"

definition io_fail :: "io_error \<Rightarrow> 'a io" where
  "io_fail e d = (d, Inl e)"

text \<open>The \<open>?\<close> operator.\<close>

definition io_bind :: "'a io \<Rightarrow> ('a \<Rightarrow> 'b io) \<Rightarrow> 'b io" where
  "io_bind m k d = (case m d of (d', Inl e) \<Rightarrow> (d', Inl e) | (d', Inr a) \<Rightarrow> k a d')"

text \<open>\<open>let _ = m\<close> and \<open>m.ok()\<close>: the outcome is dropped.\<close>

definition io_ignore :: "'a io \<Rightarrow> unit io" where
  "io_ignore m d = (fst (m d), Inr ())"

definition file_create :: "path \<Rightarrow> unit io" where
  "file_create p = io_prim (\<lambda>fs. fs(p := Some (Readable []))) id"

definition file_write_all :: "path \<Rightarrow> string \<Rightarrow> unit io" where
  "file_write_all p b d =
     io_prim (\<lambda>fs. fs(p := Some (Readable b))) (\<lambda>fs. fs(p := Some (Readable (take (torn d) b)))) d"

definition file_sync_all :: "unit io" where
  "file_sync_all = io_prim id id"

definition fs_rename :: "path \<Rightarrow> path \<Rightarrow> unit io" where
  "fs_rename p q d =
     (if files d p = None then (d, Inl NotFound)
      else io_prim (\<lambda>fs. (fs(q := fs p))(p := None)) id d)"

definition fs_remove_file :: "path \<Rightarrow> unit io" where
  "fs_remove_file p d =
     (if files d p = None then (d, Inl NotFound) else io_prim (\<lambda>fs. fs(p := None)) id d)"

definition read_to_string :: "path \<Rightarrow> disk \<Rightarrow> io_error + string" where
  "read_to_string p d =
     (case files d p of
        None \<Rightarrow> Inl NotFound
      | Some Unreadable \<Rightarrow> Inl OtherIo
      | Some (Readable s) \<Rightarrow> Inr s)"

section \<open>The two atomic writes\<close>

definition path_file_name :: "path \<Rightarrow> string option" where
  "path_file_name p = (if snd p = [] \<or> snd p = ''..'' then None else Some (snd p))"

definition tmp_path :: "path \<Rightarrow> path" where
  "tmp_path p = (fst p, snd p @ ''.tmp'')"

text \<open>
  \<open>recovery.rs\<close>: create, write, sync (propagated), rename, then a best-effort sync of the
  directory.
\<close>

definition atomic_write_durable :: "path \<Rightarrow> string \<Rightarrow> unit io" where
  "atomic_write_durable p b =
     (case path_file_name p of
        None \<Rightarrow> io_fail InvalidInput
      | Some _ \<Rightarrow>
          io_bind (file_create (tmp_path p)) (\<lambda>_.
          io_bind (file_write_all (tmp_path p) b) (\<lambda>_.
          io_bind file_sync_all (\<lambda>_.
          io_bind (fs_rename (tmp_path p) p) (\<lambda>_.
          io_ignore file_sync_all)))))"

text \<open>\<open>cold_restart.rs\<close> and \<open>markers.rs\<close>: the sync is best effort, the rename is last.\<close>

definition atomic_write_best_effort :: "path \<Rightarrow> string \<Rightarrow> unit io" where
  "atomic_write_best_effort p b =
     (case path_file_name p of
        None \<Rightarrow> io_fail InvalidInput
      | Some _ \<Rightarrow>
          io_bind (file_create (tmp_path p)) (\<lambda>_.
          io_bind (file_write_all (tmp_path p) b) (\<lambda>_.
          io_bind (io_ignore file_sync_all) (\<lambda>_.
          fs_rename (tmp_path p) p))))"

section \<open>What an atomic write promises\<close>

text \<open>
  The contract the marker code relies on, for every fault schedule and every crash
  point: the target holds the whole new content when the write succeeds and is untouched
  when it does not, and no file but the target and its temporary is affected.
\<close>

locale atomic_writer =
  fixes awrite :: "path \<Rightarrow> string \<Rightarrow> unit io"
  assumes all_or_nothing:
      "files (fst (awrite p b d)) p =
         (case snd (awrite p b d) of Inl e \<Rightarrow> files d p | Inr u \<Rightarrow> Some (Readable b))"
    and frame:
      "q \<noteq> p \<Longrightarrow> q \<noteq> tmp_path p \<Longrightarrow> files (fst (awrite p b d)) q = files d q"
    and healthy_ok:
      "path_file_name p \<noteq> None \<Longrightarrow> faults d = (\<lambda>_. False) \<Longrightarrow> crash_at d = None \<Longrightarrow>
         snd (awrite p b d) = Inr ()"
    and adversary_fixed:
      "faults (fst (awrite p b d)) = faults d \<and> crash_at (fst (awrite p b d)) = crash_at d"
begin

lemma read_after:
  "read_to_string p (fst (awrite p b d)) =
     (case snd (awrite p b d) of Inl e \<Rightarrow> read_to_string p d | Inr u \<Rightarrow> Inr b)"
  using all_or_nothing [of p b d]
  by (simp add: read_to_string_def split: sum.splits)

lemma read_other:
  "q \<noteq> p \<Longrightarrow> q \<noteq> tmp_path p \<Longrightarrow>
     read_to_string q (fst (awrite p b d)) = read_to_string q d"
  by (simp add: read_to_string_def frame)

lemma read_old_or_new:
  "read_to_string p (fst (awrite p b d)) \<in> {read_to_string p d, Inr b}"
  by (simp add: read_after split: sum.splits)

end

lemma tmp_path_neq [simp]: "tmp_path p \<noteq> p" "p \<noteq> tmp_path p"
  by (cases p; simp add: tmp_path_def)+

lemma io_prim_adversary:
  "faults (fst (io_prim f c d)) = faults d \<and> crash_at (fst (io_prim f c d)) = crash_at d"
  by (simp add: io_prim_def Let_def split: option.splits)

lemma io_prim_effect:
  "snd (io_prim f c d) = Inr () \<Longrightarrow> files (fst (io_prim f c d)) = f (files d)"
  "snd (io_prim f c d) = Inl e \<Longrightarrow>
     files (fst (io_prim f c d)) = files d \<or> files (fst (io_prim f c d)) = c (files d)"
  by (auto simp: io_prim_def Let_def split: option.splits if_splits)

lemma io_prim_healthy:
  "faults d = (\<lambda>_. False) \<Longrightarrow> crash_at d = None \<Longrightarrow>
     io_prim f c d = (d\<lparr>files := f (files d), ticks := Suc (ticks d)\<rparr>, Inr ())"
  by (simp add: io_prim_def)

lemmas io_defs = io_bind_def io_ignore_def io_fail_def io_return_def

lemma io_ignore_snd [simp]: "snd (io_ignore m d) = Inr ()"
  by (simp add: io_ignore_def)

lemma io_bind_fst:
  "fst (io_bind m k d) = (case snd (m d) of Inl e \<Rightarrow> fst (m d) | Inr a \<Rightarrow> fst (k a (fst (m d))))"
  by (simp add: io_bind_def split: prod.splits sum.splits)

lemma io_bind_snd:
  "snd (io_bind m k d) = (case snd (m d) of Inl e \<Rightarrow> Inl e | Inr a \<Rightarrow> snd (k a (fst (m d))))"
  by (simp add: io_bind_def split: prod.splits sum.splits)

lemma io_bind_assoc: "io_bind (io_bind m k) l = io_bind m (\<lambda>a. io_bind (k a) l)"
  by (rule ext) (simp add: io_bind_def split: prod.splits sum.splits)

lemma io_bind_return: "io_bind m io_return = m"
  by (rule ext) (auto simp: io_bind_def io_return_def split: prod.splits sum.splits)

lemma file_sync_all_files: "files (fst (file_sync_all d)) = files d"
  by (simp add: file_sync_all_def io_prim_def Let_def split: option.splits)

lemma fs_rename_effect:
  "snd (fs_rename p q d) = Inr () \<Longrightarrow> files (fst (fs_rename p q d)) = ((files d)(q := files d p))(p := None)"
  "snd (fs_rename p q d) = Inl e \<Longrightarrow> files (fst (fs_rename p q d)) = files d"
  by (auto simp: fs_rename_def io_prim_def Let_def split: option.splits if_splits)

lemma write_tmp_frame:
  "q \<noteq> p \<Longrightarrow> files (fst (file_create p d)) q = files d q"
  "q \<noteq> p \<Longrightarrow> files (fst (file_write_all p b d)) q = files d q"
  by (auto simp: file_create_def file_write_all_def io_prim_def Let_def split: option.splits)

lemma write_tmp_content:
  "snd (file_write_all p b d) = Inr () \<Longrightarrow> files (fst (file_write_all p b d)) p = Some (Readable b)"
  by (auto simp: file_write_all_def dest: io_prim_effect(1))

text \<open>
  Both routines fill the temporary file, run a sync that does not touch the contents,
  rename, and end with an action that neither fails nor changes a file. This shape
  gives the contract, whatever the sync step does with its own errors.
\<close>

definition fill_tmp :: "unit io \<Rightarrow> path \<Rightarrow> string \<Rightarrow> unit io" where
  "fill_tmp sync p b =
     io_bind (file_create (tmp_path p)) (\<lambda>_. io_bind (file_write_all (tmp_path p) b) (\<lambda>_. sync))"

definition write_shape :: "unit io \<Rightarrow> unit io \<Rightarrow> path \<Rightarrow> string \<Rightarrow> unit io" where
  "write_shape sync fin p b =
     (case path_file_name p of
        None \<Rightarrow> io_fail InvalidInput
      | Some _ \<Rightarrow> io_bind (fill_tmp sync p b) (\<lambda>_. io_bind (fs_rename (tmp_path p) p) (\<lambda>_. fin)))"

locale write_steps =
  fixes sync fin :: "unit io"
  assumes sync_files: "files (fst (sync d)) = files d"
    and fin_files: "files (fst (fin d)) = files d"
    and fin_ok: "snd (fin d) = Inr ()"
    and sync_healthy: "faults d = (\<lambda>_. False) \<Longrightarrow> crash_at d = None \<Longrightarrow> snd (sync d) = Inr ()"
    and sync_adversary: "faults (fst (sync d)) = faults d \<and> crash_at (fst (sync d)) = crash_at d"
    and fin_adversary: "faults (fst (fin d)) = faults d \<and> crash_at (fst (fin d)) = crash_at d"
begin

lemma fill_frame: "q \<noteq> tmp_path p \<Longrightarrow> files (fst (fill_tmp sync p b d)) q = files d q"
  by (simp add: fill_tmp_def io_bind_fst write_tmp_frame sync_files split: sum.splits)

lemma fill_content:
  "snd (fill_tmp sync p b d) = Inr () \<Longrightarrow> files (fst (fill_tmp sync p b d)) (tmp_path p) = Some (Readable b)"
  by (auto simp: fill_tmp_def io_bind_fst io_bind_snd sync_files write_tmp_content split: sum.splits)

lemma fill_adversary:
  "faults (fst (fill_tmp sync p b d)) = faults d \<and> crash_at (fst (fill_tmp sync p b d)) = crash_at d"
  by (simp add: fill_tmp_def io_bind_fst file_create_def file_write_all_def io_prim_adversary
      sync_adversary split: sum.splits)

lemma fill_healthy:
  assumes "faults d = (\<lambda>_. False)" and "crash_at d = None"
  shows "snd (fill_tmp sync p b d) = Inr ()"
  using assms
  by (simp add: fill_tmp_def io_bind_fst io_bind_snd file_create_def file_write_all_def io_prim_healthy
      sync_healthy)

lemma shape_all_or_nothing:
  "files (fst (write_shape sync fin p b d)) p =
     (case snd (write_shape sync fin p b d) of Inl e \<Rightarrow> files d p | Inr u \<Rightarrow> Some (Readable b))"
proof (cases "path_file_name p")
  case None
  then show ?thesis by (simp add: write_shape_def io_fail_def)
next
  case (Some n)
  let ?d1 = "fst (fill_tmp sync p b d)"
  show ?thesis
  proof (cases "snd (fill_tmp sync p b d)")
    case (Inl e)
    with Some show ?thesis by (simp add: write_shape_def io_bind_fst io_bind_snd fill_frame)
  next
    case (Inr u)
    show ?thesis
    proof (cases "snd (fs_rename (tmp_path p) p ?d1)")
      case (Inl e)
      with Some Inr show ?thesis
        by (simp add: write_shape_def io_bind_fst io_bind_snd fs_rename_effect(2) [OF Inl] fill_frame)
    next
      case r: (Inr v)
      then have "snd (fs_rename (tmp_path p) p ?d1) = Inr ()" by simp
      with Some Inr fill_content [of p b d] show ?thesis
        by (simp add: write_shape_def io_bind_fst io_bind_snd fs_rename_effect(1) fin_files fin_ok)
    qed
  qed
qed

lemma shape_frame:
  assumes "q \<noteq> p" and "q \<noteq> tmp_path p"
  shows "files (fst (write_shape sync fin p b d)) q = files d q"
proof -
  have ren: "files (fst (fs_rename (tmp_path p) p e)) q = files e q" for e
    using assms fs_rename_effect [of "tmp_path p" p e]
    by (cases "snd (fs_rename (tmp_path p) p e)") auto
  show ?thesis
    using assms
    by (simp add: write_shape_def io_bind_fst io_fail_def fill_frame fin_files ren
        split: option.splits sum.splits)
qed

lemma shape_healthy:
  assumes "path_file_name p \<noteq> None" "faults d = (\<lambda>_. False)" "crash_at d = None"
  shows "snd (write_shape sync fin p b d) = Inr ()"
proof -
  let ?d1 = "fst (fill_tmp sync p b d)"
  have ok: "snd (fill_tmp sync p b d) = Inr ()" using assms(2,3) by (rule fill_healthy)
  then have "files ?d1 (tmp_path p) \<noteq> None" by (simp add: fill_content)
  then have "snd (fs_rename (tmp_path p) p ?d1) = Inr ()"
    using assms fill_adversary [of p b d] by (simp add: fs_rename_def io_prim_healthy)
  with ok assms(1) show ?thesis by (auto simp: write_shape_def io_bind_snd fin_ok)
qed

lemma shape_adversary:
  "faults (fst (write_shape sync fin p b d)) = faults d \<and>
   crash_at (fst (write_shape sync fin p b d)) = crash_at d"
  by (simp add: write_shape_def io_bind_fst io_fail_def fs_rename_def fill_adversary
      io_prim_adversary fin_adversary split: option.splits sum.splits)

sublocale atomic_writer "write_shape sync fin"
  by unfold_locales (simp_all add: shape_all_or_nothing shape_frame shape_healthy shape_adversary)

end

lemma sync_step_facts:
  "faults d = (\<lambda>_. False) \<Longrightarrow> crash_at d = None \<Longrightarrow> snd (file_sync_all d) = Inr ()"
  "faults (fst (file_sync_all d)) = faults d \<and> crash_at (fst (file_sync_all d)) = crash_at d"
  by (simp_all add: file_sync_all_def io_prim_healthy io_prim_adversary)

interpretation durable_steps: write_steps file_sync_all "io_ignore file_sync_all"
  by unfold_locales (simp_all add: file_sync_all_files io_ignore_def sync_step_facts)

interpretation best_effort_steps: write_steps "io_ignore file_sync_all" "io_return ()"
  by unfold_locales (simp_all add: file_sync_all_files io_ignore_def io_return_def sync_step_facts)

lemma atomic_write_durable_shape:
  "atomic_write_durable = write_shape file_sync_all (io_ignore file_sync_all)"
  by (intro ext) (simp add: atomic_write_durable_def write_shape_def fill_tmp_def io_bind_assoc
      split: option.splits)

lemma atomic_write_best_effort_shape:
  "atomic_write_best_effort = write_shape (io_ignore file_sync_all) (io_return ())"
  by (intro ext) (simp add: atomic_write_best_effort_def write_shape_def fill_tmp_def io_bind_assoc
      io_bind_return split: option.splits)

interpretation durable: atomic_writer atomic_write_durable
  unfolding atomic_write_durable_shape by unfold_locales

interpretation best_effort: atomic_writer atomic_write_best_effort
  unfolding atomic_write_best_effort_shape by unfold_locales

lemma fs_remove_file_effect:
  "snd (fs_remove_file p d) = Inr () \<Longrightarrow> files (fst (fs_remove_file p d)) = (files d)(p := None)"
  "snd (fs_remove_file p d) = Inl e \<Longrightarrow> files (fst (fs_remove_file p d)) = files d"
  by (auto simp: fs_remove_file_def io_prim_def Let_def split: option.splits if_splits)

lemma fs_remove_file_NotFound:
  "files d p = None \<Longrightarrow> fs_remove_file p d = (d, Inl NotFound)"
  by (simp add: fs_remove_file_def)

lemma fs_remove_file_adversary:
  "faults (fst (fs_remove_file p d)) = faults d \<and> crash_at (fst (fs_remove_file p d)) = crash_at d"
  by (simp add: fs_remove_file_def io_prim_adversary)

end
