(* ===== verification/Recovery_Store.thy ===== *)
theory Recovery_Store
  imports Recovery_Policy Ibctl_Files
begin

text \<open>
  The persistence layer of the recovery coordinator (\<open>state_machine/recovery.rs\<close>,
  \<open>load\<close>, \<open>classify_corrupt\<close>, \<open>save\<close>, \<open>clear_sidecar\<close>): a JSON marker and a sidecar
  that records an operator halt, written so that no crash, write error or corruption can
  silently turn a halted coordinator back into a retrying one. JSON itself (serde_json)
  is a parameter, a codec.
\<close>

section \<open>Persisted state and paths\<close>

record persisted_state =
  ps_schema_version :: nat
  ps_phase :: recovery_phase
  ps_phase_entered_at :: zoned
  ps_phase_entered_at_monotonic_secs_since_boot :: nat
  ps_last_full_success_at :: "zoned option"
  ps_giveup_alert_sent_at :: "timestamp option"
  ps_resumed_by_token_hash :: "string option"
  ps_last_known_phase :: recovery_phase

text \<open>
  \<open>serde_json::from_str::<RecoveryPersistedState>\<close>, \<open>serde_json::to_vec_pretty\<close> and the
  field lookup \<open>value.get("last_known_phase").as_str()\<close> on an untyped parse.
\<close>

record codec =
  from_json :: "string \<Rightarrow> persisted_state option"
  to_json :: "persisted_state \<Rightarrow> string option"
  peek_last_known_phase :: "string \<Rightarrow> string option"

definition codec_roundtrip :: "codec \<Rightarrow> persisted_state \<Rightarrow> bool" where
  "codec_roundtrip c s \<longleftrightarrow> (\<exists>raw. to_json c s = Some raw \<and> from_json c raw = Some s)"

definition marker_path :: "string \<Rightarrow> string \<Rightarrow> path" where
  "marker_path settings_dir mode = (settings_dir, ''.ibctl-recovery-state.'' @ mode @ ''.json'')"

definition sidecar_path :: "string \<Rightarrow> string \<Rightarrow> path" where
  "sidecar_path settings_dir mode =
     (settings_dir, ''.ibctl-recovery-state.'' @ mode @ ''.last-known-phase.txt'')"

text \<open>
  The diagnostic texts of the source, by the format string that produces them and its
  arguments.
\<close>

datatype load_reason =
    MarkerMissing path
  | MarkerReadError path io_error
  | MarkerParseError path
  | SchemaMismatch path nat
  | WithForceReset load_reason
  | WithSidecarGivenUp load_reason path
  | WithPartialParse load_reason path
  | SidecarContradictsMain path recovery_phase path
  | GivenUpDemoted path

datatype load_outcome =
    Loaded persisted_state
  | Defaulted load_reason
  | RefusedGivenUpAutoReset load_reason

fun should_block_boot :: "load_outcome \<Rightarrow> bool" where
  "should_block_boot (RefusedGivenUpAutoReset r) = True"
| "should_block_boot _ = False"

section \<open>Loading\<close>

definition sidecar_says_given_up :: "string \<Rightarrow> string \<Rightarrow> disk \<Rightarrow> bool" where
  "sidecar_says_given_up settings_dir mode d =
     (case read_to_string (sidecar_path settings_dir mode) d of
        Inl e \<Rightarrow> False
      | Inr content \<Rightarrow> trim content = phase_as_str GivenUp)"

definition main_peek_given_up :: "codec \<Rightarrow> string \<Rightarrow> string \<Rightarrow> disk \<Rightarrow> bool" where
  "main_peek_given_up c settings_dir mode d =
     (case read_to_string (marker_path settings_dir mode) d of
        Inl e \<Rightarrow> False
      | Inr raw \<Rightarrow> peek_last_known_phase c raw = Some (phase_as_str GivenUp))"

definition classify_corrupt ::
  "codec \<Rightarrow> string \<Rightarrow> string \<Rightarrow> bool \<Rightarrow> load_reason \<Rightarrow> disk \<Rightarrow> load_outcome" where
  "classify_corrupt c settings_dir mode force_reset reason d =
     (if force_reset then Defaulted (WithForceReset reason)
      else if sidecar_says_given_up settings_dir mode d
      then RefusedGivenUpAutoReset (WithSidecarGivenUp reason (sidecar_path settings_dir mode))
      else if main_peek_given_up c settings_dir mode d
      then RefusedGivenUpAutoReset (WithPartialParse reason (marker_path settings_dir mode))
      else Defaulted reason)"

definition load :: "codec \<Rightarrow> string \<Rightarrow> string \<Rightarrow> bool \<Rightarrow> disk \<Rightarrow> load_outcome" where
  "load c settings_dir mode force_reset d =
     (let main = marker_path settings_dir mode;
          corrupt = (\<lambda>reason. classify_corrupt c settings_dir mode force_reset reason d)
      in case read_to_string main d of
           Inl NotFound \<Rightarrow> corrupt (MarkerMissing main)
         | Inl e \<Rightarrow> corrupt (MarkerReadError main e)
         | Inr raw \<Rightarrow>
             (case from_json c raw of
                None \<Rightarrow> corrupt (MarkerParseError main)
              | Some state \<Rightarrow>
                  if ps_schema_version state \<noteq> 1 then corrupt (SchemaMismatch main (ps_schema_version state))
                  else if \<not> force_reset \<and> ps_phase state \<noteq> GivenUp \<and> sidecar_says_given_up settings_dir mode d
                  then RefusedGivenUpAutoReset
                         (SidecarContradictsMain main (ps_phase state) (sidecar_path settings_dir mode))
                  else if force_reset \<and> ps_phase state = GivenUp then Defaulted (GivenUpDemoted main)
                  else Loaded state))"

section \<open>Saving\<close>

definition save :: "codec \<Rightarrow> string \<Rightarrow> string \<Rightarrow> persisted_state \<Rightarrow> unit io" where
  "save c settings_dir mode state =
     (let main = marker_path settings_dir mode; side = sidecar_path settings_dir mode in
      io_bind
        (if ps_phase state = GivenUp then atomic_write_durable side (phase_as_str GivenUp)
         else (\<lambda>d. case fs_remove_file side d of
                     (d', Inr _) \<Rightarrow> (d', Inr ())
                   | (d', Inl NotFound) \<Rightarrow> (d', Inr ())
                   | (d', Inl e) \<Rightarrow> (d', Inl e)))
        (\<lambda>_. case to_json c state of
               None \<Rightarrow> io_fail InvalidData
             | Some json \<Rightarrow> atomic_write_durable main json))"

definition clear_sidecar :: "string \<Rightarrow> string \<Rightarrow> unit io" where
  "clear_sidecar settings_dir mode d =
     (case fs_remove_file (sidecar_path settings_dir mode) d of
        (d', Inr _) \<Rightarrow> (d', Inr ())
      | (d', Inl NotFound) \<Rightarrow> (d', Inr ())
      | (d', Inl e) \<Rightarrow> (d', Inl e))"

section \<open>Marker names do not collide\<close>

lemma last_append_const:
  "b \<noteq> [] \<Longrightarrow> d \<noteq> [] \<Longrightarrow> last b \<noteq> last d \<Longrightarrow> a @ b \<noteq> c @ d"
  by (metis last_appendR)

lemma marker_sidecar_distinct:
  "marker_path s m \<noteq> sidecar_path s' m'"
  "marker_path s m \<noteq> tmp_path (sidecar_path s' m')"
  "marker_path s m \<noteq> tmp_path (marker_path s' m')"
  "sidecar_path s m \<noteq> tmp_path (marker_path s' m')"
  "sidecar_path s m \<noteq> tmp_path (sidecar_path s' m')"
  "sidecar_path s m \<noteq> marker_path s' m'"
  by (auto simp: marker_path_def sidecar_path_def tmp_path_def
      dest!: arg_cong [where f = last])

lemma marker_path_inj: "m \<noteq> m' \<Longrightarrow> marker_path s m \<noteq> marker_path s m'"
  "m \<noteq> m' \<Longrightarrow> sidecar_path s m \<noteq> sidecar_path s m'"
  by (simp_all add: marker_path_def sidecar_path_def)

lemma marker_file_name [simp]:
  "path_file_name (marker_path s m) \<noteq> None" "path_file_name (sidecar_path s m) \<noteq> None"
  by (simp_all add: path_file_name_def marker_path_def sidecar_path_def)

lemma trim_phase [simp]: "trim (phase_as_str p) = phase_as_str p"
  by (cases p) (simp_all add: trim_no_ws is_ws_def)

section \<open>What loading depends on\<close>

lemma sidecar_cong:
  "read_to_string (sidecar_path s m) d = read_to_string (sidecar_path s m) d' \<Longrightarrow>
     sidecar_says_given_up s m d = sidecar_says_given_up s m d'"
  by (simp add: sidecar_says_given_up_def)

lemma load_cong:
  assumes "read_to_string (marker_path s m) d = read_to_string (marker_path s m) d'"
    and "read_to_string (sidecar_path s m) d = read_to_string (sidecar_path s m) d'"
  shows "load c s m f d = load c s m f d'"
proof -
  have "sidecar_says_given_up s m d = sidecar_says_given_up s m d'"
    and "main_peek_given_up c s m d = main_peek_given_up c s m d'"
    using assms by (simp_all add: main_peek_given_up_def sidecar_says_given_up_def)
  then have "classify_corrupt c s m f r d = classify_corrupt c s m f r d'" for r
    by (simp add: classify_corrupt_def)
  with assms \<open>sidecar_says_given_up s m d = _\<close> show ?thesis
    by (simp add: load_def Let_def split: sum.split io_error.split option.split)
qed

text \<open>The disk says that an operator halt is in force.\<close>

definition halted_on_disk :: "codec \<Rightarrow> string \<Rightarrow> string \<Rightarrow> disk \<Rightarrow> bool" where
  "halted_on_disk c s m d =
     (case load c s m False d of
        Loaded st \<Rightarrow> ps_phase st = GivenUp
      | Defaulted r \<Rightarrow> False
      | RefusedGivenUpAutoReset r \<Rightarrow> True)"

lemma load_without_sidecar:
  assumes "read_to_string (marker_path s m) d = Inr raw" and "from_json c raw = Some st"
    and "ps_schema_version st = 1" and "\<not> sidecar_says_given_up s m d"
  shows "load c s m False d = Loaded st"
  using assms by (simp add: load_def)

lemma load_given_up:
  assumes "read_to_string (marker_path s m) d = Inr raw" and "from_json c raw = Some st"
    and "ps_schema_version st = 1" and "ps_phase st = GivenUp"
  shows "load c s m False d = Loaded st"
  using assms by (simp add: load_def)

lemma sidecar_halts: "sidecar_says_given_up s m d \<Longrightarrow> halted_on_disk c s m d"
  by (auto simp: halted_on_disk_def load_def classify_corrupt_def Let_def
      split: sum.splits io_error.splits option.splits)

lemma corrupt_peek_halts:
  assumes "main_peek_given_up c s m d"
    and "\<And>raw. read_to_string (marker_path s m) d = Inr raw \<Longrightarrow>
           (case from_json c raw of None \<Rightarrow> True | Some st \<Rightarrow> ps_schema_version st \<noteq> 1 \<or> ps_phase st = GivenUp)"
  shows "halted_on_disk c s m d"
  using assms
  by (auto simp: halted_on_disk_def load_def classify_corrupt_def Let_def main_peek_given_up_def
      split: sum.splits io_error.splits option.splits)

section \<open>What saving does to the two files\<close>

lemma save_givenup_reads:
  assumes "ps_phase st = GivenUp" and "to_json c st = Some raw"
  shows "(\<exists>e. snd (save c s m st d) = Inl e \<and>
            (\<forall>q \<in> {marker_path s m, sidecar_path s m}.
               read_to_string q (fst (save c s m st d)) = read_to_string q d))
       \<or> read_to_string (sidecar_path s m) (fst (save c s m st d)) = Inr (phase_as_str GivenUp) \<and>
         read_to_string (marker_path s m) (fst (save c s m st d)) =
           (case snd (save c s m st d) of Inl e \<Rightarrow> read_to_string (marker_path s m) d | Inr u \<Rightarrow> Inr raw)"
proof -
  let ?side = "sidecar_path s m" and ?main = "marker_path s m"
  let ?w1 = "atomic_write_durable ?side (phase_as_str GivenUp) d"
  have eq: "save c s m st d = io_bind (atomic_write_durable ?side (phase_as_str GivenUp))
              (\<lambda>_. atomic_write_durable ?main raw) d"
    using assms by (simp add: save_def Let_def)
  have main1: "read_to_string ?main (fst ?w1) = read_to_string ?main d"
    by (rule durable.read_other) (rule marker_sidecar_distinct)+
  show ?thesis
  proof (cases "snd ?w1")
    case (Inl e)
    with main1 durable.read_after [of ?side "phase_as_str GivenUp" d] show ?thesis
      by (simp add: eq io_bind_fst io_bind_snd)
  next
    case (Inr u)
    have "read_to_string ?side (fst (atomic_write_durable ?main raw (fst ?w1)))
            = read_to_string ?side (fst ?w1)"
      by (rule durable.read_other) (rule marker_sidecar_distinct)+
    with Inr main1 durable.read_after [of ?side "phase_as_str GivenUp" d]
      durable.read_after [of ?main raw "fst ?w1"]
    show ?thesis by (simp add: eq io_bind_fst io_bind_snd split: sum.splits)
  qed
qed

lemma preclean_reads:
  assumes "fs_remove_file (sidecar_path s m) d = (d1, r)"
  shows "read_to_string (marker_path s m) d1 = read_to_string (marker_path s m) d"
    and "r = Inr u \<Longrightarrow> read_to_string (sidecar_path s m) d1 = Inl NotFound"
    and "r = Inl e \<Longrightarrow> read_to_string (sidecar_path s m) d1 = read_to_string (sidecar_path s m) d"
    and "r = Inl NotFound \<Longrightarrow> read_to_string (sidecar_path s m) d1 = Inl NotFound"
  using assms marker_sidecar_distinct(1) [of s m s m]
  by (auto simp: fs_remove_file_def io_prim_def Let_def read_to_string_def
      split: if_splits option.splits)

text \<open>
  A save of a non-halted state either leaves both files as they were, or has removed the
  sidecar and left the old marker, or has removed it and installed the new marker. (A
  sidecar that is already absent counts as removed.)
\<close>

lemma save_live_reads:
  assumes "ps_phase st \<noteq> GivenUp" and "to_json c st = Some raw"
  shows "(\<exists>e. snd (save c s m st d) = Inl e \<and>
            (\<forall>q \<in> {marker_path s m, sidecar_path s m}.
               read_to_string q (fst (save c s m st d)) = read_to_string q d))
       \<or> read_to_string (sidecar_path s m) (fst (save c s m st d)) = Inl NotFound \<and>
         read_to_string (marker_path s m) (fst (save c s m st d)) =
           (case snd (save c s m st d) of Inl e \<Rightarrow> read_to_string (marker_path s m) d | Inr u \<Rightarrow> Inr raw)"
proof -
  let ?side = "sidecar_path s m" and ?main = "marker_path s m"
  obtain d1 r where rm: "fs_remove_file ?side d = (d1, r)" by fastforce
  have after: "read_to_string ?side (fst (atomic_write_durable ?main raw d1)) = read_to_string ?side d1"
    by (rule durable.read_other) (rule marker_sidecar_distinct)+
  show ?thesis
  proof (cases "r = Inr () \<or> r = Inl NotFound")
    case True
    then have eq: "save c s m st d = atomic_write_durable ?main raw d1"
      using assms(1,2) rm by (auto simp: save_def Let_def io_bind_def)
    have "read_to_string ?side d1 = Inl NotFound"
      using True preclean_reads(2,4) [OF rm] by blast
    with after eq preclean_reads(1) [OF rm] durable.read_after [of ?main raw d1]
    show ?thesis by (simp split: sum.splits)
  next
    case False
    then obtain e where r: "r = Inl e" "e \<noteq> NotFound" by (cases r) auto
    then have "save c s m st d = (d1, Inl e)"
      using assms(1,2) rm by (cases e) (simp_all add: save_def Let_def io_bind_def)
    with preclean_reads [OF rm] r show ?thesis by simp
  qed
qed

lemma save_healthy:
  assumes "faults d = (\<lambda>_. False)" and "crash_at d = None" and "to_json c st = Some raw"
  shows "snd (save c s m st d) = Inr ()"
proof (cases "ps_phase st = GivenUp")
  case True
  let ?w = "atomic_write_durable (sidecar_path s m) (phase_as_str GivenUp) d"
  have "snd ?w = Inr ()" using assms(1,2) by (intro durable.healthy_ok) simp_all
  moreover have "snd (atomic_write_durable (marker_path s m) raw (fst ?w)) = Inr ()"
    using assms(1,2) durable.adversary_fixed [of "sidecar_path s m" "phase_as_str GivenUp" d]
    by (intro durable.healthy_ok) simp_all
  ultimately show ?thesis using True assms(3) by (simp add: save_def io_bind_snd)
next
  case False
  obtain d1 r where rm: "fs_remove_file (sidecar_path s m) d = (d1, r)" by fastforce
  then have r: "r = Inr () \<or> r = Inl NotFound" and adv: "faults d1 = (\<lambda>_. False)" "crash_at d1 = None"
    using assms(1,2) fs_remove_file_adversary [of "sidecar_path s m" d]
    by (auto simp: fs_remove_file_def io_prim_healthy split: if_splits)
  have "snd (atomic_write_durable (marker_path s m) raw d1) = Inr ()"
    using adv by (intro durable.healthy_ok) simp_all
  with False rm r assms(3) show ?thesis by (auto simp: save_def io_bind_def split: prod.splits sum.splits)
qed

section \<open>Crash safety of the two save orders\<close>

text \<open>Concrete data for the witnesses: a state, a codec that handles it, a disk that crashes.\<close>

definition state_example :: "recovery_phase \<Rightarrow> persisted_state" where
  "state_example ph = \<lparr>ps_schema_version = 1, ps_phase = ph, ps_phase_entered_at = sunday_nine,
     ps_phase_entered_at_monotonic_secs_since_boot = 0, ps_last_full_success_at = None,
     ps_giveup_alert_sent_at = None, ps_resumed_by_token_hash = None, ps_last_known_phase = ph\<rparr>"

definition codec_example :: codec where
  "codec_example = \<lparr>
     from_json = (\<lambda>raw. if raw = ''A'' then Some (state_example Aggressive)
                        else if raw = ''B'' then Some (state_example BackoffEvery15Min)
                        else if raw = ''G'' then Some (state_example GivenUp) else None),
     to_json = (\<lambda>st. Some (case ps_phase st of
                  Aggressive \<Rightarrow> ''A'' | BackoffEvery15Min \<Rightarrow> ''B'' | GivenUp \<Rightarrow> ''G'')),
     peek_last_known_phase = (\<lambda>raw. if raw = ''G'' then Some (phase_as_str GivenUp) else None)\<rparr>"

definition crash_disk :: "nat \<Rightarrow> disk" where
  "crash_disk k = (healthy_disk (\<lambda>_. None))\<lparr>crash_at := Some k\<rparr>"

lemma example_facts:
  "ps_phase (state_example ph) = ph" "ps_schema_version (state_example ph) = 1"
  "codec_roundtrip codec_example (state_example ph)"
  by (cases ph; simp add: state_example_def codec_example_def codec_roundtrip_def)+

text \<open>
  C1. Halting is crash safe. Saving a GivenUp state, under any schedule of write errors
  and with the process dying at any point, either has no visible effect on loading or
  leaves a disk that loads as halted; a completed save loads back exactly the saved
  state; and a disk that was halted before is still halted afterwards.
\<close>

theorem save_givenup_crash_safe:
  assumes "ps_phase st = GivenUp" and "ps_schema_version st = 1" and "codec_roundtrip c st"
  shows "(snd (save c s m st d) = Inr () \<longrightarrow> load c s m False (fst (save c s m st d)) = Loaded st) \<and>
         (halted_on_disk c s m (fst (save c s m st d)) \<or>
            (\<forall>f. load c s m f (fst (save c s m st d)) = load c s m f d)) \<and>
         (halted_on_disk c s m d \<longrightarrow> halted_on_disk c s m (fst (save c s m st d)))"
proof -
  let ?d' = "fst (save c s m st d)"
  obtain raw where raw: "to_json c st = Some raw" "from_json c raw = Some st"
    using assms(3) by (auto simp: codec_roundtrip_def)
  consider
      (unchanged) e where "snd (save c s m st d) = Inl e"
        "read_to_string (marker_path s m) ?d' = read_to_string (marker_path s m) d"
        "read_to_string (sidecar_path s m) ?d' = read_to_string (sidecar_path s m) d"
    | (sidecar) "sidecar_says_given_up s m ?d'"
        "snd (save c s m st d) = Inr () \<Longrightarrow> read_to_string (marker_path s m) ?d' = Inr raw"
    using save_givenup_reads [OF assms(1) raw(1), of s m d]
    by (auto simp: sidecar_says_given_up_def simp del: phase_as_str.simps)
  then show ?thesis
  proof cases
    case unchanged
    have same: "load c s m f ?d' = load c s m f d" for f
      by (rule load_cong) (fact unchanged)+
    then have "halted_on_disk c s m ?d' = halted_on_disk c s m d" by (simp add: halted_on_disk_def)
    with same unchanged(1) show ?thesis by simp
  next
    case sidecar
    then show ?thesis
      using sidecar_halts load_given_up [OF _ raw(2) assms(2,1)] by blast
  qed
qed

theorem save_givenup_crash_safe_witness:
  "snd (save codec_example ''/jts'' ''live'' (state_example GivenUp) (healthy_disk (\<lambda>_. None))) = Inr () \<and>
   load codec_example ''/jts'' ''live'' False
     (fst (save codec_example ''/jts'' ''live'' (state_example GivenUp) (healthy_disk (\<lambda>_. None))))
     = Loaded (state_example GivenUp)"
proof -
  let ?d = "healthy_disk (\<lambda>_. None)"
  have ok: "snd (save codec_example ''/jts'' ''live'' (state_example GivenUp) ?d) = Inr ()"
    by code_simp
  show ?thesis
    using ok save_givenup_crash_safe
      [of "state_example GivenUp" codec_example "''/jts''" "''live''" ?d, OF example_facts]
    by blast
qed

text \<open>
  Resuming is wedge free. Saving a non-halted state, under any schedule of write
  errors and any crash point, loads back the saved state when it completes; when it does
  not, either nothing changed for loading or the sidecar is gone and the old marker
  alone decides, so a well-formed old marker is loaded as it is and never refused.
\<close>

theorem save_live_crash_safe:
  assumes "ps_phase st \<noteq> GivenUp" and "ps_schema_version st = 1" and "codec_roundtrip c st"
  shows "(snd (save c s m st d) = Inr () \<longrightarrow> load c s m f (fst (save c s m st d)) = Loaded st) \<and>
         (snd (save c s m st d) \<noteq> Inr () \<longrightarrow>
            (\<forall>f. load c s m f (fst (save c s m st d)) = load c s m f d) \<or>
            (\<forall>raw0 st0. read_to_string (marker_path s m) d = Inr raw0 \<longrightarrow> from_json c raw0 = Some st0 \<longrightarrow>
               ps_schema_version st0 = 1 \<longrightarrow>
               load c s m False (fst (save c s m st d)) = Loaded st0))"
proof -
  let ?d' = "fst (save c s m st d)"
  obtain raw where raw: "to_json c st = Some raw" "from_json c raw = Some st"
    using assms(3) by (auto simp: codec_roundtrip_def)
  consider
      (unchanged) e where "snd (save c s m st d) = Inl e"
        "read_to_string (marker_path s m) ?d' = read_to_string (marker_path s m) d"
        "read_to_string (sidecar_path s m) ?d' = read_to_string (sidecar_path s m) d"
    | (removed) "\<not> sidecar_says_given_up s m ?d'"
        "read_to_string (marker_path s m) ?d' =
           (case snd (save c s m st d) of Inl e \<Rightarrow> read_to_string (marker_path s m) d | Inr u \<Rightarrow> Inr raw)"
    using save_live_reads [OF assms(1) raw(1), of s m d]
    by (auto simp: sidecar_says_given_up_def)
  then show ?thesis
  proof cases
    case unchanged
    have "load c s m f ?d' = load c s m f d" for f by (rule load_cong) (fact unchanged)+
    with unchanged(1) show ?thesis by simp
  next
    case removed
    have "load c s m f ?d' = Loaded st" if "snd (save c s m st d) = Inr ()"
      using removed that raw(2) assms by (simp add: load_def)
    moreover have "load c s m False ?d' = Loaded st0"
      if "snd (save c s m st d) \<noteq> Inr ()" "read_to_string (marker_path s m) d = Inr raw0"
        "from_json c raw0 = Some st0" "ps_schema_version st0 = 1" for raw0 st0
      using removed that by (auto intro: load_without_sidecar split: sum.splits)
    ultimately show ?thesis by (intro conjI impI disjI2 allI)
  qed
qed

theorem save_live_crash_safe_witness:
  "load codec_example ''/jts'' ''live'' False
     (fst (save codec_example ''/jts'' ''live'' (state_example Aggressive) (healthy_disk (\<lambda>_. None))))
     = Loaded (state_example Aggressive)"
proof -
  let ?d = "healthy_disk (\<lambda>_. None)"
  have ok: "snd (save codec_example ''/jts'' ''live'' (state_example Aggressive) ?d) = Inr ()"
    by code_simp
  have live: "ps_phase (state_example Aggressive) \<noteq> GivenUp" by (simp add: example_facts)
  show ?thesis
    using ok save_live_crash_safe [OF live example_facts(2,3), of "''/jts''" "''live''" ?d False]
    by blast
qed

text \<open>
  C24. The load-time fail-safe: whenever the sidecar records a halt, or a marker that does
  not parse as a valid version-1 state still shows \<open>given_up\<close> as its last known phase, a
  normal boot is halted (refused, or loaded in GivenUp) and never starts afresh; and the
  operator's force reset is never refused and never loads a halted state.
\<close>

theorem load_fail_safe:
  "(load c s m False d = Defaulted r \<longrightarrow>
      \<not> sidecar_says_given_up s m d \<and> \<not> main_peek_given_up c s m d) \<and>
   (sidecar_says_given_up s m d \<longrightarrow> halted_on_disk c s m d) \<and>
   \<not> should_block_boot (load c s m True d) \<and>
   (load c s m True d = Loaded st \<longrightarrow> ps_phase st \<noteq> GivenUp \<and> ps_schema_version st = 1)"
proof -
  have "\<not> sidecar_says_given_up s m d \<and> \<not> main_peek_given_up c s m d" if "load c s m False d = Defaulted r"
    using that
    by (auto simp: load_def classify_corrupt_def Let_def
        split: sum.splits io_error.splits option.splits if_splits)
  moreover have "\<not> should_block_boot (load c s m True d)"
    by (auto simp: load_def classify_corrupt_def Let_def
        split: sum.splits io_error.splits option.splits)
  moreover have "ps_phase st \<noteq> GivenUp \<and> ps_schema_version st = 1" if "load c s m True d = Loaded st"
    using that
    by (auto simp: load_def classify_corrupt_def Let_def
        split: sum.splits io_error.splits option.splits if_splits)
  ultimately show ?thesis using sidecar_halts by blast
qed

theorem load_fail_safe_witness:
  "sidecar_says_given_up ''/jts'' ''live''
     (fst (save codec_example ''/jts'' ''live'' (state_example GivenUp) (crash_disk 6))) \<and>
   halted_on_disk codec_example ''/jts'' ''live''
     (fst (save codec_example ''/jts'' ''live'' (state_example GivenUp) (crash_disk 6)))"
proof -
  let ?d = "fst (save codec_example ''/jts'' ''live'' (state_example GivenUp) (crash_disk 6))"
  have side: "sidecar_says_given_up ''/jts'' ''live'' ?d" by code_simp
  then show ?thesis using load_fail_safe [of codec_example "''/jts''" "''live''" ?d] by blast
qed

lemma save_frame:
  assumes "q \<notin> {marker_path s m, sidecar_path s m, tmp_path (marker_path s m), tmp_path (sidecar_path s m)}"
  shows "files (fst (save c s m st d)) q = files d q"
proof -
  have rm: "files (fst (fs_remove_file (sidecar_path s m) e)) q = files e q" for e
    using assms fs_remove_file_effect [of "sidecar_path s m" e]
    by (cases "snd (fs_remove_file (sidecar_path s m) e)") auto
  have w: "files (fst (atomic_write_durable p b e)) q = files e q"
    if "p \<in> {marker_path s m, sidecar_path s m}" for p b e
    using assms that durable.frame [of q p b e] by auto
  show ?thesis
    using rm [of d]
    by (auto simp: save_def Let_def io_bind_fst w io_fail_def
        split: sum.splits prod.splits option.splits io_error.splits)
qed

text \<open>
  Live and paper coordinators do not interfere: saving the state of one mode, however
  it ends, changes nothing that loading another mode in the same directory sees.
\<close>

theorem modes_do_not_interfere:
  assumes "mode \<noteq> mode'"
  shows "load c s mode' f (fst (save c s mode st d)) = load c s mode' f d"
proof (rule load_cong)
  have "files (fst (save c s mode st d)) (marker_path s mode') = files d (marker_path s mode')"
    by (rule save_frame) (simp add: assms [symmetric] marker_path_inj marker_sidecar_distinct)
  then show "read_to_string (marker_path s mode') (fst (save c s mode st d))
           = read_to_string (marker_path s mode') d"
    by (simp add: read_to_string_def)
  have "files (fst (save c s mode st d)) (sidecar_path s mode') = files d (sidecar_path s mode')"
    by (rule save_frame) (simp add: assms [symmetric] marker_path_inj marker_sidecar_distinct)
  then show "read_to_string (sidecar_path s mode') (fst (save c s mode st d))
           = read_to_string (sidecar_path s mode') d"
    by (simp add: read_to_string_def)
qed

theorem modes_do_not_interfere_witness:
  "load codec_example ''/jts'' ''paper'' False
     (fst (save codec_example ''/jts'' ''live'' (state_example GivenUp) (crash_disk 6)))
   = load codec_example ''/jts'' ''paper'' False (crash_disk 6)"
  by (rule modes_do_not_interfere) simp

end
