(* ===== verification/Recovery_Coordinator.thy ===== *)
theory Recovery_Coordinator
  imports Recovery_Store
begin

text \<open>
  The recovery coordinator (\<open>RecoveryCoordinator\<close> in \<open>state_machine/recovery.rs\<close>): its
  in-memory state, \<open>boot\<close>, \<open>compute\<close>, \<open>apply\<close> and \<open>record_success\<close>, over the decision
  layer and the marker store. Every operation threads the disk and returns the signals it
  sends. The lemmas give the coordinator's invariant, the documented phase graph, the
  single-use guard on resume tokens, the conservative two-clock timer and the continuity
  of the phase timer and of the persisted fields across a restart.
\<close>

section \<open>State\<close>

datatype signal = Terminate | Interrupt | RecoveryGaveUp string zoned

record coordinator =
  co_mode :: string
  co_settings_dir :: string
  co_config :: recovery_config
  co_phase :: recovery_phase
  co_phase_entered_at_wall :: zoned
  co_phase_entered_at_mono :: instant
  co_last_full_success_at :: "zoned option"
  co_last_full_success_mono :: "instant option"
  co_giveup_alert_sent_at :: "timestamp option"
  co_resumed_by_token_hash :: "string option"
  co_blocked_awaiting_resume :: bool
  co_giveup_signal_tx :: bool

datatype applied_action =
    NoChange
  | EscalatedToBackoff
  | FiredGiveUpAlert
  | ResumedToAggressive
  | Deferred

datatype apply_error =
    MarkerWrite io_error
  | ClockSkew string
  | TokenReplay
  | InvalidForPhase recovery_phase string

text \<open>
  The byte hash behind \<open>DefaultHasher\<close> is a parameter \<open>sip\<close>; the stream that
  \<open>hash_token\<close> feeds it (each string followed by \<open>0xFF\<close>, the mint second as eight
  little-endian bytes) and the \<open>{:016x}\<close> format of the result are the source's.
\<close>

type_synonym byte_hash = "nat list \<Rightarrow> 64 word"

definition str_hash_bytes :: "string \<Rightarrow> nat list" where
  "str_hash_bytes s = map of_char s @ [255]"

definition i64_le_bytes :: "int \<Rightarrow> nat list" where
  "i64_le_bytes i = map (\<lambda>k. nat (i mod 2 ^ 64) div 256 ^ k mod 256) [0..<8]"

definition hex_digit :: "nat \<Rightarrow> char" where
  "hex_digit n = ''0123456789abcdef'' ! n"

definition hex16 :: "64 word \<Rightarrow> string" where
  "hex16 w = map (\<lambda>k. hex_digit (unat w div 16 ^ (15 - k) mod 16)) [0..<16]"

definition hash_token :: "byte_hash \<Rightarrow> resume_token \<Rightarrow> string" where
  "hash_token sip t =
     hex16 (sip (str_hash_bytes (rt_mode t) @ i64_le_bytes (rt_minted_at t)
                 @ str_hash_bytes (rt_nonce_material t)))"

section \<open>Operations\<close>

definition read_force_reset_env :: "string option \<Rightarrow> bool" where
  "read_force_reset_env v =
     (case v of None \<Rightarrow> False
      | Some x \<Rightarrow> to_lowercase x \<in> {''1'', ''true'', ''yes'', ''on''})"

definition boot ::
  "codec \<Rightarrow> string option \<Rightarrow> string \<Rightarrow> string \<Rightarrow> recovery_config \<Rightarrow> instant \<Rightarrow> zoned \<Rightarrow> disk
     \<Rightarrow> coordinator \<times> load_outcome" where
  "boot c force_env settings_dir mode config now_mono now_wall d =
     (let outcome = load c settings_dir mode (read_force_reset_env force_env) d;
          base = \<lparr>co_mode = mode, co_settings_dir = settings_dir, co_config = config,
                  co_phase = Aggressive, co_phase_entered_at_wall = now_wall,
                  co_phase_entered_at_mono = now_mono, co_last_full_success_at = None,
                  co_last_full_success_mono = None, co_giveup_alert_sent_at = None,
                  co_resumed_by_token_hash = None, co_blocked_awaiting_resume = False,
                  co_giveup_signal_tx = False\<rparr>;
          coord =
            (case outcome of
               Loaded st \<Rightarrow>
                 base\<lparr>co_phase := ps_phase st,
                      co_phase_entered_at_wall := ps_phase_entered_at st,
                      co_phase_entered_at_mono :=
                        (let wall_delta_secs =
                               nat (max 0 (z_second_of_epoch now_wall
                                           - z_second_of_epoch (ps_phase_entered_at st)))
                         in case instant_checked_sub_secs now_mono wall_delta_secs of
                              Some t \<Rightarrow> t | None \<Rightarrow> now_mono),
                      co_last_full_success_at := ps_last_full_success_at st,
                      co_giveup_alert_sent_at := ps_giveup_alert_sent_at st,
                      co_resumed_by_token_hash := ps_resumed_by_token_hash st\<rparr>
             | Defaulted r \<Rightarrow> base
             | RefusedGivenUpAutoReset r \<Rightarrow>
                 base\<lparr>co_phase := GivenUp, co_blocked_awaiting_resume := True\<rparr>)
      in (coord, outcome))"

definition set_giveup_signal_sender :: "coordinator \<Rightarrow> coordinator" where
  "set_giveup_signal_sender co = co\<lparr>co_giveup_signal_tx := True\<rparr>"

definition enter_phase :: "recovery_phase \<Rightarrow> zoned \<Rightarrow> instant \<Rightarrow> coordinator \<Rightarrow> coordinator" where
  "enter_phase next now_wall now_mono co =
     co\<lparr>co_phase := next, co_phase_entered_at_wall := now_wall, co_phase_entered_at_mono := now_mono,
        co_last_full_success_at := None, co_last_full_success_mono := None\<rparr>"

definition co_phase_elapsed_secs :: "coordinator \<Rightarrow> zoned \<Rightarrow> instant \<Rightarrow> nat" where
  "co_phase_elapsed_secs co now_wall now_mono =
     (let wall_delta_secs =
            nat (max 0 (z_second_of_epoch now_wall - z_second_of_epoch (co_phase_entered_at_wall co)));
          mono_delta_secs =
            (case checked_duration_since now_mono (co_phase_entered_at_mono co) of
               None \<Rightarrow> 0 | Some ms \<Rightarrow> ms div 1000)
      in min wall_delta_secs mono_delta_secs)"

definition persisted_of :: "coordinator \<Rightarrow> persisted_state" where
  "persisted_of co = \<lparr>
     ps_schema_version = 1,
     ps_phase = co_phase co,
     ps_phase_entered_at = co_phase_entered_at_wall co,
     ps_phase_entered_at_monotonic_secs_since_boot = 0,
     ps_last_full_success_at = co_last_full_success_at co,
     ps_giveup_alert_sent_at = co_giveup_alert_sent_at co,
     ps_resumed_by_token_hash = co_resumed_by_token_hash co,
     ps_last_known_phase = co_phase co\<rparr>"

definition persist :: "codec \<Rightarrow> coordinator \<Rightarrow> disk \<Rightarrow> disk \<times> (apply_error + unit)" where
  "persist c co d =
     (case save c (co_settings_dir co) (co_mode co) (persisted_of co) d of
        (d', Inl e) \<Rightarrow> (d', Inl (MarkerWrite e))
      | (d', Inr u) \<Rightarrow> (d', Inr ()))"

text \<open>\<open>self.persist()?; Ok(a)\<close>: the in-memory change stays whatever the disk says.\<close>

definition persist_then ::
  "codec \<Rightarrow> 'a \<Rightarrow> signal list \<Rightarrow> coordinator \<Rightarrow> disk
     \<Rightarrow> coordinator \<times> disk \<times> signal list \<times> (apply_error + 'a)" where
  "persist_then c a sigs co d =
     (case persist c co d of
        (d', Inl e) \<Rightarrow> (co, d', [], Inl e)
      | (d', Inr u) \<Rightarrow> (co, d', sigs, Inr a))"

definition compute ::
  "coordinator \<Rightarrow> zoned \<Rightarrow> instant \<Rightarrow> bool \<Rightarrow> resume_token option \<Rightarrow> nat \<Rightarrow> recovery_action rust" where
  "compute co now_wall now_mono cold_restart_pending token streak =
     recovery_compute_next_action
       \<lparr>rs_phase = co_phase co,
        rs_phase_elapsed_secs = co_phase_elapsed_secs co now_wall now_mono,
        rs_had_success_this_phase = (co_last_full_success_at co \<noteq> None),
        rs_resume_token = token,
        rs_cold_restart_pending = cold_restart_pending,
        rs_failure_fingerprint_streak = streak\<rparr>
       (co_config co)"

definition apply_giveup ::
  "codec \<Rightarrow> zoned \<Rightarrow> instant \<Rightarrow> coordinator \<Rightarrow> disk
     \<Rightarrow> coordinator \<times> disk \<times> signal list \<times> (apply_error + applied_action)" where
  "apply_giveup c now_wall now_mono co d =
     (if co_phase co = GivenUp \<and> co_giveup_alert_sent_at co \<noteq> None then (co, d, [], Inr NoChange)
      else persist_then c FiredGiveUpAlert
             (if co_giveup_signal_tx co then [RecoveryGaveUp (co_mode co) now_wall] else [])
             ((enter_phase GivenUp now_wall now_mono co)
                \<lparr>co_giveup_alert_sent_at := Some (z_second_of_epoch now_wall)\<rparr>) d)"

definition apply_resume ::
  "codec \<Rightarrow> byte_hash \<Rightarrow> zoned \<Rightarrow> instant \<Rightarrow> resume_token option \<Rightarrow> coordinator \<Rightarrow> disk
     \<Rightarrow> coordinator \<times> disk \<times> signal list \<times> (apply_error + applied_action)" where
  "apply_resume c sip now_wall now_mono consumed_token co d =
     (case consumed_token of
        None \<Rightarrow> (co, d, [], Inl (InvalidForPhase (co_phase co) ''ResumeToAggressive requires a resume token''))
      | Some token \<Rightarrow>
          (let hash = hash_token sip token in
           if co_resumed_by_token_hash co = Some hash then (co, d, [], Inl TokenReplay)
           else persist_then c ResumedToAggressive []
                  ((enter_phase Aggressive now_wall now_mono co)
                     \<lparr>co_giveup_alert_sent_at := None, co_resumed_by_token_hash := Some hash,
                      co_blocked_awaiting_resume := False\<rparr>) d))"

fun apply_action ::
  "codec \<Rightarrow> byte_hash \<Rightarrow> recovery_action \<Rightarrow> zoned \<Rightarrow> instant \<Rightarrow> resume_token option \<Rightarrow> coordinator \<Rightarrow> disk
     \<Rightarrow> coordinator \<times> disk \<times> signal list \<times> (apply_error + applied_action)" where
  "apply_action c sip (Sleep n) now_wall now_mono tok co d = (co, d, [], Inr NoChange)"
| "apply_action c sip DeferToColdRestart now_wall now_mono tok co d = (co, d, [], Inr Deferred)"
| "apply_action c sip ResumeAutomatically now_wall now_mono tok co d =
     persist_then c ResumedToAggressive []
       ((enter_phase Aggressive now_wall now_mono co)
          \<lparr>co_giveup_alert_sent_at := None, co_resumed_by_token_hash := None,
           co_blocked_awaiting_resume := False\<rparr>) d"
| "apply_action c sip EscalateToBackoff now_wall now_mono tok co d =
     persist_then c EscalatedToBackoff [] (enter_phase BackoffEvery15Min now_wall now_mono co) d"
| "apply_action c sip FireGiveUpAlert now_wall now_mono tok co d = apply_giveup c now_wall now_mono co d"
| "apply_action c sip ForceHitlEarly now_wall now_mono tok co d = apply_giveup c now_wall now_mono co d"
| "apply_action c sip ResumeToAggressive now_wall now_mono tok co d =
     apply_resume c sip now_wall now_mono tok co d"

definition record_success ::
  "codec \<Rightarrow> zoned \<Rightarrow> instant \<Rightarrow> coordinator \<Rightarrow> disk \<Rightarrow> coordinator \<times> disk \<times> (apply_error + unit)" where
  "record_success c now_wall now_mono co d =
     (case co_phase co of
        GivenUp \<Rightarrow> (co, d, Inl (InvalidForPhase GivenUp
          ''record_success is invalid in GivenUp: the dwell guard should have been aborted on GivenUp entry''))
      | Aggressive \<Rightarrow>
          (let co' = co\<lparr>co_last_full_success_at := Some now_wall, co_last_full_success_mono := Some now_mono\<rparr>;
               (d', r) = persist c co' d
           in (co', d', r))
      | BackoffEvery15Min \<Rightarrow>
          (let co' = (enter_phase Aggressive now_wall now_mono co)
                       \<lparr>co_last_full_success_at := Some now_wall, co_last_full_success_mono := Some now_mono\<rparr>;
               (d', r) = persist c co' d
           in (co', d', r)))"

text \<open>One tick of the wrapper's \<open>compute\<close> then \<open>apply\<close> with the same clocks and token.\<close>

definition coordinator_tick ::
  "codec \<Rightarrow> byte_hash \<Rightarrow> zoned \<Rightarrow> instant \<Rightarrow> bool \<Rightarrow> nat \<Rightarrow> resume_token option \<Rightarrow> coordinator \<Rightarrow> disk
     \<Rightarrow> (coordinator \<times> disk \<times> signal list \<times> (apply_error + applied_action)) rust" where
  "coordinator_tick c sip now_wall now_mono cold streak tok co d =
     (case compute co now_wall now_mono cold tok streak of
        Inl p \<Rightarrow> Inl p
      | Inr a \<Rightarrow> Inr (apply_action c sip a now_wall now_mono tok co d))"

text \<open>Sequences of coordinator events, as the main loop produces them.\<close>

datatype co_event =
    EvTick zoned instant bool nat "resume_token option"
  | EvSuccess zoned instant

fun co_event_step ::
  "codec \<Rightarrow> byte_hash \<Rightarrow> co_event \<Rightarrow> coordinator \<times> disk \<Rightarrow> (coordinator \<times> disk) rust" where
  "co_event_step c sip (EvTick w m cold streak tok) (co, d) =
     (case coordinator_tick c sip w m cold streak tok co d of
        Inl p \<Rightarrow> Inl p | Inr (co', d', sigs, r) \<Rightarrow> Inr (co', d'))"
| "co_event_step c sip (EvSuccess w m) (co, d) =
     (case record_success c w m co d of (co', d', r) \<Rightarrow> Inr (co', d'))"

fun co_exec ::
  "codec \<Rightarrow> byte_hash \<Rightarrow> co_event list \<Rightarrow> coordinator \<times> disk \<Rightarrow> (coordinator \<times> disk) rust" where
  "co_exec c sip [] s = Inr s"
| "co_exec c sip (e # es) s = and_then (co_event_step c sip e s) (co_exec c sip es)"

section \<open>Concrete coordinators for the witnesses\<close>

definition sip_example :: byte_hash where
  "sip_example bs = of_nat (foldl (\<lambda>a b. 257 * a + b) 1 bs)"

definition co_example :: "recovery_phase \<Rightarrow> coordinator" where
  "co_example ph = \<lparr>co_mode = ''live'', co_settings_dir = ''/jts'', co_config = default_recovery_config,
     co_phase = ph, co_phase_entered_at_wall = sunday_nine, co_phase_entered_at_mono = 0,
     co_last_full_success_at = None, co_last_full_success_mono = None, co_giveup_alert_sent_at = None,
     co_resumed_by_token_hash = None, co_blocked_awaiting_resume = False, co_giveup_signal_tx = True\<rparr>"

definition later :: "nat \<Rightarrow> zoned" where
  "later secs = sunday_nine\<lparr>z_second_of_epoch := z_second_of_epoch sunday_nine + int secs\<rparr>"

definition token_example :: resume_token where
  "token_example = \<lparr>rt_mode = ''live'', rt_minted_at = 1783900000, rt_nonce_material = ''abc''\<rparr>"

definition empty_disk :: disk where
  "empty_disk = healthy_disk (\<lambda>_. None)"

lemma Inr_exists: "\<not> isl r \<Longrightarrow> \<exists>a. r = Inr a"
  by (cases r) auto

lemma persist_healthy:
  assumes "faults d = (\<lambda>_. False)" and "crash_at d = None" and "to_json c (persisted_of co) = Some raw"
  obtains d' where "persist c co d = (d', Inr ())"
  using save_healthy [OF assms, of "co_settings_dir co" "co_mode co"]
  by (cases "save c (co_settings_dir co) (co_mode co) (persisted_of co) d") (simp add: persist_def)

lemma persist_then_example:
  "\<exists>d'. persist_then codec_example a sigs co empty_disk = (co, d', sigs, Inr a)"
  by (rule persist_healthy [of empty_disk codec_example co "the (to_json codec_example (persisted_of co))"])
     (auto simp: empty_disk_def healthy_disk_def codec_example_def persist_then_def)

lemmas example_defs = co_example_def default_recovery_config_def later_def sunday_nine_def
  co_phase_elapsed_secs_def checked_duration_since_def

lemmas tick_defs = coordinator_tick_def compute_def decision_defs

section \<open>Invariant\<close>

definition co_inv :: "coordinator \<Rightarrow> bool" where
  "co_inv co \<longleftrightarrow>
     (co_phase co \<noteq> Aggressive \<longrightarrow> co_last_full_success_at co = None) \<and>
     (co_last_full_success_mono co \<noteq> None \<longrightarrow> co_last_full_success_at co \<noteq> None) \<and>
     (co_giveup_alert_sent_at co \<noteq> None \<longrightarrow> co_phase co = GivenUp) \<and>
     (co_blocked_awaiting_resume co \<longrightarrow> co_phase co = GivenUp)"

definition persisted_wf :: "persisted_state \<Rightarrow> bool" where
  "persisted_wf st \<longleftrightarrow>
     ps_schema_version st = 1 \<and> ps_last_known_phase st = ps_phase st \<and>
     (ps_phase st \<noteq> Aggressive \<longrightarrow> ps_last_full_success_at st = None) \<and>
     (ps_giveup_alert_sent_at st \<noteq> None \<longrightarrow> ps_phase st = GivenUp)"

lemma persisted_of_wf: "co_inv co \<Longrightarrow> persisted_wf (persisted_of co)"
  by (simp add: co_inv_def persisted_wf_def persisted_of_def)

lemma persisted_of_simps [simp]:
  "ps_phase (persisted_of co) = co_phase co"
  "ps_schema_version (persisted_of co) = 1"
  by (simp_all add: persisted_of_def)

lemma boot_inv:
  assumes "\<And>st. snd (boot c env dir mode cfg m w d) = Loaded st \<Longrightarrow> persisted_wf st"
  shows "co_inv (fst (boot c env dir mode cfg m w d))"
  using assms
  by (auto simp: boot_def Let_def co_inv_def persisted_wf_def split: load_outcome.splits)

lemma persist_then_co [simp]: "fst (persist_then c a sigs co d) = co"
  by (simp add: persist_then_def split: prod.splits sum.splits)

lemma persist_then_cases:
  assumes "persist_then c a sigs co d = (co', d', sigs', r)"
  shows "co' = co" and "r = Inr a \<and> sigs' = sigs \<or> (\<exists>e. r = Inl (MarkerWrite e) \<and> sigs' = [])"
    and "persist c co d = (d', case r of Inl e \<Rightarrow> Inl e | Inr x \<Rightarrow> Inr ())"
  using assms
  by (auto simp: persist_then_def persist_def split: prod.splits sum.splits)

text \<open>The in-memory outcome of an action does not depend on the disk.\<close>

definition co_after ::
  "byte_hash \<Rightarrow> recovery_action \<Rightarrow> zoned \<Rightarrow> instant \<Rightarrow> resume_token option \<Rightarrow> coordinator \<Rightarrow> coordinator" where
  "co_after sip a w m tok co =
     (case a of
        Sleep n \<Rightarrow> co
      | DeferToColdRestart \<Rightarrow> co
      | EscalateToBackoff \<Rightarrow> enter_phase BackoffEvery15Min w m co
      | ResumeAutomatically \<Rightarrow>
          (enter_phase Aggressive w m co)
            \<lparr>co_giveup_alert_sent_at := None, co_resumed_by_token_hash := None,
             co_blocked_awaiting_resume := False\<rparr>
      | ResumeToAggressive \<Rightarrow>
          (case tok of
             None \<Rightarrow> co
           | Some t \<Rightarrow>
               if co_resumed_by_token_hash co = Some (hash_token sip t) then co
               else (enter_phase Aggressive w m co)
                      \<lparr>co_giveup_alert_sent_at := None, co_resumed_by_token_hash := Some (hash_token sip t),
                       co_blocked_awaiting_resume := False\<rparr>)
      | _ \<Rightarrow>
          if co_phase co = GivenUp \<and> co_giveup_alert_sent_at co \<noteq> None then co
          else (enter_phase GivenUp w m co)\<lparr>co_giveup_alert_sent_at := Some (z_second_of_epoch w)\<rparr>)"

lemma apply_action_fst: "fst (apply_action c sip a w m tok co d) = co_after sip a w m tok co"
  by (cases a) (auto simp: co_after_def apply_giveup_def apply_resume_def Let_def split: option.split)

lemma apply_actionD:
  "apply_action c sip a w m tok co d = (co', d', sigs, r) \<Longrightarrow> co' = co_after sip a w m tok co"
  by (metis apply_action_fst fst_conv)

lemma enter_phase_simps [simp]:
  "co_phase (enter_phase p w m co) = p"
  "co_phase_entered_at_wall (enter_phase p w m co) = w"
  "co_phase_entered_at_mono (enter_phase p w m co) = m"
  "co_last_full_success_at (enter_phase p w m co) = None"
  "co_last_full_success_mono (enter_phase p w m co) = None"
  "co_giveup_alert_sent_at (enter_phase p w m co) = co_giveup_alert_sent_at co"
  "co_resumed_by_token_hash (enter_phase p w m co) = co_resumed_by_token_hash co"
  "co_blocked_awaiting_resume (enter_phase p w m co) = co_blocked_awaiting_resume co"
  "co_config (enter_phase p w m co) = co_config co"
  "co_mode (enter_phase p w m co) = co_mode co"
  "co_settings_dir (enter_phase p w m co) = co_settings_dir co"
  "co_giveup_signal_tx (enter_phase p w m co) = co_giveup_signal_tx co"
  by (simp_all add: enter_phase_def)

lemma co_after_inv:
  "co_inv co \<Longrightarrow> (a = EscalateToBackoff \<Longrightarrow> co_phase co = Aggressive) \<Longrightarrow> co_inv (co_after sip a w m tok co)"
  by (cases a) (auto simp: co_after_def co_inv_def split: option.split)

lemma co_after_frame [simp]:
  "co_config (co_after sip a w m tok co) = co_config co"
  "co_mode (co_after sip a w m tok co) = co_mode co"
  "co_settings_dir (co_after sip a w m tok co) = co_settings_dir co"
  "co_giveup_signal_tx (co_after sip a w m tok co) = co_giveup_signal_tx co"
  by (simp_all add: co_after_def split: recovery_action.split option.split)

lemma apply_action_co_inv:
  assumes "co_inv co" and "apply_action c sip a w m tok co d = (co', d', sigs, r)"
    and "a = EscalateToBackoff \<Longrightarrow> co_phase co = Aggressive"
  shows "co_inv co'"
  using apply_actionD [OF assms(2)] co_after_inv [OF assms(1,3)] by simp

lemma record_success_inv:
  "co_inv co \<Longrightarrow> record_success c w m co d = (co', d', r) \<Longrightarrow> co_inv co'"
  by (auto simp: record_success_def co_inv_def enter_phase_def Let_def
      split: recovery_phase.splits prod.splits)

lemma compute_escalate: "compute co w m cold tok streak = Inr EscalateToBackoff \<Longrightarrow> co_phase co = Aggressive"
  by (auto simp: compute_def dest: escalate_requires)

lemma tick_inv:
  "co_inv co \<Longrightarrow> coordinator_tick c sip w m cold streak tok co d = Inr (co', d', sigs, r) \<Longrightarrow> co_inv co'"
  by (auto simp: coordinator_tick_def split: sum.splits
      intro: apply_action_co_inv dest: compute_escalate)

lemma co_event_step_inv: "co_inv co \<Longrightarrow> co_event_step c sip e (co, d) = Inr (co', d') \<Longrightarrow> co_inv co'"
  by (cases e) (auto split: sum.splits prod.splits dest: tick_inv record_success_inv)

lemma co_exec_inv: "co_inv co \<Longrightarrow> co_exec c sip es (co, d) = Inr (co', d') \<Longrightarrow> co_inv co'"
proof (induction es arbitrary: co d)
  case Nil
  then show ?case by simp
next
  case (Cons e es)
  then obtain co1 d1 where "co_event_step c sip e (co, d) = Inr (co1, d1)"
    and "co_exec c sip es (co1, d1) = Inr (co', d')"
    by (auto simp: and_then_Inr_iff)
  with Cons show ?case by (blast dest: co_event_step_inv)
qed

text \<open>
  C3. From a boot on a well-formed marker (or on none), every sequence of recovery ticks
  and dwell successes, with any clocks, tokens, write errors and crashes, keeps the
  coordinator's invariant: success anchors exist only in Aggressive, an alert stamp and a
  boot block exist only in GivenUp; hence every state it can persist is a well-formed
  version-1 marker whose redundant phase field agrees with its phase.
\<close>

theorem coordinator_invariant:
  assumes "\<And>st. snd (boot c env dir mode cfg m w d) = Loaded st \<Longrightarrow> persisted_wf st"
    and "co_exec c sip es (fst (boot c env dir mode cfg m w d), d) = Inr (co', d')"
  shows "co_inv co' \<and> persisted_wf (persisted_of co')"
  using co_exec_inv [OF boot_inv [OF assms(1)] assms(2)] persisted_of_wf by blast

theorem coordinator_invariant_witness:
  "\<exists>co' d'. co_exec codec_example sip_example [EvTick (later 3700) 3700000 False 0 None]
       (fst (boot codec_example None ''/jts'' ''live'' default_recovery_config 0 sunday_nine empty_disk), empty_disk)
       = Inr (co', d') \<and> co_inv co' \<and> persisted_wf (persisted_of co')"
proof -
  let ?b = "boot codec_example None ''/jts'' ''live'' default_recovery_config 0 sunday_nine empty_disk"
  have ld: "load codec_example ''/jts'' ''live'' (read_force_reset_env None) empty_disk
              = Defaulted (MarkerMissing (marker_path ''/jts'' ''live''))" by code_simp
  have run: "co_exec codec_example sip_example [EvTick (later 3700) 3700000 False 0 None] (fst ?b, empty_disk)
          \<noteq> Inl p" for p
    by (simp add: tick_defs boot_def ld example_defs split: prod.splits)
  then obtain co' d' where
      "co_exec codec_example sip_example [EvTick (later 3700) 3700000 False 0 None] (fst ?b, empty_disk) = Inr (co', d')"
    by (metis sum.exhaust_sel prod.exhaust sum.exhaust)
  moreover have "\<And>st. snd ?b = Loaded st \<Longrightarrow> persisted_wf st" by (simp add: boot_def ld)
  ultimately show ?thesis using coordinator_invariant by blast
qed

section \<open>Phase changes\<close>

lemma tickD:
  assumes "coordinator_tick c sip w m cold streak tok co d = Inr (co', d', sigs, r)"
  obtains a where "compute co w m cold tok streak = Inr a"
    and "apply_action c sip a w m tok co d = (co', d', sigs, r)"
    and "co' = co_after sip a w m tok co"
  using assms by (auto simp: coordinator_tick_def split: sum.splits dest: apply_actionD)

text \<open>
  C4. GivenUp is an operator halt: a tick leaves it only in autonomous mode or with a
  pending resume token whose hash differs from the one consumed last; it then goes to
  Aggressive, with the alert stamp and the boot block cleared and the token recorded as
  consumed.
\<close>

theorem halt_left_only_by_resume:
  assumes "coordinator_tick c sip w m cold streak tok co d = Inr (co', d', sigs, r)"
    and "co_phase co = GivenUp" and "co_phase co' \<noteq> GivenUp"
  shows "co_phase co' = Aggressive \<and> co_giveup_alert_sent_at co' = None \<and>
         \<not> co_blocked_awaiting_resume co' \<and>
         (if rc_autonomous (co_config co) then co_resumed_by_token_hash co' = None
          else \<exists>t. tok = Some t \<and> co_resumed_by_token_hash co \<noteq> Some (hash_token sip t) \<and>
                   co_resumed_by_token_hash co' = Some (hash_token sip t))"
proof -
  from assms(1) obtain a where a: "compute co w m cold tok streak = Inr a"
    and co': "co' = co_after sip a w m tok co" by (rule tickD)
  from a assms(2) have "a \<in> {Sleep 0, Sleep 3600, DeferToColdRestart, ResumeToAggressive, ResumeAutomatically}"
    by (auto simp: compute_def dest: givenup_exits [rotated])
  moreover have "a = ResumeToAggressive \<Longrightarrow> \<not> rc_autonomous (co_config co)"
    using a by (auto simp: compute_def dest: resume_requires_token)
  moreover have "a = ResumeAutomatically \<Longrightarrow> rc_autonomous (co_config co)"
    using a by (auto simp: compute_def dest: auto_resume_requires)
  ultimately show ?thesis
    using co' assms(2,3) by (auto simp: co_after_def split: option.splits if_splits)
qed

theorem halt_left_only_by_resume_witness:
  "\<exists>co' d' sigs r.
     coordinator_tick codec_example sip_example (later 60) 60000 False 0 (Some token_example)
       (co_example GivenUp) empty_disk = Inr (co', d', sigs, r) \<and>
     co_phase co' = Aggressive \<and> co_resumed_by_token_hash co' = Some (hash_token sip_example token_example)"
proof -
  let ?t = "coordinator_tick codec_example sip_example (later 60) 60000 False 0 (Some token_example)
              (co_example GivenUp) empty_disk"
  have ph: "co_phase (co_example GivenUp) = GivenUp" by (simp add: co_example_def)
  obtain co' d' sigs r where t: "?t = Inr (co', d', sigs, r)" and "co_phase co' \<noteq> GivenUp"
    by (cases ?t) (auto simp: tick_defs example_defs apply_resume_def dest: persist_then_cases(1))
  from halt_left_only_by_resume [OF t ph this(2)] t show ?thesis
    by (auto simp: co_example_def default_recovery_config_def)
qed



lemma elapsed_both_clocks:
  assumes "n \<le> co_phase_elapsed_secs co w m" and "0 < n"
  shows "int n \<le> z_second_of_epoch w - z_second_of_epoch (co_phase_entered_at_wall co)"
    and "1000 * int n \<le> m - co_phase_entered_at_mono co"
proof -
  let ?wd = "z_second_of_epoch w - z_second_of_epoch (co_phase_entered_at_wall co)"
  have "n \<le> nat (max 0 ?wd)"
    using assms by (simp add: co_phase_elapsed_secs_def Let_def)
  with assms(2) show "int n \<le> ?wd" by linarith
  have "n \<le> (case checked_duration_since m (co_phase_entered_at_mono co) of None \<Rightarrow> 0 | Some ms \<Rightarrow> ms div 1000)"
    using assms by (simp add: co_phase_elapsed_secs_def Let_def)
  with assms(2) have "\<not> m < co_phase_entered_at_mono co" and "n \<le> nat (m - co_phase_entered_at_mono co) div 1000"
    by (auto simp: checked_duration_since_def split: if_splits)
  then show "1000 * int n \<le> m - co_phase_entered_at_mono co" by linarith
qed

text \<open>
  C25. The timer is conservative: a tick that escalates to back-off, or that gives up, with
  the failure-streak tripwire quiet, does so only when both the wall clock and the
  monotonic clock show that the phase limit has passed since the phase was entered (and,
  for escalation, no success landed in the phase). A wall clock set back or a monotonic
  clock that restarted can only delay it.
\<close>

theorem escalates_only_after_both_clocks:
  assumes "coordinator_tick c sip w m cold streak tok co d = Inr (co', d', sigs, Inr r)"
    and "streak < rc_fingerprint_streak_forcing_hitl (co_config co)"
    and "r = EscalatedToBackoff \<and> n = rc_aggressive_phase_max_secs (co_config co) \<or>
         r = FiredGiveUpAlert \<and> n = rc_backoff_phase_max_secs (co_config co)"
    and "0 < n"
  shows "int n \<le> z_second_of_epoch w - z_second_of_epoch (co_phase_entered_at_wall co) \<and>
         1000 * int n \<le> m - co_phase_entered_at_mono co \<and>
         (r = EscalatedToBackoff \<longrightarrow> co_last_full_success_at co = None)"
proof -
  from assms(1) obtain a where a: "compute co w m cold tok streak = Inr a"
    and ap: "apply_action c sip a w m tok co d = (co', d', sigs, Inr r)" by (rule tickD)
  have "(r = EscalatedToBackoff \<longrightarrow> a = EscalateToBackoff) \<and>
        (r = FiredGiveUpAlert \<longrightarrow> a = FireGiveUpAlert \<or> a = ForceHitlEarly)"
    using ap by (cases a)
      (auto simp: apply_giveup_def apply_resume_def Let_def dest!: persist_then_cases(2)
        split: if_splits option.splits)
  moreover have "a \<noteq> ForceHitlEarly"
    using a assms(2) by (auto simp: compute_def dest: hitl_requires)
  moreover have "a = EscalateToBackoff \<Longrightarrow>
      rc_aggressive_phase_max_secs (co_config co) \<le> co_phase_elapsed_secs co w m \<and> co_last_full_success_at co = None"
    using a assms(2)
    by (auto simp: compute_def decision_defs split: if_splits recovery_phase.splits)
  moreover have "a = FireGiveUpAlert \<Longrightarrow> rc_backoff_phase_max_secs (co_config co) \<le> co_phase_elapsed_secs co w m"
    using a by (auto simp: compute_def dest: giveup_requires)
  ultimately have "n \<le> co_phase_elapsed_secs co w m" "r = EscalatedToBackoff \<longrightarrow> co_last_full_success_at co = None"
    using assms(3) by auto
  then show ?thesis using elapsed_both_clocks assms(4) by blast
qed

theorem escalates_only_after_both_clocks_witness:
  "\<exists>co' d' sigs.
     coordinator_tick codec_example sip_example (later 3700) 3650000 False 0 None (co_example Aggressive) empty_disk
       = Inr (co', d', sigs, Inr EscalatedToBackoff) \<and> 1000 * 3600 \<le> (3650000 - 0 :: int)"
proof -
  obtain co' d' sigs where
    t: "coordinator_tick codec_example sip_example (later 3700) 3650000 False 0 None (co_example Aggressive) empty_disk
          = Inr (co', d', sigs, Inr EscalatedToBackoff)"
    using persist_then_example
      [of EscalatedToBackoff "[]" "enter_phase BackoffEvery15Min (later 3700) 3650000 (co_example Aggressive)"]
    by (auto simp: tick_defs example_defs)
  have s: "0 < rc_fingerprint_streak_forcing_hitl (co_config (co_example Aggressive))"
    and n: "(0::nat) < 3600" by (simp_all add: co_example_def default_recovery_config_def)
  from escalates_only_after_both_clocks [OF t s _ n] t show ?thesis
    by (simp add: co_example_def default_recovery_config_def)
qed

section \<open>Across a restart\<close>

lemma boot_loaded:
  assumes "load c dir mode (read_force_reset_env env) d = Loaded st"
  shows "snd (boot c env dir mode cfg m w d) = Loaded st"
    and "co_phase (fst (boot c env dir mode cfg m w d)) = ps_phase st"
    and "co_phase_entered_at_wall (fst (boot c env dir mode cfg m w d)) = ps_phase_entered_at st"
    and "co_last_full_success_at (fst (boot c env dir mode cfg m w d)) = ps_last_full_success_at st"
    and "co_giveup_alert_sent_at (fst (boot c env dir mode cfg m w d)) = ps_giveup_alert_sent_at st"
    and "co_resumed_by_token_hash (fst (boot c env dir mode cfg m w d)) = ps_resumed_by_token_hash st"
    and "co_blocked_awaiting_resume (fst (boot c env dir mode cfg m w d)) = False"
  using assms by (simp_all add: boot_def Let_def)

lemma boot_mono_anchor:
  assumes "load c dir mode (read_force_reset_env env) d = Loaded st"
    and "delta = max 0 (z_second_of_epoch w - z_second_of_epoch (ps_phase_entered_at st))"
    and "- (1000 * 2 ^ 63) \<le> m - 1000 * delta"
  shows "co_phase_entered_at_mono (fst (boot c env dir mode cfg m w d)) = m - 1000 * delta"
  using assms by (simp add: boot_def Let_def instant_checked_sub_secs_def)

text \<open>
  The phase timer survives restarts: after a boot that loaded a marker, the elapsed
  time reported at any later instant is the smaller of the wall-clock age of the phase and
  the age it had (by the wall clock) at boot plus the monotonic time since boot. A
  restart therefore never resets the timer to zero, and a wall clock that jumps forward
  after boot is not believed.
\<close>

theorem boot_keeps_phase_age:
  assumes "load c dir mode (read_force_reset_env env) d = Loaded st"
    and "z_second_of_epoch (ps_phase_entered_at st) \<le> z_second_of_epoch w0"
    and "- (1000 * 2 ^ 63) \<le> m0 - 1000 * (z_second_of_epoch w0 - z_second_of_epoch (ps_phase_entered_at st))"
    and "m0 \<le> m1"
  shows "int (co_phase_elapsed_secs (fst (boot c env dir mode cfg m0 w0 d)) w1 m1) =
           min (max 0 (z_second_of_epoch w1 - z_second_of_epoch (ps_phase_entered_at st)))
               (z_second_of_epoch w0 - z_second_of_epoch (ps_phase_entered_at st) + (m1 - m0) div 1000)"
proof -
  let ?age = "z_second_of_epoch w0 - z_second_of_epoch (ps_phase_entered_at st)"
  let ?co = "fst (boot c env dir mode cfg m0 w0 d)"
  have anchor: "co_phase_entered_at_mono ?co = m0 - 1000 * ?age"
    by (rule boot_mono_anchor [OF assms(1)]) (use assms(2,3) in auto)
  have "(m1 - (m0 - 1000 * ?age)) div 1000 = ?age + (m1 - m0) div 1000"
    by (simp add: algebra_simps)
  moreover have "0 \<le> 1000 * ?age" using assms(2) by simp
  then have "\<not> m1 < m0 - 1000 * ?age" using assms(4) by linarith
  ultimately have "int (case checked_duration_since m1 (co_phase_entered_at_mono ?co) of
                          None \<Rightarrow> 0 | Some ms \<Rightarrow> ms div 1000) = ?age + (m1 - m0) div 1000"
    by (simp add: anchor checked_duration_since_def zdiv_int)
  then show ?thesis
    by (simp add: co_phase_elapsed_secs_def Let_def boot_loaded(3) [OF assms(1)] of_nat_min)
qed

theorem boot_keeps_phase_age_witness:
  "co_phase_elapsed_secs
     (fst (boot codec_example None ''/jts'' ''live'' default_recovery_config 5000 (later 1000)
        (fst (save codec_example ''/jts'' ''live'' (state_example BackoffEvery15Min) empty_disk))))
     (later 1020) 25000 = 1020"
proof -
  let ?d = "fst (save codec_example ''/jts'' ''live'' (state_example BackoffEvery15Min) empty_disk)"
  have "load codec_example ''/jts'' ''live'' (read_force_reset_env None) ?d
          = Loaded (state_example BackoffEvery15Min)" by code_simp
  from boot_keeps_phase_age [OF this, of "later 1000" 5000 25000 default_recovery_config "later 1020"]
  show ?thesis by (simp add: state_example_def later_def)
qed

lemma persist_ok_load:
  assumes "persist c co d = (d', Inr ())" and "codec_roundtrip c (persisted_of co)"
  shows "load c (co_settings_dir co) (co_mode co) False d' = Loaded (persisted_of co)"
proof -
  obtain raw where raw: "to_json c (persisted_of co) = Some raw" "from_json c raw = Some (persisted_of co)"
    using assms(2) by (auto simp: codec_roundtrip_def)
  let ?s = "save c (co_settings_dir co) (co_mode co) (persisted_of co) d"
  have sv: "snd ?s = Inr ()" "fst ?s = d'"
    using assms(1) by (auto simp: persist_def split: prod.splits sum.splits)
  show ?thesis
  proof (cases "co_phase co = GivenUp")
    case True
    then have "ps_phase (persisted_of co) = GivenUp" by simp
    from save_givenup_reads [OF this raw(1), of "co_settings_dir co" "co_mode co" d] sv
    have "read_to_string (marker_path (co_settings_dir co) (co_mode co)) d' = Inr raw" by auto
    then show ?thesis by (rule load_given_up) (use raw True in auto)
  next
    case False
    then have "ps_phase (persisted_of co) \<noteq> GivenUp" by simp
    from save_live_reads [OF this raw(1), of "co_settings_dir co" "co_mode co" d] sv
    have "read_to_string (marker_path (co_settings_dir co) (co_mode co)) d' = Inr raw"
      and "\<not> sidecar_says_given_up (co_settings_dir co) (co_mode co) d'"
      by (auto simp: sidecar_says_given_up_def)
    then show ?thesis using raw by (intro load_without_sidecar) auto
  qed
qed

lemma apply_reports_change_persisted:
  assumes "apply_action c sip a w m tok co d = (co', d', sigs, Inr r)"
    and "r \<in> {EscalatedToBackoff, FiredGiveUpAlert, ResumedToAggressive}"
  shows "persist c co' d = (d', Inr ())"
proof (cases a)
qed (use assms in \<open>auto simp: apply_giveup_def apply_resume_def Let_def persist_then_def
      split: if_splits option.splits prod.splits sum.splits\<close>)

text \<open>
  What the coordinator reports as done is durable: after a tick that reports a phase
  change (escalated, gave up or resumed), a later boot without the force-reset override
  loads the marker and comes back in the same phase with the same entry time, success
  anchor, alert stamp and consumed-token hash, and is not blocked.
\<close>

theorem reported_change_survives_restart:
  assumes "coordinator_tick c sip w m cold streak tok co d = Inr (co', d', sigs, Inr r)"
    and "r \<in> {EscalatedToBackoff, FiredGiveUpAlert, ResumedToAggressive}"
    and "codec_roundtrip c (persisted_of co')"
    and "\<not> read_force_reset_env env"
  shows "let b = fst (boot c env (co_settings_dir co') (co_mode co') cfg m' w' d') in
         co_phase b = co_phase co' \<and> co_phase_entered_at_wall b = co_phase_entered_at_wall co' \<and>
         co_last_full_success_at b = co_last_full_success_at co' \<and>
         co_giveup_alert_sent_at b = co_giveup_alert_sent_at co' \<and>
         co_resumed_by_token_hash b = co_resumed_by_token_hash co' \<and>
         \<not> co_blocked_awaiting_resume b"
proof -
  from assms(1) obtain a where "apply_action c sip a w m tok co d = (co', d', sigs, Inr r)"
    by (rule tickD)
  then have "persist c co' d = (d', Inr ())" using assms(2) by (rule apply_reports_change_persisted)
  then have "load c (co_settings_dir co') (co_mode co') (read_force_reset_env env) d' = Loaded (persisted_of co')"
    using persist_ok_load assms(3,4) by simp
  from boot_loaded [OF this] show ?thesis by (simp add: Let_def persisted_of_def)
qed

definition co_given_up_example :: coordinator where
  "co_given_up_example = (enter_phase GivenUp sunday_nine 1000 (co_example BackoffEvery15Min))
     \<lparr>co_giveup_alert_sent_at := Some (z_second_of_epoch sunday_nine)\<rparr>"

definition codec_restart :: codec where
  "codec_restart = \<lparr>from_json = (\<lambda>raw. if raw = ''G'' then Some (persisted_of co_given_up_example) else None),
     to_json = (\<lambda>st. Some ''G''), peek_last_known_phase = (\<lambda>raw. None)\<rparr>"

theorem reported_change_survives_restart_witness:
  "\<exists>d'. coordinator_tick codec_restart sip_example sunday_nine 1000 False 8 None
       (co_example BackoffEvery15Min) empty_disk
         = Inr (co_given_up_example, d', [RecoveryGaveUp ''live'' sunday_nine], Inr FiredGiveUpAlert) \<and>
     co_phase (fst (boot codec_restart None ''/jts'' ''live'' default_recovery_config 0 sunday_nine d')) = GivenUp"
proof -
  have rt: "codec_roundtrip codec_restart (persisted_of co_given_up_example)"
    by (simp add: codec_roundtrip_def codec_restart_def)
  obtain d' where "persist codec_restart co_given_up_example empty_disk = (d', Inr ())"
    by (rule persist_healthy [of empty_disk codec_restart co_given_up_example "''G''"])
       (simp_all add: empty_disk_def healthy_disk_def codec_restart_def)
  then have t: "coordinator_tick codec_restart sip_example sunday_nine 1000 False 8 None
       (co_example BackoffEvery15Min) empty_disk
         = Inr (co_given_up_example, d', [RecoveryGaveUp ''live'' sunday_nine], Inr FiredGiveUpAlert)"
    by (simp add: tick_defs example_defs apply_giveup_def persist_then_def co_given_up_example_def)
  have "co_phase (fst (boot codec_restart None ''/jts'' ''live'' default_recovery_config 0 sunday_nine d')) = GivenUp"
    using reported_change_survives_restart [OF t _ rt, of None default_recovery_config 0 sunday_nine]
    by (simp add: Let_def read_force_reset_env_def co_given_up_example_def co_example_def enter_phase_def)
  then show ?thesis using t by blast
qed

text \<open>
  Exactly one give-up notification per halt: a tick sends a signal only when it takes
  the coordinator from a live phase into GivenUp, reports the alert as fired, and then
  sends exactly one, carrying the mode and the wall-clock instant that is also recorded as
  the phase entry.
\<close>

theorem giveup_signal_once_per_halt:
  assumes "coordinator_tick c sip w m cold streak tok co d = Inr (co', d', sigs, r)" and "sigs \<noteq> []"
  shows "sigs = [RecoveryGaveUp (co_mode co) (co_phase_entered_at_wall co')] \<and> r = Inr FiredGiveUpAlert \<and>
         co_giveup_signal_tx co \<and> co_phase co \<noteq> GivenUp \<and> co_phase co' = GivenUp \<and>
         co_giveup_alert_sent_at co' = Some (z_second_of_epoch (co_phase_entered_at_wall co'))"
proof -
  from assms(1) obtain a where a: "compute co w m cold tok streak = Inr a"
    and ap: "apply_action c sip a w m tok co d = (co', d', sigs, r)"
    and co': "co' = co_after sip a w m tok co" by (rule tickD)
  have act: "a \<in> {FireGiveUpAlert, ForceHitlEarly}"
    using ap assms(2) by (cases a)
      (auto simp: apply_resume_def Let_def dest!: persist_then_cases(2) split: if_splits option.splits)
  then have live: "co_phase co \<noteq> GivenUp"
    using a by (auto simp: compute_def dest: giveup_requires hitl_requires)
  have "apply_giveup c w m co d = (co', d', sigs, r)" using ap act by auto
  with live assms(2) have "sigs = [RecoveryGaveUp (co_mode co) w]" "r = Inr FiredGiveUpAlert" "co_giveup_signal_tx co"
    by (auto simp: apply_giveup_def dest!: persist_then_cases(2) split: if_splits)
  with live act co' show ?thesis by (auto simp: co_after_def)
qed

theorem giveup_signal_once_per_halt_witness:
  "\<exists>co' d'. coordinator_tick codec_example sip_example (later 10800) 10800000 False 0 None
       (co_example BackoffEvery15Min) empty_disk
     = Inr (co', d', [RecoveryGaveUp ''live'' (later 10800)], Inr FiredGiveUpAlert) \<and> co_phase co' = GivenUp"
proof -
  obtain co' d' where t: "coordinator_tick codec_example sip_example (later 10800) 10800000 False 0 None
       (co_example BackoffEvery15Min) empty_disk
     = Inr (co', d', [RecoveryGaveUp ''live'' (later 10800)], Inr FiredGiveUpAlert)"
    using persist_then_example
      [of FiredGiveUpAlert "[RecoveryGaveUp ''live'' (later 10800)]"
        "(enter_phase GivenUp (later 10800) 10800000 (co_example BackoffEvery15Min))
           \<lparr>co_giveup_alert_sent_at := Some (z_second_of_epoch (later 10800))\<rparr>"]
    by (auto simp: tick_defs example_defs apply_giveup_def)
  from giveup_signal_once_per_halt [OF t] t show ?thesis by simp
qed

section \<open>After a success\<close>

fun streak_below :: "nat \<Rightarrow> co_event \<Rightarrow> bool" where
  "streak_below k (EvTick w m cold streak tok) = (streak < k)"
| "streak_below k (EvSuccess w m) = True"

lemma success_step_latched:
  assumes "co_phase co = Aggressive" "co_last_full_success_at co \<noteq> None"
    and "streak_below (rc_fingerprint_streak_forcing_hitl (co_config co)) e"
  shows "\<exists>co' d'. co_event_step c sip e (co, d) = Inr (co', d') \<and> co_phase co' = Aggressive
           \<and> co_last_full_success_at co' \<noteq> None \<and> co_config co' = co_config co"
proof (cases e)
  case (EvTick w m cold streak tok)
  with assms show ?thesis by (auto simp: tick_defs)
next
  case (EvSuccess w m)
  with assms show ?thesis by (auto simp: record_success_def Let_def split: prod.splits)
qed

text \<open>
  Once a connection has dwelt successfully in the Aggressive phase, the phase timer is
  switched off for good: whatever time passes, and whatever ticks and further successes
  follow, the coordinator stays in Aggressive (as long as the failure streak stays below
  its threshold, and the main loop always passes zero), so no later outage escalates to
  the back-off phase or to the give-up alert. A restart reloads the success and the latch
  with it.
\<close>

theorem success_latches_aggressive:
  assumes "co_phase co = Aggressive" "co_last_full_success_at co \<noteq> None"
    and "\<forall>e \<in> set es. streak_below (rc_fingerprint_streak_forcing_hitl (co_config co)) e"
  shows "\<exists>co' d'. co_exec c sip es (co, d) = Inr (co', d') \<and> co_phase co' = Aggressive"
  using assms
proof (induction es arbitrary: co d)
  case Nil
  then show ?case by simp
next
  case (Cons e es)
  then have "streak_below (rc_fingerprint_streak_forcing_hitl (co_config co)) e" by simp
  with Cons.prems(1,2) obtain co1 d1 where s: "co_event_step c sip e (co, d) = Inr (co1, d1)"
    and i: "co_phase co1 = Aggressive" "co_last_full_success_at co1 \<noteq> None" "co_config co1 = co_config co"
    using success_step_latched by blast
  from i Cons.prems(3) show ?case using Cons.IH [of co1 d1] s by simp
qed

theorem success_latches_aggressive_witness:
  "\<exists>co' d'. co_exec codec_example sip_example
       [EvTick (later 1000000) 1000000000 False 0 None, EvTick (later 2000000) 2000000000 False 0 None]
       ((co_example Aggressive)\<lparr>co_last_full_success_at := Some sunday_nine\<rparr>, empty_disk)
     = Inr (co', d') \<and> co_phase co' = Aggressive"
  by (rule success_latches_aggressive) (simp_all add: example_defs)

end
