(* ===== verification/Cold_Restart.thy ===== *)
theory Cold_Restart
  imports Ibctl_Files "HOL-Library.Product_Lexorder"
begin

text \<open>
  The weekly cold-restart scheduler (\<open>cold_restart.rs\<close>) and the marker writer of
  \<open>state_machine/markers.rs\<close>: configuration parsing, the pure fire/skip/sleep decision,
  the two marker files and one iteration of the scheduler loop, with the disk and the
  wall clock free to change during the warning window. The lemmas characterise the
  decision, and show that a fire is recorded before it is sent, that no calendar day
  fires twice, that a due day does fire, and that an authentication during the warning
  window cancels the fire.
\<close>

section \<open>Types\<close>

record scheduler_config =
  sc_target_dow :: nat
  sc_target_hour :: nat
  sc_target_minute :: nat
  sc_boot_at :: zoned

datatype skip_reason = FreshAuthToday zoned | DormantSite

record marker_state =
  ms_fired_today :: bool
  ms_equivalent_marker :: "zoned option"

datatype cold_action = ColdSleep | ColdSkip skip_reason | ColdFireEligible

datatype cold_restart_signal = ColdFire | ColdSkipped skip_reason

text \<open>Equality of actions compares the kind of a skip, not the instant it carries.\<close>

fun cold_action_eq :: "cold_action \<Rightarrow> cold_action \<Rightarrow> bool" where
  "cold_action_eq ColdSleep ColdSleep = True"
| "cold_action_eq ColdFireEligible ColdFireEligible = True"
| "cold_action_eq (ColdSkip (FreshAuthToday a)) (ColdSkip (FreshAuthToday b)) = True"
| "cold_action_eq (ColdSkip DormantSite) (ColdSkip DormantSite) = True"
| "cold_action_eq _ _ = False"

section \<open>The pure decision\<close>

definition started_past_target_on_startup_day :: "zoned \<Rightarrow> zoned \<Rightarrow> nat \<Rightarrow> nat \<Rightarrow> nat \<Rightarrow> bool" where
  "started_past_target_on_startup_day boot_at now target_dow target_hour target_minute =
     (if z_year boot_at \<noteq> z_year now \<or> z_day_of_year boot_at \<noteq> z_day_of_year now then False
      else if z_weekday boot_at \<noteq> target_dow then False
      else z_hour boot_at > target_hour
           \<or> (z_hour boot_at = target_hour \<and> z_minute boot_at > target_minute))"

text \<open>\<open>x as i8\<close> and \<open>jiff::civil::Time::new\<close>, which rejects values off the clock.\<close>

definition as_i8 :: "nat \<Rightarrow> int" where
  "as_i8 n = (let b = n mod 256 in if b < 128 then int b else int b - 256)"

definition time_new :: "int \<Rightarrow> int \<Rightarrow> (nat \<times> nat) option" where
  "time_new h m = (if 0 \<le> h \<and> h \<le> 23 \<and> 0 \<le> m \<and> m \<le> 59 then Some (nat h, nat m) else None)"

definition time_before :: "zoned \<Rightarrow> nat \<times> nat \<Rightarrow> bool" where
  "time_before z t =
     (z_hour z < fst t \<or> (z_hour z = fst t \<and> z_minute z < snd t))"

definition should_skip_for_marker :: "zoned \<Rightarrow> zoned \<Rightarrow> nat \<Rightarrow> nat \<Rightarrow> bool" where
  "should_skip_for_marker marker now target_hour target_minute =
     (if (z_year marker, z_month marker, z_day marker) \<noteq> (z_year now, z_month now, z_day now) then False
      else if z_hour marker < 1 then False
      else (case time_new (as_i8 target_hour) (as_i8 target_minute) of
              None \<Rightarrow> False
            | Some t \<Rightarrow> time_before marker t))"

definition past_target :: "zoned \<Rightarrow> scheduler_config \<Rightarrow> bool" where
  "past_target now cfg \<longleftrightarrow>
     z_hour now > sc_target_hour cfg
     \<or> (z_hour now = sc_target_hour cfg \<and> z_minute now \<ge> sc_target_minute cfg)"

definition cold_compute_next_action :: "zoned \<Rightarrow> scheduler_config \<Rightarrow> marker_state \<Rightarrow> cold_action" where
  "cold_compute_next_action now cfg markers =
     (if z_weekday now \<noteq> sc_target_dow cfg then ColdSleep
      else if ms_fired_today markers then ColdSleep
      else if started_past_target_on_startup_day (sc_boot_at cfg) now
                (sc_target_dow cfg) (sc_target_hour cfg) (sc_target_minute cfg) then ColdSleep
      else if \<not> past_target now cfg then ColdSleep
      else (case ms_equivalent_marker markers of
              Some marker \<Rightarrow>
                if should_skip_for_marker marker now (sc_target_hour cfg) (sc_target_minute cfg)
                then ColdSkip (FreshAuthToday marker) else ColdFireEligible
            | None \<Rightarrow> ColdFireEligible))"

section \<open>Configuration\<close>

definition parse_cold_restart_time :: "string \<Rightarrow> (nat \<times> nat) option" where
  "parse_cold_restart_time time_str =
     (let s = trim time_str in
      if s = [] then None
      else (case split_on CHR '':'' s of
              [a, b] \<Rightarrow>
                (case parse_uint u32_max a of
                   None \<Rightarrow> None
                 | Some hour \<Rightarrow>
                     (case parse_uint u32_max b of
                        None \<Rightarrow> None
                      | Some minute \<Rightarrow> if hour > 23 \<or> minute > 59 then None else Some (hour, minute)))
            | _ \<Rightarrow> None))"

text \<open>The configuration part of \<open>cold_restart_scheduler\<close>: the day is clamped to Saturday.\<close>

definition scheduler_setup :: "string \<Rightarrow> nat \<Rightarrow> zoned \<Rightarrow> scheduler_config option" where
  "scheduler_setup cold_restart_time cold_restart_day boot_now =
     (case parse_cold_restart_time cold_restart_time of
        None \<Rightarrow> None
      | Some (h, mi) \<Rightarrow>
          Some \<lparr>sc_target_dow = min cold_restart_day 6, sc_target_hour = h, sc_target_minute = mi,
                sc_boot_at = boot_now\<rparr>)"

definition fired_marker_path :: "string option \<Rightarrow> path" where
  "fired_marker_path settings_env =
     ((case settings_env of Some s \<Rightarrow> s | None \<Rightarrow> ''/home/ibgateway/Jts''), ''.ibctl-cold-restart-marker'')"

section \<open>Marker files\<close>

text \<open>\<open>jiff\<close>'s \<open>Zoned::to_string\<close> and \<open>Zoned::from_str\<close> are parameters.\<close>

record zoned_text =
  zoned_to_string :: "zoned \<Rightarrow> string"
  zoned_from_str :: "string \<Rightarrow> zoned option"

definition fired_content :: "zoned \<Rightarrow> string" where
  "fired_content now = show_int (z_year now) @ ''-'' @ show_nat (z_day_of_year now)"

definition already_fired :: "path \<Rightarrow> zoned \<Rightarrow> disk \<Rightarrow> bool" where
  "already_fired marker now d =
     (case read_to_string marker d of
        Inl e \<Rightarrow> False
      | Inr contents \<Rightarrow> trim contents = fired_content now)"

definition read_cold_restart_equivalent_marker :: "zoned_text \<Rightarrow> path \<Rightarrow> disk \<Rightarrow> zoned option" where
  "read_cold_restart_equivalent_marker zt p d =
     (case read_to_string p d of
        Inl e \<Rightarrow> None
      | Inr raw \<Rightarrow> zoned_from_str zt (trim raw))"

definition read_marker_state :: "zoned_text \<Rightarrow> path \<Rightarrow> path \<Rightarrow> zoned \<Rightarrow> disk \<Rightarrow> marker_state" where
  "read_marker_state zt marker equiv_p now d =
     \<lparr>ms_fired_today = already_fired marker now d,
      ms_equivalent_marker = read_cold_restart_equivalent_marker zt equiv_p d\<rparr>"

definition write_fired_marker :: "path \<Rightarrow> zoned \<Rightarrow> unit io" where
  "write_fired_marker marker now = atomic_write_best_effort marker (fired_content now)"

definition write_cold_restart_equivalent_marker :: "zoned_text \<Rightarrow> path \<Rightarrow> zoned \<Rightarrow> unit io" where
  "write_cold_restart_equivalent_marker zt p now = atomic_write_best_effort p (zoned_to_string zt now)"

section \<open>One iteration of the scheduler loop\<close>

text \<open>
  After its 30-second sleep the loop samples the clock (\<open>now_pre\<close>) and the markers. When
  it is due it waits another 30 seconds, in which the rest of the system may change the
  disk (\<open>meanwhile\<close>), and samples again (\<open>now_post\<close>). The result is the disk, the signal
  sent, if any, and whether the loop goes on: it ends when the receiver is gone
  (\<open>open\<close> false).
\<close>

definition send_signal :: "bool \<Rightarrow> cold_restart_signal \<Rightarrow> disk \<Rightarrow> disk \<times> cold_restart_signal option \<times> bool" where
  "send_signal chan_open sig d = (if chan_open then (d, Some sig, True) else (d, None, False))"

definition scheduler_tick ::
  "zoned_text \<Rightarrow> path \<Rightarrow> path \<Rightarrow> scheduler_config \<Rightarrow> zoned \<Rightarrow> (disk \<Rightarrow> disk) \<Rightarrow> zoned \<Rightarrow> bool \<Rightarrow> disk
     \<Rightarrow> disk \<times> cold_restart_signal option \<times> bool" where
  "scheduler_tick zt marker equiv_p cfg now_pre meanwhile now_post chan_open d =
     (case cold_compute_next_action now_pre cfg (read_marker_state zt marker equiv_p now_pre d) of
        ColdSleep \<Rightarrow> (d, None, True)
      | ColdSkip reason \<Rightarrow>
          send_signal chan_open (ColdSkipped reason) (fst (write_fired_marker marker now_pre d))
      | ColdFireEligible \<Rightarrow>
          (let d1 = meanwhile d in
           case cold_compute_next_action now_post cfg (read_marker_state zt marker equiv_p now_post d1) of
             ColdSkip reason \<Rightarrow>
               send_signal chan_open (ColdSkipped reason) (fst (write_fired_marker marker now_pre d1))
           | _ \<Rightarrow>
               (case write_fired_marker marker now_pre d1 of
                  (d2, Inr u) \<Rightarrow> send_signal chan_open ColdFire d2
                | (d2, Inl e) \<Rightarrow> (d2, None, True))))"

text \<open>
  The loop over a finite number of iterations. Between two of them the rest of the system
  may change the disk as well (\<open>te_env\<close>). The result lists the signals with the sample
  the iteration started from.
\<close>

record tick_env =
  te_env :: "disk \<Rightarrow> disk"
  te_pre :: zoned
  te_meanwhile :: "disk \<Rightarrow> disk"
  te_post :: zoned
  te_open :: bool

fun scheduler_loop ::
  "zoned_text \<Rightarrow> path \<Rightarrow> path \<Rightarrow> scheduler_config \<Rightarrow> tick_env list \<Rightarrow> disk
     \<Rightarrow> disk \<times> (zoned \<times> cold_restart_signal) list" where
  "scheduler_loop zt marker equiv_p cfg [] d = (d, [])"
| "scheduler_loop zt marker equiv_p cfg (e # es) d =
     (case scheduler_tick zt marker equiv_p cfg (te_pre e) (te_meanwhile e) (te_post e) (te_open e)
             (te_env e d) of
        (d1, sig, go) \<Rightarrow>
          (case (if go then scheduler_loop zt marker equiv_p cfg es d1 else (d1, [])) of
             (d2, sigs) \<Rightarrow>
               (d2, (case sig of None \<Rightarrow> [] | Some s \<Rightarrow> [(te_pre e, s)]) @ sigs)))"

section \<open>The decision, characterised\<close>

definition minute_of_day :: "zoned \<Rightarrow> nat" where
  "minute_of_day z = 60 * z_hour z + z_minute z"

definition target_minute_of_day :: "scheduler_config \<Rightarrow> nat" where
  "target_minute_of_day cfg = 60 * sc_target_hour cfg + sc_target_minute cfg"

definition civil_day :: "zoned \<Rightarrow> int \<times> nat" where
  "civil_day z = (z_year z, z_day_of_year z)"

definition civil_date :: "zoned \<Rightarrow> int \<times> nat \<times> nat" where
  "civil_date z = (z_year z, z_month z, z_day z)"

definition config_wf :: "scheduler_config \<Rightarrow> bool" where
  "config_wf cfg \<longleftrightarrow> sc_target_dow cfg \<le> 6 \<and> sc_target_hour cfg \<le> 23 \<and> sc_target_minute cfg \<le> 59"

definition clock_wf :: "zoned \<Rightarrow> bool" where
  "clock_wf z \<longleftrightarrow> z_hour z \<le> 23 \<and> z_minute z \<le> 59"

lemma minute_order:
  assumes "m \<le> 59" and "m' \<le> 59"
  shows "h < h' \<or> (h = h' \<and> m < m') \<longleftrightarrow> 60 * h + m < 60 * h' + (m' :: nat)"
  using assms by (cases "h = h'") auto

lemma as_i8_small: "n \<le> 127 \<Longrightarrow> as_i8 n = int n"
  by (simp add: as_i8_def Let_def)

lemma past_target_iff:
  "config_wf cfg \<Longrightarrow> clock_wf now \<Longrightarrow>
     past_target now cfg \<longleftrightarrow> target_minute_of_day cfg \<le> minute_of_day now"
  using minute_order [of "z_minute now" "sc_target_minute cfg" "z_hour now" "sc_target_hour cfg"]
  by (auto simp: past_target_def config_wf_def clock_wf_def target_minute_of_day_def minute_of_day_def)

lemma should_skip_iff:
  assumes "config_wf cfg" and "clock_wf mk"
  shows "should_skip_for_marker mk now (sc_target_hour cfg) (sc_target_minute cfg) \<longleftrightarrow>
           civil_date mk = civil_date now \<and> 60 \<le> minute_of_day mk
           \<and> minute_of_day mk < target_minute_of_day cfg"
  using assms minute_order [of "z_minute mk" "sc_target_minute cfg" "z_hour mk" "sc_target_hour cfg"]
  by (auto simp: should_skip_for_marker_def config_wf_def clock_wf_def civil_date_def as_i8_small
      time_new_def time_before_def minute_of_day_def target_minute_of_day_def)

lemma startup_veto_iff:
  assumes "config_wf cfg" and "clock_wf (sc_boot_at cfg)"
  shows "started_past_target_on_startup_day (sc_boot_at cfg) now (sc_target_dow cfg)
            (sc_target_hour cfg) (sc_target_minute cfg) \<longleftrightarrow>
           civil_day (sc_boot_at cfg) = civil_day now \<and> z_weekday (sc_boot_at cfg) = sc_target_dow cfg
           \<and> target_minute_of_day cfg < minute_of_day (sc_boot_at cfg)"
  using assms minute_order [of "sc_target_minute cfg" "z_minute (sc_boot_at cfg)"
      "sc_target_hour cfg" "z_hour (sc_boot_at cfg)"]
  by (auto simp: started_past_target_on_startup_day_def config_wf_def clock_wf_def civil_day_def
      minute_of_day_def target_minute_of_day_def)

lemma compute_eligibleD:
  assumes "cold_compute_next_action now cfg ms = ColdFireEligible"
  shows "z_weekday now = sc_target_dow cfg \<and> \<not> ms_fired_today ms \<and> past_target now cfg"
  using assms by (auto simp: cold_compute_next_action_def split: if_splits)

lemma compute_skipD:
  assumes "cold_compute_next_action now cfg ms = ColdSkip r"
  shows "\<exists>mk. r = FreshAuthToday mk \<and> ms_equivalent_marker ms = Some mk \<and> \<not> ms_fired_today ms
           \<and> should_skip_for_marker mk now (sc_target_hour cfg) (sc_target_minute cfg)"
  using assms by (auto simp: cold_compute_next_action_def split: if_splits option.splits)

section \<open>Marker content\<close>

lemma fired_content_ws_free: "\<forall>c \<in> set (fired_content z). \<not> is_ws c"
  using show_int_ws_free [of "z_year z"] show_nat_ws_free [of "z_day_of_year z"]
  by (auto simp: fired_content_def is_ws_def)

lemma append_sep_inj:
  assumes "a @ x # b = a' @ x # b'" and "x \<notin> set b" and "x \<notin> set b'"
  shows "a = a' \<and> b = b'"
proof -
  have stop: "x \<notin> set bs \<Longrightarrow> takeWhile ((\<noteq>) x) (rev (as @ x # bs)) = rev bs" for as bs
    using takeWhile_append2 [of "rev bs" "(\<noteq>) x" "x # rev as"] by auto
  have "rev b = rev b'"
    using assms(1) stop [OF assms(2), of a] stop [OF assms(3), of a'] by simp
  then have "b = b'" by simp
  with assms(1) show ?thesis by simp
qed

lemma fired_content_inj: "fired_content a = fired_content b \<longleftrightarrow> civil_day a = civil_day b"
proof
  assume "fired_content a = fired_content b"
  then have "show_int (z_year a) @ CHR ''-'' # show_nat (z_day_of_year a)
           = show_int (z_year b) @ CHR ''-'' # show_nat (z_day_of_year b)"
    by (simp add: fired_content_def)
  then have "show_int (z_year a) = show_int (z_year b)
           \<and> show_nat (z_day_of_year a) = show_nat (z_day_of_year b)"
    by (rule append_sep_inj) (simp_all add: show_nat_minus_free)
  then show "civil_day a = civil_day b"
    by (simp add: civil_day_def show_int_inj show_nat_inj)
qed (simp add: fired_content_def civil_day_def)

lemma already_fired_iff:
  "read_to_string marker d = Inr (fired_content z) \<Longrightarrow>
     already_fired marker now d \<longleftrightarrow> civil_day z = civil_day now"
  by (simp add: already_fired_def trim_no_ws fired_content_ws_free fired_content_inj)

section \<open>One tick\<close>

lemma write_fired_marker_facts:
  "snd (write_fired_marker mk now d) = Inr u \<Longrightarrow>
     read_to_string mk (fst (write_fired_marker mk now d)) = Inr (fired_content now)"
  "read_to_string mk (fst (write_fired_marker mk now d)) \<in> {read_to_string mk d, Inr (fired_content now)}"
  "path_file_name mk \<noteq> None \<Longrightarrow> faults d = (\<lambda>_. False) \<Longrightarrow> crash_at d = None \<Longrightarrow>
     snd (write_fired_marker mk now d) = Inr ()"
  using best_effort.read_after [of mk "fired_content now" d]
    best_effort.read_old_or_new [of mk "fired_content now" d]
    best_effort.healthy_ok [of mk d "fired_content now"]
  by (simp_all add: write_fired_marker_def)

lemmas tick_splits = cold_action.splits prod.splits sum.splits if_splits

lemma tick_FireD:
  assumes "scheduler_tick zt mk eq_p cfg now_pre env now_post op d = (d', Some ColdFire, go)"
  shows "cold_compute_next_action now_pre cfg (read_marker_state zt mk eq_p now_pre d) = ColdFireEligible
         \<and> read_to_string mk d' = Inr (fired_content now_pre)"
proof -
  let ?w = "write_fired_marker mk now_pre (env d)"
  have "cold_compute_next_action now_pre cfg (read_marker_state zt mk eq_p now_pre d) = ColdFireEligible
        \<and> snd ?w = Inr () \<and> d' = fst ?w"
    using assms by (auto simp: scheduler_tick_def send_signal_def Let_def split: tick_splits)
  then show ?thesis using write_fired_marker_facts(1) [of mk now_pre "env d" "()"] by simp
qed

lemma tick_marker:
  assumes "scheduler_tick zt mk eq_p cfg now_pre env now_post op d = (d', sig, go)"
    and "read_to_string mk (env d) = read_to_string mk d"
  shows "read_to_string mk d' = read_to_string mk d
         \<or> read_to_string mk d' = Inr (fired_content now_pre)"
proof -
  have "d' = d \<or> d' = fst (write_fired_marker mk now_pre d) \<or> d' = fst (write_fired_marker mk now_pre (env d))"
    using assms(1) by (auto simp: scheduler_tick_def send_signal_def Let_def split: tick_splits)
  then show ?thesis
    using assms(2) write_fired_marker_facts(2) [of mk now_pre d]
      write_fired_marker_facts(2) [of mk now_pre "env d"] by auto
qed

section \<open>No day fires twice\<close>

definition fire_days :: "(zoned \<times> cold_restart_signal) list \<Rightarrow> (int \<times> nat) list" where
  "fire_days sigs = map (civil_day \<circ> fst) (filter (\<lambda>(z, s). s = ColdFire) sigs)"

definition leaves_marker :: "path \<Rightarrow> tick_env \<Rightarrow> bool" where
  "leaves_marker mk e \<longleftrightarrow>
     (\<forall>d. read_to_string mk (te_env e d) = read_to_string mk d
        \<and> read_to_string mk (te_meanwhile e d) = read_to_string mk d)"

lemma fire_days_append: "fire_days (xs @ ys) = fire_days xs @ fire_days ys"
  by (simp add: fire_days_def)

lemma fire_days_step:
  assumes "scheduler_tick zt mk eq_p cfg (te_pre e) (te_meanwhile e) (te_post e) (te_open e) (te_env e d)
           = (d1, sig, go)"
  shows "fire_days (snd (scheduler_loop zt mk eq_p cfg (e # es) d)) =
           (if sig = Some ColdFire then [civil_day (te_pre e)] else [])
           @ (if go then fire_days (snd (scheduler_loop zt mk eq_p cfg es d1)) else [])"
  using assms
  by (cases "scheduler_loop zt mk eq_p cfg es d1") (simp add: fire_days_def split: option.split)

lemma fires_of_ticks:
  "set (fire_days (snd (scheduler_loop zt mk eq_p cfg es d))) \<subseteq> (civil_day \<circ> te_pre) ` set es"
proof (induction es arbitrary: d)
  case Nil
  then show ?case by (simp add: fire_days_def)
next
  case (Cons e es)
  obtain d1 sig go where t: "scheduler_tick zt mk eq_p cfg (te_pre e) (te_meanwhile e) (te_post e)
      (te_open e) (te_env e d) = (d1, sig, go)" by (metis prod_cases3)
  show ?case using Cons.IH [of d1] unfolding fire_days_step [OF t] by auto
qed

text \<open>
  The day the marker names bounds every later fire from below, strictly: a day at or
  before it is either deduplicated by the marker or cannot be sampled any more.
\<close>

lemma fires_after_marker:
  assumes "\<forall>e \<in> set es. leaves_marker mk e"
    and "sorted (map (civil_day \<circ> te_pre) es)"
    and "read_to_string mk d = Inr (fired_content z)"
    and "\<forall>e \<in> set es. civil_day z \<le> civil_day (te_pre e)"
  shows "\<forall>x \<in> set (fire_days (snd (scheduler_loop zt mk eq_p cfg es d))). civil_day z < x"
  using assms
proof (induction es arbitrary: d z)
  case Nil
  then show ?case by (simp add: fire_days_def)
next
  case (Cons e es)
  let ?d0 = "te_env e d"
  obtain d1 sig go where t: "scheduler_tick zt mk eq_p cfg (te_pre e) (te_meanwhile e) (te_post e)
      (te_open e) ?d0 = (d1, sig, go)" by (metis prod_cases3)
  have r0: "read_to_string mk ?d0 = Inr (fired_content z)"
    and env: "read_to_string mk (te_meanwhile e ?d0) = read_to_string mk ?d0"
    using Cons.prems(1,3) by (simp_all add: leaves_marker_def)
  have head: "civil_day z < civil_day (te_pre e)" if "sig = Some ColdFire"
  proof -
    have "\<not> already_fired mk (te_pre e) ?d0"
      using compute_eligibleD [OF conjunct1 [OF tick_FireD [OF t [unfolded that]]]]
      by (simp add: read_marker_state_def)
    with r0 Cons.prems(4) show ?thesis by (auto simp: already_fired_iff)
  qed
  obtain z' where z': "read_to_string mk d1 = Inr (fired_content z')" "civil_day z \<le> civil_day z'"
    "civil_day z' \<le> civil_day (te_pre e)"
    using tick_marker [OF t env] r0 Cons.prems(4) by auto
  have "\<forall>x \<in> set (fire_days (snd (scheduler_loop zt mk eq_p cfg es d1))). civil_day z' < x"
    using Cons.prems(1,2) z' by (intro Cons.IH) (simp, simp, simp, force)
  with head z'(2) show ?case unfolding fire_days_step [OF t] by fastforce
qed


text \<open>
  C12. However often the scheduler loop runs, and whatever writes fail, no calendar day is
  cold-restarted twice: as long as the clock's calendar day does not run backwards and
  nobody else touches the fired marker, the days that received a \<open>Fire\<close> are strictly
  increasing.
\<close>

theorem fire_days_strictly_increasing:
  assumes "\<forall>e \<in> set es. leaves_marker mk e"
    and "sorted (map (civil_day \<circ> te_pre) es)"
  shows "sorted_wrt (<) (fire_days (snd (scheduler_loop zt mk eq_p cfg es d)))"
  using assms
proof (induction es arbitrary: d)
  case Nil
  then show ?case by (simp add: fire_days_def)
next
  case (Cons e es)
  obtain d1 sig go where t: "scheduler_tick zt mk eq_p cfg (te_pre e) (te_meanwhile e) (te_post e)
      (te_open e) (te_env e d) = (d1, sig, go)" by (metis prod_cases3)
  have later: "\<forall>x \<in> set (fire_days (snd (scheduler_loop zt mk eq_p cfg es d1))). civil_day (te_pre e) < x"
    if "sig = Some ColdFire"
    using tick_FireD [OF t [unfolded that]] Cons.prems
    by (intro fires_after_marker) (auto simp: comp_def)
  have "sorted_wrt (<) (fire_days (snd (scheduler_loop zt mk eq_p cfg es d1)))"
    using Cons.prems by (intro Cons.IH) simp_all
  with later show ?case unfolding fire_days_step [OF t] by simp
qed


definition sunday_env :: "zoned \<Rightarrow> tick_env" where
  "sunday_env z = \<lparr>te_env = id, te_pre = z, te_meanwhile = id, te_post = z, te_open = True\<rparr>"

definition cfg_example :: scheduler_config where
  "cfg_example = \<lparr>sc_target_dow = 0, sc_target_hour = 9, sc_target_minute = 0,
     sc_boot_at = sunday_nine\<lparr>z_hour := 8\<rparr>\<rparr>"

definition zt_example :: zoned_text where
  "zt_example = \<lparr>zoned_to_string = (\<lambda>z. show_nat (60 * z_hour z + z_minute z)),
     zoned_from_str = (\<lambda>s. map_option (\<lambda>n. sunday_nine\<lparr>z_hour := n div 60, z_minute := n mod 60\<rparr>)
        (parse_uint u32_max s))\<rparr>"

definition fired_path_example :: path where
  "fired_path_example = (''/j'', ''f'')"

definition equiv_path_example :: path where
  "equiv_path_example = (''/j'', ''e'')"

lemma sunday_env_leaves: "leaves_marker mk (sunday_env z)"
  by (simp add: leaves_marker_def sunday_env_def)

theorem fire_days_strictly_increasing_witness:
  "sorted_wrt (<) (fire_days (snd (scheduler_loop zt_example fired_path_example equiv_path_example
     cfg_example [sunday_env sunday_nine, sunday_env (sunday_nine\<lparr>z_minute := 1\<rparr>)]
     (healthy_disk (\<lambda>_. None)))))"
  by (rule fire_days_strictly_increasing)
     (simp_all add: sunday_env_leaves, simp add: sunday_env_def civil_day_def)

section \<open>A due day fires\<close>

definition matures :: "scheduler_config \<Rightarrow> zoned \<Rightarrow> zoned \<Rightarrow> bool" where
  "matures cfg at now \<longleftrightarrow>
     civil_date at = civil_date now \<and> 60 \<le> minute_of_day at \<and> minute_of_day at < target_minute_of_day cfg"

lemma no_skip:
  assumes "config_wf cfg"
    and "\<forall>at. ms_equivalent_marker ms = Some at \<longrightarrow> clock_wf at \<and> \<not> matures cfg at now"
  shows "cold_compute_next_action now cfg ms \<noteq> ColdSkip r"
  using assms compute_skipD [of now cfg ms r] by (auto simp: should_skip_iff matures_def)

lemma fires_unless_skip:
  assumes "cold_compute_next_action now_pre cfg (read_marker_state zt mk eq_p now_pre d) = ColdFireEligible"
    and "\<And>r. cold_compute_next_action now_post cfg (read_marker_state zt mk eq_p now_post (env d)) \<noteq> ColdSkip r"
    and "path_file_name mk \<noteq> None" "faults (env d) = (\<lambda>_. False)" "crash_at (env d) = None"
  shows "\<exists>d'. scheduler_tick zt mk eq_p cfg now_pre env now_post True d = (d', Some ColdFire, True)
              \<and> already_fired mk now_pre d'"
proof -
  let ?w = "write_fired_marker mk now_pre (env d)"
  have ok: "snd ?w = Inr ()" using assms(3-5) by (rule write_fired_marker_facts(3))
  then have r: "read_to_string mk (fst ?w) = Inr (fired_content now_pre)"
    by (rule write_fired_marker_facts(1))
  obtain d2 where w: "?w = (d2, Inr ())" using ok by (cases ?w) auto
  have "scheduler_tick zt mk eq_p cfg now_pre env now_post True d = (d2, Some ColdFire, True)"
    using assms(1,2) w
    by (auto simp: scheduler_tick_def send_signal_def Let_def split: cold_action.splits)
  with r w show ?thesis by (simp add: already_fired_iff)
qed

text \<open>
  A due restart is not missed: on the target weekday, at or after the target minute
  however late the clock is sampled, a tick whose disk accepts writes sends \<open>Fire\<close> and
  records the day, unless the day already fired, the process itself booted after the
  target on this very day, or an authentication of today, at 01:00 or later and before
  the target, is on record.
\<close>

theorem due_day_fires:
  assumes "config_wf cfg" "clock_wf now" "clock_wf (sc_boot_at cfg)"
    and "z_weekday now = sc_target_dow cfg" "target_minute_of_day cfg \<le> minute_of_day now"
    and "\<not> already_fired mk now d"
    and "civil_day (sc_boot_at cfg) \<noteq> civil_day now \<or> minute_of_day (sc_boot_at cfg) \<le> target_minute_of_day cfg"
    and "\<forall>at. read_cold_restart_equivalent_marker zt eq_p d = Some at \<longrightarrow> clock_wf at \<and> \<not> matures cfg at now"
    and "\<forall>at. read_cold_restart_equivalent_marker zt eq_p (env d) = Some at \<longrightarrow>
                clock_wf at \<and> \<not> matures cfg at now_post"
    and "path_file_name mk \<noteq> None" "faults (env d) = (\<lambda>_. False)" "crash_at (env d) = None"
  shows "\<exists>d'. scheduler_tick zt mk eq_p cfg now env now_post True d = (d', Some ColdFire, True)
              \<and> already_fired mk now d'"
proof (rule fires_unless_skip)
  show "path_file_name mk \<noteq> None" "faults (env d) = (\<lambda>_. False)" "crash_at (env d) = None"
    by (rule assms(10-12))+
  show "cold_compute_next_action now cfg (read_marker_state zt mk eq_p now d) = ColdFireEligible"
    using assms(1-8)
    by (auto simp: cold_compute_next_action_def read_marker_state_def past_target_iff startup_veto_iff
        should_skip_iff matures_def split: option.splits)
  show "cold_compute_next_action now_post cfg (read_marker_state zt mk eq_p now_post (env d)) \<noteq> ColdSkip r" for r
    using assms(1,9) by (intro no_skip) (simp_all add: read_marker_state_def)
qed

lemmas cold_example_defs = cfg_example_def sunday_nine_def config_wf_def clock_wf_def
  target_minute_of_day_def minute_of_day_def already_fired_def read_to_string_def healthy_disk_def
  read_cold_restart_equivalent_marker_def fired_path_example_def equiv_path_example_def path_file_name_def

theorem due_day_fires_witness:
  "\<exists>d'. scheduler_tick zt_example fired_path_example equiv_path_example cfg_example
          (sunday_nine\<lparr>z_hour := 23\<rparr>) id sunday_nine True (healthy_disk (\<lambda>_. None))
        = (d', Some ColdFire, True)
        \<and> already_fired fired_path_example (sunday_nine\<lparr>z_hour := 23\<rparr>) d'"
  by (rule due_day_fires) (simp_all add: cold_example_defs)


section \<open>Skips and the warning window\<close>

text \<open>
  An authentication of today, at 01:00 or later and before the target minute, that is
  on record when a tick starts suppresses the restart under every disk behaviour: the
  tick reports the skip with that authentication (when somebody listens) and never sends
  \<open>Fire\<close>; when the disk accepts writes the day is closed for all later ticks.
\<close>

theorem fresh_auth_suppresses_fire:
  assumes "config_wf cfg" "clock_wf now" "clock_wf at" "clock_wf (sc_boot_at cfg)"
    and "read_cold_restart_equivalent_marker zt eq_p d = Some at" "matures cfg at now"
    and "scheduler_tick zt mk eq_p cfg now env now_post op d = (d', sig, go)"
  shows "sig \<noteq> Some ColdFire
         \<and> (sig \<noteq> None \<longrightarrow> sig = Some (ColdSkipped (FreshAuthToday at)))
         \<and> (sig \<noteq> None \<and> path_file_name mk \<noteq> None \<and> faults d = (\<lambda>_. False) \<and> crash_at d = None
              \<longrightarrow> already_fired mk now d')"
proof -
  let ?a = "cold_compute_next_action now cfg (read_marker_state zt mk eq_p now d)"
  have cases: "?a = ColdSleep \<or> ?a = ColdSkip (FreshAuthToday at)"
    using assms(1,3,5,6)
    by (auto simp: cold_compute_next_action_def read_marker_state_def should_skip_iff matures_def)
  have closes: "already_fired mk now (fst (write_fired_marker mk now d))"
    if "path_file_name mk \<noteq> None" "faults d = (\<lambda>_. False)" "crash_at d = None"
    using write_fired_marker_facts(1) [OF write_fired_marker_facts(3) [OF that]]
    by (simp add: already_fired_iff)
  from cases show ?thesis
    using assms(7) closes by (auto simp: scheduler_tick_def send_signal_def split: if_splits)
qed

theorem fresh_auth_suppresses_fire_witness:
  "\<exists>d' sig go. scheduler_tick zt_example fired_path_example equiv_path_example cfg_example sunday_nine
       id sunday_nine True
       (healthy_disk ((\<lambda>_. None)(equiv_path_example := Some (Readable ''510'')))) = (d', sig, go)
     \<and> sig \<noteq> Some ColdFire"
proof -
  let ?d = "healthy_disk ((\<lambda>_. None)(equiv_path_example := Some (Readable ''510'')))"
  let ?at = "sunday_nine\<lparr>z_hour := 8, z_minute := 30\<rparr>"
  obtain d' sig go where t: "scheduler_tick zt_example fired_path_example equiv_path_example cfg_example
    sunday_nine id sunday_nine True ?d = (d', sig, go)" by (metis prod_cases3)
  have "trim ''510'' = ''510''" by code_simp
  moreover have "parse_uint u32_max ''510'' = Some 510"
    by (simp add: parse_uint_def parse_digits_def digits_val_def digit_val_def is_digit_def u32_max_def)
  ultimately have r: "read_cold_restart_equivalent_marker zt_example equiv_path_example ?d = Some ?at"
    by (simp add: read_cold_restart_equivalent_marker_def read_to_string_def healthy_disk_def zt_example_def)
  have "matures cfg_example ?at sunday_nine"
    by (simp add: matures_def civil_date_def cold_example_defs)
  then have "sig \<noteq> Some ColdFire"
    using fresh_auth_suppresses_fire [OF _ _ _ _ r _ t]
    by (simp add: cold_example_defs)
  with t show ?thesis by blast
qed

text \<open>
  The check after the warning window cannot see an authentication that happens inside
  it: the window opens at or after the target minute, and only authentications before the
  target count. So when an authentication completes during the window, is stamped with the
  time it happened and is recorded without an error, the tick still sends \<open>Fire\<close>.
\<close>

theorem auth_in_warning_window_still_fires:
  assumes "config_wf cfg" "clock_wf now_pre" "clock_wf at"
    and "cold_compute_next_action now_pre cfg (read_marker_state zt mk eq_p now_pre d) = ColdFireEligible"
    and "civil_date at = civil_date now_pre" "minute_of_day now_pre \<le> minute_of_day at"
    and "zoned_from_str zt (trim (zoned_to_string zt at)) = Some at"
    and "path_file_name mk \<noteq> None" "path_file_name eq_p \<noteq> None"
    and "faults d = (\<lambda>_. False)" "crash_at d = None"
  shows "\<exists>d'. scheduler_tick zt mk eq_p cfg now_pre
                (\<lambda>d. fst (write_cold_restart_equivalent_marker zt eq_p at d)) now_post True d
              = (d', Some ColdFire, True)"
proof -
  let ?env = "\<lambda>d. fst (write_cold_restart_equivalent_marker zt eq_p at d)"
  have "snd (write_cold_restart_equivalent_marker zt eq_p at d) = Inr ()"
    using assms by (simp add: write_cold_restart_equivalent_marker_def best_effort.healthy_ok)
  then have r: "read_cold_restart_equivalent_marker zt eq_p (?env d) = Some at"
    using best_effort.read_after [of eq_p "zoned_to_string zt at" d] assms(7)
    by (simp add: read_cold_restart_equivalent_marker_def write_cold_restart_equivalent_marker_def)
  have adv: "faults (?env d) = (\<lambda>_. False)" "crash_at (?env d) = None"
    using best_effort.adversary_fixed [of eq_p "zoned_to_string zt at" d] assms(10,11)
    by (simp_all add: write_cold_restart_equivalent_marker_def)
  have "target_minute_of_day cfg \<le> minute_of_day now_pre"
    using compute_eligibleD [OF assms(4)] assms(1,2) by (simp add: past_target_iff)
  then have late: "\<not> matures cfg at now_post" using assms(6) by (simp add: matures_def)
  have "\<exists>d'. scheduler_tick zt mk eq_p cfg now_pre ?env now_post True d = (d', Some ColdFire, True)
          \<and> already_fired mk now_pre d'"
  proof (rule fires_unless_skip)
    show "cold_compute_next_action now_post cfg (read_marker_state zt mk eq_p now_post (?env d)) \<noteq> ColdSkip c" for c
      using assms(1,3) late r by (intro no_skip) (simp_all add: read_marker_state_def)
  qed (use assms adv in simp_all)
  then show ?thesis by blast
qed

theorem auth_in_warning_window_still_fires_witness:
  "\<exists>d'. scheduler_tick zt_example fired_path_example equiv_path_example cfg_example sunday_nine
          (\<lambda>d. fst (write_cold_restart_equivalent_marker zt_example equiv_path_example sunday_nine d))
          sunday_nine True (healthy_disk (\<lambda>_. None))
        = (d', Some ColdFire, True)"
proof (rule auth_in_warning_window_still_fires)
  show "cold_compute_next_action sunday_nine cfg_example
      (read_marker_state zt_example fired_path_example equiv_path_example sunday_nine (healthy_disk (\<lambda>_. None)))
      = ColdFireEligible"
    by (simp add: cold_compute_next_action_def read_marker_state_def past_target_def
        started_past_target_on_startup_day_def cold_example_defs)
  show "zoned_from_str zt_example (trim (zoned_to_string zt_example sunday_nine)) = Some sunday_nine"
    by (simp add: zt_example_def trim_no_ws show_nat_ws_free parse_show_nat u32_max_def sunday_nine_def)
qed (simp_all add: cold_example_defs)

section \<open>Configuration round trip\<close>

definition hh_mm :: "nat \<Rightarrow> nat \<Rightarrow> string" where
  "hh_mm h m = [digit_char (h div 10), digit_char (h mod 10), CHR '':'', digit_char (m div 10), digit_char (m mod 10)]"

lemma parse_two_digits:
  "n \<le> 99 \<Longrightarrow> parse_uint u32_max [digit_char (n div 10), digit_char (n mod 10)] = Some n"
proof -
  assume "n \<le> 99"
  then have d: "n div 10 < 10" "n mod 10 < 10" by simp_all
  have "digit_char (n div 10) \<noteq> CHR ''+''" using digit_neq digit_char_is_digit d(1) by blast
  moreover have "10 * (n div 10) + n mod 10 = n" by simp
  ultimately show ?thesis
    using d \<open>n \<le> 99\<close>
    by (simp add: parse_uint_def parse_digits_def digits_val_def digit_val_char digit_char_is_digit u32_max_def)
qed

text \<open>
  Every configuration the scheduler accepts has a weekday of at most six, an hour of at
  most 23 and a minute of at most 59 and keeps the boot instant; and every time of day,
  written \<open>HH:MM\<close> with any blanks around it trimmed, is accepted as that time, with the day
  clamped to Saturday.
\<close>

theorem scheduler_setup_accepts:
  shows "(scheduler_setup s day boot_now = Some cfg \<longrightarrow> config_wf cfg \<and> sc_boot_at cfg = boot_now)
         \<and> (h \<le> 23 \<and> mi \<le> 59 \<and> trim s = hh_mm h mi \<longrightarrow>
              scheduler_setup s day boot_now =
                Some \<lparr>sc_target_dow = min day 6, sc_target_hour = h, sc_target_minute = mi, sc_boot_at = boot_now\<rparr>)"
proof (intro conjI impI)
  assume a: "scheduler_setup s day boot_now = Some cfg"
  then obtain h mi where "parse_cold_restart_time s = Some (h, mi)"
    "cfg = \<lparr>sc_target_dow = min day 6, sc_target_hour = h, sc_target_minute = mi, sc_boot_at = boot_now\<rparr>"
    by (auto simp: scheduler_setup_def split: option.splits)
  moreover have "h \<le> 23 \<and> mi \<le> 59"
    using calculation(1)
    by (auto simp: parse_cold_restart_time_def Let_def split: if_splits list.splits option.splits)
  ultimately show "config_wf cfg" "sc_boot_at cfg = boot_now" by (simp_all add: config_wf_def)
next
  assume a: "h \<le> 23 \<and> mi \<le> 59 \<and> trim s = hh_mm h mi"
  then have "h \<le> 23" "mi \<le> 59" by simp_all
  then have d: "h div 10 < 10" "h mod 10 < 10" "mi div 10 < 10" "mi mod 10 < 10" by simp_all
  have nc: "digit_char n \<noteq> CHR '':''" if "n < 10" for n
    using digit_neq digit_char_is_digit that by blast
  have "split_on CHR '':'' (hh_mm h mi) =
      [[digit_char (h div 10), digit_char (h mod 10)], [digit_char (mi div 10), digit_char (mi mod 10)]]"
    using d by (simp add: hh_mm_def nc)
  moreover have "hh_mm h mi \<noteq> []" by (simp add: hh_mm_def)
  ultimately have "parse_cold_restart_time s = Some (h, mi)"
    using a by (simp add: parse_cold_restart_time_def Let_def parse_two_digits)
  then show "scheduler_setup s day boot_now =
      Some \<lparr>sc_target_dow = min day 6, sc_target_hour = h, sc_target_minute = mi, sc_boot_at = boot_now\<rparr>"
    by (simp add: scheduler_setup_def)
qed

theorem scheduler_setup_accepts_witness:
  "scheduler_setup '' 09:30 '' 7 sunday_nine =
     Some \<lparr>sc_target_dow = 6, sc_target_hour = 9, sc_target_minute = 30, sc_boot_at = sunday_nine\<rparr>"
proof -
  have "trim '' 09:30 '' = hh_mm 9 30" by code_simp
  then show ?thesis
    using scheduler_setup_accepts [of "'' 09:30 ''" 7 sunday_nine cfg_example 9 30] by simp
qed

end
