(* ===== verification/Lifecycle_State.thy ===== *)
theory Lifecycle_State
  imports Ibctl_Prelude
begin

text \<open>
  The lifecycle states of the gateway controller (\<open>state_machine/types.rs\<close>): the enum with
  its textual form and parser, the predicates and the client advisory computed from it, and
  the bounded transition history. The lemmas show that names round trip and that the ring buffer holds the last hundred proper
  transitions.
\<close>

section \<open>States and their names\<close>

datatype sm_state =
    WaitingForLaunch | Init | Launching | WaitingForAgent | WaitingForLogin | Authenticating
  | WaitingFor2fa | HandlingSessionConflict | DismissingPopups | WaitingForApiReady
  | ConfiguringApi | Connected | ReconnectingSession | Restarting | WaitingForIB
  | WaitingForHitl2fa | Shutdown | ErrorState string

definition is_credential_gathering :: "sm_state \<Rightarrow> bool" where
  "is_credential_gathering s \<longleftrightarrow>
     (case s of
        WaitingForLogin \<Rightarrow> True | Authenticating \<Rightarrow> True | WaitingFor2fa \<Rightarrow> True
      | WaitingForHitl2fa \<Rightarrow> True | DismissingPopups \<Rightarrow> True | WaitingForApiReady \<Rightarrow> True
      | ConfiguringApi \<Rightarrow> True | Restarting \<Rightarrow> True | Launching \<Rightarrow> True | _ \<Rightarrow> False)"

definition from_name :: "string \<Rightarrow> sm_state option" where
  "from_name name =
     (if name = ''WaitingForLaunch'' then Some WaitingForLaunch
      else if name = ''Init'' then Some Init
      else if name = ''Launching'' then Some Launching
      else if name = ''WaitingForAgent'' then Some WaitingForAgent
      else if name = ''WaitingForLogin'' then Some WaitingForLogin
      else if name = ''Authenticating'' then Some Authenticating
      else if name = ''WaitingFor2fa'' then Some WaitingFor2fa
      else if name = ''HandlingSessionConflict'' then Some HandlingSessionConflict
      else if name = ''DismissingPopups'' then Some DismissingPopups
      else if name = ''WaitingForApiReady'' then Some WaitingForApiReady
      else if name = ''ConfiguringApi'' then Some ConfiguringApi
      else if name = ''Connected'' then Some Connected
      else if name = ''ReconnectingSession'' then Some ReconnectingSession
      else if name = ''Restarting'' then Some Restarting
      else if name = ''WaitingForIB'' then Some WaitingForIB
      else if name = ''WaitingForHitl2fa'' then Some WaitingForHitl2fa
      else if name = ''Shutdown'' then Some Shutdown
      else None)"

fun state_to_string :: "sm_state \<Rightarrow> string" where
  "state_to_string WaitingForLaunch = ''WaitingForLaunch''"
| "state_to_string Init = ''Init''"
| "state_to_string Launching = ''Launching''"
| "state_to_string WaitingForAgent = ''WaitingForAgent''"
| "state_to_string WaitingForLogin = ''WaitingForLogin''"
| "state_to_string Authenticating = ''Authenticating''"
| "state_to_string WaitingFor2fa = ''WaitingFor2fa''"
| "state_to_string HandlingSessionConflict = ''HandlingSessionConflict''"
| "state_to_string DismissingPopups = ''DismissingPopups''"
| "state_to_string WaitingForApiReady = ''WaitingForApiReady''"
| "state_to_string ConfiguringApi = ''ConfiguringApi''"
| "state_to_string Connected = ''Connected''"
| "state_to_string ReconnectingSession = ''ReconnectingSession''"
| "state_to_string Restarting = ''Restarting''"
| "state_to_string WaitingForIB = ''WaitingForIB''"
| "state_to_string WaitingForHitl2fa = ''WaitingForHitl2fa''"
| "state_to_string Shutdown = ''Shutdown''"
| "state_to_string (ErrorState msg) = ''Error('' @ msg @ '')''"

section \<open>Client advisory\<close>

text \<open>The tuple (should connect, should wait, reason, client id likely stale).\<close>

definition client_advisory :: "sm_state \<Rightarrow> bool \<times> bool \<times> string option \<times> bool" where
  "client_advisory s =
     (let (c, w, r) =
        (case s of
           WaitingForLaunch \<Rightarrow> (False, False, Some ''standby'')
         | Init \<Rightarrow> (False, True, Some ''launching'')
         | Launching \<Rightarrow> (False, True, Some ''launching'')
         | WaitingForAgent \<Rightarrow> (False, True, Some ''launching'')
         | WaitingForLogin \<Rightarrow> (False, True, Some ''logging_in'')
         | Authenticating \<Rightarrow> (False, True, Some ''logging_in'')
         | WaitingFor2fa \<Rightarrow> (False, True, Some ''2fa_pending'')
         | HandlingSessionConflict \<Rightarrow> (False, True, Some ''session_conflict'')
         | DismissingPopups \<Rightarrow> (False, True, Some ''configuring'')
         | WaitingForApiReady \<Rightarrow> (False, True, Some ''configuring'')
         | ConfiguringApi \<Rightarrow> (False, True, Some ''configuring'')
         | Connected \<Rightarrow> (True, False, None)
         | ReconnectingSession \<Rightarrow> (False, True, Some ''reconnecting'')
         | Restarting \<Rightarrow> (False, True, Some ''restarting'')
         | WaitingForIB \<Rightarrow> (False, True, Some ''ib_maintenance'')
         | WaitingForHitl2fa \<Rightarrow> (False, True, Some ''awaiting_operator'')
         | Shutdown \<Rightarrow> (False, False, None)
         | ErrorState msg \<Rightarrow> (False, False, None))
      in (c, w, r, s = Restarting))"

section \<open>Transition history\<close>

record transition_entry =
  tr_timestamp :: string
  tr_from :: string
  tr_to :: string

definition history_capacity :: nat where "history_capacity = 100"

definition record_transition ::
  "string \<Rightarrow> sm_state \<Rightarrow> sm_state \<Rightarrow> transition_entry list \<Rightarrow> transition_entry list" where
  "record_transition ts from to hist =
     (if from = to then hist
      else (if length hist \<ge> history_capacity then tl hist else hist)
           @ [\<lparr>tr_timestamp = ts, tr_from = state_to_string from, tr_to = state_to_string to\<rparr>])"

section \<open>Properties\<close>

lemma from_name_to_string: "(\<forall>msg. s \<noteq> ErrorState msg) \<Longrightarrow> from_name (state_to_string s) = Some s"
  by (cases s) (simp_all add: from_name_def)

lemma from_name_no_error: "from_name n \<noteq> Some (ErrorState msg)"
  by (simp add: from_name_def)

lemma from_name_SomeD: "from_name n = Some s \<Longrightarrow> n = state_to_string s"
  unfolding from_name_def by (auto split: if_splits)

text \<open>
  Parsing and printing of state names are inverse: a name is accepted exactly when it
  is the printed form of a state other than an error, and then names that state. An error
  state can never be forced or awaited by name.
\<close>

theorem state_names_roundtrip:
  "from_name n = Some s \<longleftrightarrow> n = state_to_string s \<and> (\<forall>msg. s \<noteq> ErrorState msg)"
  using from_name_SomeD from_name_to_string from_name_no_error by blast

text \<open>The reference for the history: the last entries of the unbounded log.\<close>

definition last_n :: "nat \<Rightarrow> 'a list \<Rightarrow> 'a list" where
  "last_n n xs = drop (length xs - n) xs"

definition log_entry :: "string \<times> sm_state \<times> sm_state \<Rightarrow> transition_entry" where
  "log_entry e = (case e of (ts, a, b) \<Rightarrow>
     \<lparr>tr_timestamp = ts, tr_from = state_to_string a, tr_to = state_to_string b\<rparr>)"

definition full_log :: "(string \<times> sm_state \<times> sm_state) list \<Rightarrow> transition_entry list" where
  "full_log es = map log_entry (filter (\<lambda>(ts, a, b). a \<noteq> b) es)"

lemma last_n_snoc: "0 < n \<Longrightarrow> last_n n (xs @ [x]) = (if length (last_n n xs) \<ge> n then tl (last_n n xs) else last_n n xs) @ [x]"
proof (cases "length xs < n")
  case False
  then have "length (last_n n xs) = n" "Suc (length xs) - n = Suc (length xs - n)"
    by (simp_all add: last_n_def)
  moreover have "tl (drop (length xs - n) xs) = drop (Suc (length xs - n)) xs"
    by (simp add: drop_Suc tl_drop)
  moreover assume "0 < n"
  ultimately show ?thesis using False by (simp add: last_n_def)
qed (simp add: last_n_def)

text \<open>
  The history kept in memory refines the unbounded log: after any sequence of recorded
  steps it is exactly the last hundred of those that change the state, in order, so it
  never exceeds its capacity and never drops a recent entry.
\<close>

theorem history_refines_log:
  "fold (\<lambda>(ts, a, b). record_transition ts a b) es [] = last_n history_capacity (full_log es)"
proof (induction es rule: rev_induct)
  case Nil
  then show ?case by (simp add: last_n_def full_log_def)
next
  case (snoc e es)
  obtain ts a b where e: "e = (ts, a, b)" by (cases e)
  show ?case
  proof (cases "a = b")
    case True
    with snoc e show ?thesis by (simp add: record_transition_def full_log_def)
  next
    case False
    then have "full_log (es @ [e]) = full_log es @ [log_entry e]" by (simp add: full_log_def e)
    with snoc e False show ?thesis
      by (simp add: record_transition_def last_n_snoc log_entry_def history_capacity_def)
  qed
qed

end
