(* ===== verification/Revocation.thy ===== *)
theory Revocation
  imports Lifecycle_State
begin

text \<open>
  The revocation bus of the Connected state (\<open>state_machine/revocation.rs\<close>): contradiction
  sources with their tags, debounce times and successor states, and the tracker that
  remembers when each kind of contradiction was first seen. The main lemma describes the
  tracker by the history of observations alone: a source fires exactly when its
  contradiction has persisted, without being cleared, for its debounce time.
\<close>

section \<open>Sources\<close>

datatype revocation_tag =
    TagJvmDied | TagErrorDialog | TagReloginDialog | TagSessionConflict | TagLoginFormVisible
  | TagDisconnectedLabelStable | TagConnectionStatusEvent | TagWindowClassMorphed | TagApiPortListenerLost

datatype revocation_source =
    JvmDied | ErrorDialogSeen string | ReloginDialog | SessionConflict | LoginFormVisible
  | DisconnectedLabelStable | ConnectionStatusEvent | WindowClassMorphed string string
  | ApiPortListenerLost

fun tag_as_str :: "revocation_tag \<Rightarrow> string" where
  "tag_as_str TagJvmDied = ''jvm_died''"
| "tag_as_str TagErrorDialog = ''error_dialog''"
| "tag_as_str TagReloginDialog = ''relogin_dialog''"
| "tag_as_str TagSessionConflict = ''session_conflict''"
| "tag_as_str TagLoginFormVisible = ''login_form_visible''"
| "tag_as_str TagDisconnectedLabelStable = ''disconnected_label''"
| "tag_as_str TagConnectionStatusEvent = ''connection_status_event''"
| "tag_as_str TagWindowClassMorphed = ''window_class_morphed''"
| "tag_as_str TagApiPortListenerLost = ''api_port_listener_lost''"

fun debounce :: "revocation_source \<Rightarrow> millis" where
  "debounce JvmDied = 0"
| "debounce (ErrorDialogSeen _) = 500"
| "debounce ReloginDialog = 0"
| "debounce SessionConflict = 0"
| "debounce LoginFormVisible = 1000"
| "debounce DisconnectedLabelStable = 2000"
| "debounce ConnectionStatusEvent = 2000"
| "debounce (WindowClassMorphed _ _) = 500"
| "debounce ApiPortListenerLost = 0"

fun next_state :: "revocation_source \<Rightarrow> sm_state" where
  "next_state JvmDied = Restarting"
| "next_state (ErrorDialogSeen _) = Restarting"
| "next_state ReloginDialog = ReconnectingSession"
| "next_state SessionConflict = HandlingSessionConflict"
| "next_state LoginFormVisible = WaitingForLogin"
| "next_state DisconnectedLabelStable = ReconnectingSession"
| "next_state ConnectionStatusEvent = ReconnectingSession"
| "next_state (WindowClassMorphed _ _) = WaitingForLogin"
| "next_state ApiPortListenerLost = Restarting"

fun source_tag :: "revocation_source \<Rightarrow> revocation_tag" where
  "source_tag JvmDied = TagJvmDied"
| "source_tag (ErrorDialogSeen _) = TagErrorDialog"
| "source_tag ReloginDialog = TagReloginDialog"
| "source_tag SessionConflict = TagSessionConflict"
| "source_tag LoginFormVisible = TagLoginFormVisible"
| "source_tag DisconnectedLabelStable = TagDisconnectedLabelStable"
| "source_tag ConnectionStatusEvent = TagConnectionStatusEvent"
| "source_tag (WindowClassMorphed _ _) = TagWindowClassMorphed"
| "source_tag ApiPortListenerLost = TagApiPortListenerLost"

section \<open>The tracker\<close>

text \<open>\<open>first_seen\<close> maps a tag to the first observation since it was last cleared.\<close>

type_synonym revocation_tracker = "revocation_tag \<Rightarrow> (instant \<times> revocation_source) option"

definition rev_new :: revocation_tracker where
  "rev_new = (\<lambda>_. None)"

definition rev_observe ::
  "instant \<Rightarrow> revocation_source \<Rightarrow> revocation_tracker \<Rightarrow> revocation_tracker \<times> revocation_source option" where
  "rev_observe now src tr =
     (case tr (source_tag src) of
        Some (first, s) \<Rightarrow> (tr, if elapsed_ms now first \<ge> debounce src then Some src else None)
      | None \<Rightarrow> (tr(source_tag src \<mapsto> (now, src)), if debounce src = 0 then Some src else None))"

definition rev_clear :: "revocation_tag \<Rightarrow> revocation_tracker \<Rightarrow> revocation_tracker" where
  "rev_clear tg tr = tr(tg := None)"

definition rev_clear_all :: "revocation_tracker \<Rightarrow> revocation_tracker" where
  "rev_clear_all tr = (\<lambda>_. None)"

definition all_tags :: "revocation_tag list" where
  "all_tags = [TagJvmDied, TagErrorDialog, TagReloginDialog, TagSessionConflict, TagLoginFormVisible,
     TagDisconnectedLabelStable, TagConnectionStatusEvent, TagWindowClassMorphed, TagApiPortListenerLost]"

definition rev_any_pending :: "revocation_tracker \<Rightarrow> bool" where
  "rev_any_pending tr \<longleftrightarrow> (\<exists>tg \<in> set all_tags. tr tg \<noteq> None)"

definition rev_is_pending :: "revocation_tag \<Rightarrow> revocation_tracker \<Rightarrow> bool" where
  "rev_is_pending tg tr \<longleftrightarrow> tr tg \<noteq> None"

lemma rev_any_pending_iff: "rev_any_pending tr \<longleftrightarrow> tr \<noteq> rev_new"
proof -
  have "tg \<in> set all_tags" for tg by (cases tg) (simp_all add: all_tags_def)
  then show ?thesis by (auto simp: rev_any_pending_def rev_new_def fun_eq_iff)
qed

lemma rev_clear_all_new [simp]: "rev_clear_all tr = rev_new"
  by (simp add: rev_clear_all_def rev_new_def)

section \<open>Histories\<close>

datatype rev_event = Observe instant revocation_source | Clear revocation_tag | ClearAll

fun rev_step :: "rev_event \<Rightarrow> revocation_tracker \<Rightarrow> revocation_tracker" where
  "rev_step (Observe t s) tr = fst (rev_observe t s tr)"
| "rev_step (Clear tg) tr = rev_clear tg tr"
| "rev_step ClearAll tr = rev_clear_all tr"

fun clears :: "revocation_tag \<Rightarrow> rev_event \<Rightarrow> bool" where
  "clears tg (Observe t s) = False"
| "clears tg (Clear tg') = (tg = tg')"
| "clears tg ClearAll = True"

fun observed_at :: "rev_event \<Rightarrow> instant list" where
  "observed_at (Observe t s) = [t]"
| "observed_at _ = []"

definition tracker_of :: "rev_event list \<Rightarrow> revocation_tracker" where
  "tracker_of evs = fold rev_step evs rev_new"

text \<open>The contradiction \<open>tg\<close> has been standing since \<open>t0\<close>: seen then and not cleared after.\<close>

definition standing_since :: "rev_event list \<Rightarrow> revocation_tag \<Rightarrow> instant \<Rightarrow> bool" where
  "standing_since evs tg t0 \<longleftrightarrow>
     (\<exists>pre s0 post. evs = pre @ Observe t0 s0 # post \<and> source_tag s0 = tg \<and> (\<forall>e \<in> set post. \<not> clears tg e))"

lemma tracker_of_snoc: "tracker_of (evs @ [e]) = rev_step e (tracker_of evs)"
  by (simp add: tracker_of_def)

lemma standing_since_snoc:
  "standing_since evs tg t0 \<Longrightarrow> \<not> clears tg e \<Longrightarrow> standing_since (evs @ [e]) tg t0"
proof -
  assume "standing_since evs tg t0" and n: "\<not> clears tg e"
  then obtain pre s0 post where p: "evs = pre @ Observe t0 s0 # post" "source_tag s0 = tg"
    "\<forall>e \<in> set post. \<not> clears tg e" unfolding standing_since_def by blast
  then have "evs @ [e] = pre @ Observe t0 s0 # (post @ [e])" "\<forall>e \<in> set (post @ [e]). \<not> clears tg e"
    using n by auto
  with p(2) show ?thesis unfolding standing_since_def by blast
qed

lemma tracker_stands:
  "tracker_of evs tg = Some (t0, s0) \<Longrightarrow> standing_since evs tg t0"
proof (induction evs rule: rev_induct)
  case Nil
  then show ?case by (simp add: tracker_of_def rev_new_def)
next
  case (snoc e evs)
  show ?case
  proof (cases "tracker_of evs tg = Some (t0, s0)")
    case True
    moreover have "\<not> clears tg e"
      using snoc.prems by (cases e) (auto simp: tracker_of_snoc rev_clear_def rev_new_def)
    ultimately show ?thesis using snoc.IH standing_since_snoc by blast
  next
    case False
    with snoc.prems have "e = Observe t0 s0" "source_tag s0 = tg"
      by (cases e; auto simp: tracker_of_snoc rev_clear_def rev_new_def rev_observe_def
          split: option.splits if_splits)+
    then show ?thesis unfolding standing_since_def by (metis append_Nil2 empty_iff empty_set)
  qed
qed

lemma tracker_kept:
  "tr tg = Some x \<Longrightarrow> \<forall>e \<in> set post. \<not> clears tg e \<Longrightarrow> fold rev_step post tr tg = Some x"
proof (induction post arbitrary: tr)
  case (Cons e post)
  have "rev_step e tr tg = Some x"
    using Cons.prems by (cases e) (auto simp: rev_observe_def rev_clear_def split: option.split)
  with Cons show ?case by simp
qed simp

lemma tracker_oldest:
  assumes "standing_since evs tg t1" and "sorted (concat (map observed_at evs))"
  shows "\<exists>t0 s0. tracker_of evs tg = Some (t0, s0) \<and> t0 \<le> t1"
proof -
  obtain pre s1 post where ev: "evs = pre @ Observe t1 s1 # post" "source_tag s1 = tg"
    "\<forall>e \<in> set post. \<not> clears tg e" using assms(1) unfolding standing_since_def by blast
  have "\<exists>t0 s0. tracker_of (pre @ [Observe t1 s1]) tg = Some (t0, s0) \<and> t0 \<le> t1"
  proof (cases "tracker_of pre tg")
    case None
    then show ?thesis using ev(2) by (simp add: tracker_of_snoc rev_observe_def)
  next
    case (Some p)
    obtain t0 s0 where p: "p = (t0, s0)" by (cases p)
    with Some have "standing_since pre tg t0" using tracker_stands by simp
    then have "t0 \<in> set (concat (map observed_at pre))" unfolding standing_since_def by force
    then have "t0 \<le> t1" using assms(2) ev(1) by (auto simp: sorted_append)
    with Some p ev(2) show ?thesis by (simp add: tracker_of_snoc rev_observe_def)
  qed
  then obtain t0 s0 where t0: "tracker_of (pre @ [Observe t1 s1]) tg = Some (t0, s0)" "t0 \<le> t1" by blast
  have "tracker_of evs tg = Some (t0, s0)"
    using tracker_kept [where tr = "tracker_of (pre @ [Observe t1 s1])", OF t0(1) ev(3)] ev(1) by (simp add: tracker_of_def)
  with t0(2) show ?thesis by blast
qed

text \<open>
  C28. Debounce, stated without the tracker: whatever was observed and cleared before, an
  observation at time \<open>t\<close> revokes the connection exactly when its source needs no
  debounce, or the same kind of contradiction was seen at some earlier time, was never
  cleared since, and that is at least the debounce time ago. A contradiction that stops
  and starts again begins anew.
\<close>

theorem revocation_debounce:
  assumes "sorted (concat (map observed_at evs))"
  shows "snd (rev_observe t src (tracker_of evs)) = Some src \<longleftrightarrow>
           debounce src = 0 \<or>
           (\<exists>t0. standing_since evs (source_tag src) t0 \<and> debounce src \<le> elapsed_ms t t0)"
proof (cases "tracker_of evs (source_tag src)")
  case None
  then have "\<not> standing_since evs (source_tag src) t0" for t0
    using tracker_oldest assms by fastforce
  with None show ?thesis by (simp add: rev_observe_def)
next
  case (Some p)
  obtain t0 s0 where p: "p = (t0, s0)" by (cases p)
  have st: "standing_since evs (source_tag src) t0" using Some p tracker_stands by simp
  have "debounce src \<le> elapsed_ms t t0"
    if "standing_since evs (source_tag src) t1" "debounce src \<le> elapsed_ms t t1" for t1
    using tracker_oldest [OF that(1) assms] Some p that(2) by (auto simp: elapsed_ms_def)
  with st show ?thesis using Some p by (auto simp: rev_observe_def)
qed

theorem revocation_debounce_witness:
  "snd (rev_observe 2500 DisconnectedLabelStable (tracker_of [Observe 100 DisconnectedLabelStable]))
     = Some DisconnectedLabelStable
   \<and> snd (rev_observe 2500 DisconnectedLabelStable
        (tracker_of [Observe 100 DisconnectedLabelStable, Clear TagDisconnectedLabelStable,
           Observe 600 DisconnectedLabelStable])) = None"
proof
  have "standing_since [Observe 100 DisconnectedLabelStable] TagDisconnectedLabelStable 100"
    unfolding standing_since_def by (metis append_Nil empty_iff empty_set source_tag.simps(6))
  then show "snd (rev_observe 2500 DisconnectedLabelStable (tracker_of [Observe 100 DisconnectedLabelStable]))
     = Some DisconnectedLabelStable"
    using revocation_debounce [of "[Observe 100 DisconnectedLabelStable]" 2500 DisconnectedLabelStable]
    by (auto simp: elapsed_ms_def)
  show "snd (rev_observe 2500 DisconnectedLabelStable
        (tracker_of [Observe 100 DisconnectedLabelStable, Clear TagDisconnectedLabelStable,
           Observe 600 DisconnectedLabelStable])) = None"
    by (simp add: tracker_of_def rev_observe_def rev_clear_def rev_new_def elapsed_ms_def)
qed

end
