(* ===== verification/Gateway_Ui.thy ===== *)
theory Gateway_Ui
  imports Lifecycle_State
begin

text \<open>
  What the controller reads off the gateway's user interface: window titles
  (\<open>agent_events.rs\<close>, \<open>state_machine/mod.rs\<close>), component dumps in the JSON the Java agent
  sends, the retry countdown in error texts (\<open>time_sync.rs\<close>), the API client list, and
  the observation cache fed by agent events. The lemmas show which titles block, that the
  countdown is bounded, that client lists never exceed what the gateway reports, and that
  the cache refines a map from window ids to windows.
\<close>

section \<open>JSON values\<close>

datatype json =
    JNull | JBool bool | JNum int | JStr string | JArr "json list" | JObj "(string \<times> json) list"

fun json_get :: "string \<Rightarrow> json \<Rightarrow> json option" where
  "json_get k (JObj kvs) = map_of kvs k"
| "json_get k _ = None"

fun as_array :: "json \<Rightarrow> json list option" where
  "as_array (JArr vs) = Some vs"
| "as_array _ = None"

fun as_str :: "json \<Rightarrow> string option" where
  "as_str (JStr s) = Some s"
| "as_str _ = None"

definition get_array :: "string \<Rightarrow> json \<Rightarrow> json list option" where
  "get_array k j = Option.bind (json_get k j) as_array"

lemma json_size_obj: "kv \<in> set kvs \<Longrightarrow> size (snd kv) < Suc (size_list (size_prod (\<lambda>_. 0) size) kvs)"
  by (induction kvs) auto

lemma json_size_arr: "v \<in> set vs \<Longrightarrow> size v < Suc (size_list size vs)"
  by (induction vs) auto

function (sequential) collect_strings :: "json \<Rightarrow> string list" where
  "collect_strings (JStr s) = [s]"
| "collect_strings (JArr vs) = concat (map collect_strings vs)"
| "collect_strings (JObj kvs) = concat (map (\<lambda>kv. collect_strings (snd kv)) kvs)"
| "collect_strings _ = []"
  by pat_completeness auto
termination
  by (relation "measure size") (auto simp: json_size_obj json_size_arr)

section \<open>Component dumps\<close>

text \<open>
  The connection-status table is dumped row-major as labels: the status of a row follows
  its purpose. Only the API Server row counts.
\<close>

fun row_status :: "string list \<Rightarrow> string option" where
  "row_status [] = None"
| "row_status [t] = None"
| "row_status (t # s # rest) = (if contains_str t ''api server'' then Some s else row_status (s # rest))"

definition api_server_row_status :: "json \<Rightarrow> string option" where
  "api_server_row_status c =
     (case get_array ''labels'' c of
        None \<Rightarrow> None
      | Some ls \<Rightarrow> row_status (map to_lowercase (List.map_filter as_str ls)))"

definition components_indicate_disconnected :: "json \<Rightarrow> bool" where
  "components_indicate_disconnected c \<longleftrightarrow> api_server_row_status c = Some ''disconnected''"

definition components_indicate_connected :: "json \<Rightarrow> bool" where
  "components_indicate_connected c \<longleftrightarrow> api_server_row_status c = Some ''connected''"

definition components_have_login_form :: "json \<Rightarrow> bool" where
  "components_have_login_form c \<longleftrightarrow>
     (case get_array ''textfields'' c of None \<Rightarrow> False | Some a \<Rightarrow> a \<noteq> [])"

definition components_confirm_authenticated :: "json \<Rightarrow> bool" where
  "components_confirm_authenticated c \<longleftrightarrow>
     \<not> components_have_login_form c \<and> components_indicate_connected c"

fun join_space :: "string list \<Rightarrow> string" where
  "join_space [] = []"
| "join_space [x] = x"
| "join_space (x # xs) = x @ '' '' @ join_space xs"

text \<open>
  \<open>looks_like_twofa_components\<close> of the TOTP handler: an editable field, wording of a code
  prompt, and not a credentials form. Entered values (key \<open>text\<close>) are not looked at.
\<close>

fun as_bool :: "json \<Rightarrow> bool option" where
  "as_bool (JBool b) = Some b"
| "as_bool _ = None"

definition flag_or_true :: "string \<Rightarrow> json \<Rightarrow> bool" where
  "flag_or_true k j = (case Option.bind (json_get k j) as_bool of None \<Rightarrow> True | Some b \<Rightarrow> b)"

function (sequential) collect_semantic_strings :: "string option \<Rightarrow> json \<Rightarrow> string list" where
  "collect_semantic_strings key (JStr s) = (if key \<noteq> Some ''text'' \<and> trim s \<noteq> [] then [s] else [])"
| "collect_semantic_strings key (JArr vs) = concat (map (collect_semantic_strings key) vs)"
| "collect_semantic_strings key (JObj kvs) =
     concat (map (\<lambda>kv. collect_semantic_strings (Some (fst kv)) (snd kv)) kvs)"
| "collect_semantic_strings key _ = []"
  by pat_completeness auto
termination
  by (relation "measure (\<lambda>(k, j). size j)") (auto simp: json_size_obj json_size_arr)

definition any_contained :: "string list \<Rightarrow> string \<Rightarrow> bool" where
  "any_contained needles s \<longleftrightarrow> list_ex (contains_str s) needles"

definition looks_like_twofa_components :: "json \<Rightarrow> bool" where
  "looks_like_twofa_components c =
     (let fields = (case get_array ''textfields'' c of None \<Rightarrow> [] | Some fs \<Rightarrow> fs);
          editable = filter (\<lambda>f. flag_or_true ''visible'' f \<and> flag_or_true ''enabled'' f
                                 \<and> flag_or_true ''editable'' f) fields;
          words = to_lowercase (join_space (collect_semantic_strings None c))
      in if editable = [] then False
         else any_contained [''security code'', ''authentication code'', ''verification code'',
                ''one-time code'', ''one time code'', ''one-time password'', ''passcode'',
                ''enter the code'', ''verification'', '' otp ''] words
              \<and> \<not> (any_contained [''username'', ''user name'', ''account username''] words
                   \<and> contains_str words ''password''))"

section \<open>API clients\<close>

fun position :: "('a \<Rightarrow> bool) \<Rightarrow> 'a list \<Rightarrow> nat option" where
  "position P [] = None"
| "position P (x # xs) = (if P x then Some 0 else map_option Suc (position P xs))"

definition derive_client_ids :: "json \<Rightarrow> nat \<Rightarrow> string list" where
  "derive_client_ids view mx =
     (let status = (case Option.bind (json_get ''api_client_row_status'' view) as_str of
                      None \<Rightarrow> '''' | Some s \<Rightarrow> s);
          tokens = split_whitespace (to_lowercase status)
      in case position (\<lambda>t. t = ''connected'') tokens of
           None \<Rightarrow> []
         | Some i \<Rightarrow>
             (let count_hint = (if i > 0 then parse_uint u64_max (tokens ! (i - 1)) else None)
              in case get_array ''tabs'' view of
                   None \<Rightarrow> []
                 | Some tabs \<Rightarrow>
                     (let target = min (case count_hint of None \<Rightarrow> length tabs | Some n \<Rightarrow> n) mx
                      in if target = 0 then []
                         else List.map_filter (\<lambda>tab. Option.bind (json_get ''title'' tab) as_str)
                                (take target tabs))))"

section \<open>Windows\<close>

record bounds =
  b_width :: int
  b_height :: int

record window_info =
  w_id :: nat
  w_title :: string
  w_class :: string
  w_bounds :: "bounds option"
  w_visible :: bool

definition is_twofa_title :: "string \<Rightarrow> bool" where
  "is_twofa_title title =
     (let t = to_lowercase title in
        contains_str t ''second factor''
      \<or> contains_str t ''two-factor''
      \<or> contains_str t ''2fa''
      \<or> contains_str t ''security code''
      \<or> contains_str t ''ib key authenticat''
      \<or> contains_str t ''ibkr mobile authenticat''
      \<or> contains_str t ''mobile authenticator''
      \<or> contains_str t ''verification code''
      \<or> contains_str t ''one-time password''
      \<or> contains_str t ''one time password''
      \<or> contains_str t ''passcode''
      \<or> contains_str t ''authentication challenge'')"

definition is_gateway_title :: "string \<Rightarrow> bool" where
  "is_gateway_title title =
     (let t = to_lowercase title in contains_str t ''ib gateway'' \<or> contains_str t ''ibkr gateway'')"

definition is_relogin_title :: "string \<Rightarrow> bool" where
  "is_relogin_title title =
     (let t = to_lowercase title in
        contains_str t ''re-login'' \<or> contains_str t ''relogin'' \<or> contains_str t ''login is required'')"

definition is_conflict_title :: "string \<Rightarrow> bool" where
  "is_conflict_title title = contains_str (to_lowercase title) ''existing session''"

definition classify_blocking_dialog :: "string \<Rightarrow> sm_state option" where
  "classify_blocking_dialog title =
     (if is_relogin_title title then Some ReconnectingSession
      else if is_twofa_title title then Some WaitingFor2fa
      else None)"

text \<open>\<open>check_blocking_dialog\<close>, given the result of \<open>list_windows\<close> (\<open>None\<close> for an error).\<close>

fun first_blocking :: "window_info list \<Rightarrow> sm_state option" where
  "first_blocking [] = None"
| "first_blocking (w # ws) =
     (case classify_blocking_dialog (w_title w) of
        Some s \<Rightarrow> if is_relogin_title (w_title w) then Some ReconnectingSession else Some s
      | None \<Rightarrow> first_blocking ws)"

definition check_blocking_dialog :: "window_info list option \<Rightarrow> sm_state option" where
  "check_blocking_dialog ws = (case ws of None \<Rightarrow> None | Some l \<Rightarrow> first_blocking l)"

section \<open>Retry texts\<close>

definition is_twofa_failure :: "string \<Rightarrow> bool" where
  "is_twofa_failure text =
     (let lower = to_lowercase text in
        any_contained [''security code'', ''authentication code'', ''verification code'', ''2fa'',
          ''two-factor'', ''second factor''] lower
      \<and> any_contained [''incorrect'', ''invalid'', ''failed'', ''not valid'', ''try again'', ''retry''] lower)"

fun split_by :: "(char \<Rightarrow> bool) \<Rightarrow> string \<Rightarrow> string list" where
  "split_by P [] = [[]]"
| "split_by P (c # cs) =
     (if P c then [] # split_by P cs
      else (case split_by P cs of [] \<Rightarrow> [[c]] | p # ps \<Rightarrow> (c # p) # ps))"

definition trim_matches :: "(char \<Rightarrow> bool) \<Rightarrow> string \<Rightarrow> string" where
  "trim_matches P s = rev (dropWhile P (rev (dropWhile P s)))"

definition split_once :: "char \<Rightarrow> string \<Rightarrow> (string \<times> string) option" where
  "split_once d s =
     (case dropWhile (\<lambda>c. c \<noteq> d) s of [] \<Rightarrow> None | _ # r \<Rightarrow> Some (takeWhile (\<lambda>c. c \<noteq> d) s, r))"

definition max_retry_secs :: nat where "max_retry_secs = 3600"

definition clock_token :: "string \<Rightarrow> nat option" where
  "clock_token token =
     (case split_once CHR '':'' (trim_matches (\<lambda>c. \<not> is_digit c \<and> c \<noteq> CHR '':'') token) of
        None \<Rightarrow> None
      | Some (m, s) \<Rightarrow>
          (case (parse_uint u64_max m, parse_uint u64_max s) of
             (Some minutes, Some seconds) \<Rightarrow>
               if seconds < 60
               then Some (min max_retry_secs
                      (saturating_add u64_max (saturating_mul u64_max minutes 60) seconds))
               else None
           | _ \<Rightarrow> None))"

fun first_some :: "('a \<Rightarrow> 'b option) \<Rightarrow> 'a list \<Rightarrow> 'b option" where
  "first_some f [] = None"
| "first_some f (x # xs) = (case f x of None \<Rightarrow> first_some f xs | Some y \<Rightarrow> Some y)"

fun unit_words :: "string list \<Rightarrow> nat \<Rightarrow> bool \<Rightarrow> nat \<times> bool" where
  "unit_words [] tot found = (tot, found)"
| "unit_words (w # ws) tot found =
     (case parse_uint u64_max w of
        None \<Rightarrow> unit_words ws tot found
      | Some v \<Rightarrow>
          (let u = (case ws of [] \<Rightarrow> '''' | n # _ \<Rightarrow> n);
               (t1, f1) = (if starts_with u ''sec'' then (saturating_add u64_max tot v, True) else (tot, found));
               (t2, f2) = (if starts_with u ''min''
                           then (saturating_add u64_max t1 (saturating_mul u64_max v 60), True) else (t1, f1))
           in unit_words ws t2 f2))"

definition is_alnum :: "char \<Rightarrow> bool" where
  "is_alnum c \<longleftrightarrow>
     (let n = (of_char c :: nat) in
        (48 \<le> n \<and> n \<le> 57) \<or> (65 \<le> n \<and> n \<le> 90) \<or> (97 \<le> n \<and> n \<le> 122))"

definition retry_segment :: "string \<Rightarrow> nat option" where
  "retry_segment seg =
     (if \<not> any_contained [''retry'', ''try again'', ''wait'', ''attempt again'', ''until retry''] seg then None
      else (case first_some clock_token (split_whitespace seg) of
              Some n \<Rightarrow> Some n
            | None \<Rightarrow>
                (case unit_words (split_whitespace (map (\<lambda>c. if is_alnum c then c else CHR '' '') seg)) 0 False of
                   (tot, found) \<Rightarrow> if found then Some (min max_retry_secs tot) else None)))"

definition parse_retry_seconds :: "string \<Rightarrow> nat option" where
  "parse_retry_seconds text =
     first_some retry_segment
       (split_by (\<lambda>c. c \<in> {CHR ''.'', CHR ''!'', CHR 0x0A, CHR '';''}) (to_lowercase text))"

section \<open>The observation cache\<close>

record observed_window =
  ow_id :: nat
  ow_title :: string
  ow_class :: string
  ow_has_login_button :: bool

record snapshot_window =
  sw_window_id :: nat
  sw_window_title :: string
  sw_window_class :: string
  sw_has_login_button :: bool

record agent_observation =
  ob_windows :: "observed_window list"
  ob_last_updated :: instant
  ob_last_event_seq :: nat
  ob_synced :: bool

datatype agent_event =
    Hello nat
  | Snapshot nat "snapshot_window list"
  | WindowOpened nat nat string string bool
  | WindowClosed nat nat string
  | Overflow
  | Keepalive
  | LoginFormReady nat nat "string option" "string option"
  | TwofaPrompt string "string list"
  | ErrorDialog string "string option" "string list"
  | ConnectionStatusChanged string string

definition observation_new :: "instant \<Rightarrow> agent_observation" where
  "observation_new now = \<lparr>ob_windows = [], ob_last_updated = now, ob_last_event_seq = 0, ob_synced = False\<rparr>"

definition observe_window :: "snapshot_window \<Rightarrow> observed_window" where
  "observe_window w = \<lparr>ow_id = sw_window_id w, ow_title = sw_window_title w,
     ow_class = sw_window_class w, ow_has_login_button = sw_has_login_button w\<rparr>"

definition apply_snapshot ::
  "instant \<Rightarrow> snapshot_window list \<Rightarrow> nat \<Rightarrow> agent_observation \<Rightarrow> agent_observation" where
  "apply_snapshot now ws seq ob =
     ob\<lparr>ob_windows := map observe_window ws, ob_last_event_seq := seq, ob_last_updated := now, ob_synced := True\<rparr>"

definition window_opened ::
  "instant \<Rightarrow> nat \<Rightarrow> string \<Rightarrow> string \<Rightarrow> bool \<Rightarrow> nat \<Rightarrow> agent_observation \<Rightarrow> agent_observation" where
  "window_opened now i title cls login seq ob =
     ob\<lparr>ob_windows := filter (\<lambda>w. ow_id w \<noteq> i) (ob_windows ob)
          @ [\<lparr>ow_id = i, ow_title = title, ow_class = cls, ow_has_login_button = login\<rparr>],
        ob_last_event_seq := seq, ob_last_updated := now\<rparr>"

definition window_closed :: "instant \<Rightarrow> nat \<Rightarrow> nat \<Rightarrow> agent_observation \<Rightarrow> agent_observation" where
  "window_closed now i seq ob =
     ob\<lparr>ob_windows := filter (\<lambda>w. ow_id w \<noteq> i) (ob_windows ob), ob_last_event_seq := seq, ob_last_updated := now\<rparr>"

definition clear_login_buttons :: "agent_observation \<Rightarrow> agent_observation" where
  "clear_login_buttons ob =
     ob\<lparr>ob_windows := map (\<lambda>w. w\<lparr>ow_has_login_button := False\<rparr>) (ob_windows ob)\<rparr>"

definition mark_desync :: "agent_observation \<Rightarrow> agent_observation" where
  "mark_desync ob = ob\<lparr>ob_synced := False\<rparr>"

definition is_main_gateway_title :: "string \<Rightarrow> bool" where
  "is_main_gateway_title title =
     (let t = to_lowercase title in
        contains_str t ''ib gateway'' \<or> contains_str t ''ibkr gateway''
      \<or> contains_str t ''interactive brokers gateway'')"

definition main_gateway_window :: "agent_observation \<Rightarrow> observed_window option" where
  "main_gateway_window ob =
     find (\<lambda>w. is_main_gateway_title (ow_title w)
             \<and> \<not> contains_str (to_lowercase (ow_title w)) ''configuration'') (ob_windows ob)"

definition has_login_form :: "agent_observation \<Rightarrow> bool" where
  "has_login_form ob \<longleftrightarrow>
     list_ex (\<lambda>w. is_main_gateway_title (ow_title w) \<and> ow_has_login_button w) (ob_windows ob)"

definition has_2fa_dialog :: "agent_observation \<Rightarrow> bool" where
  "has_2fa_dialog ob \<longleftrightarrow> list_ex (\<lambda>w. is_twofa_title (ow_title w)) (ob_windows ob)"

definition has_session_conflict :: "agent_observation \<Rightarrow> bool" where
  "has_session_conflict ob \<longleftrightarrow> list_ex (\<lambda>w. is_conflict_title (ow_title w)) (ob_windows ob)"

definition has_relogin_dialog :: "agent_observation \<Rightarrow> bool" where
  "has_relogin_dialog ob \<longleftrightarrow>
     list_ex (\<lambda>w. let t = to_lowercase (ow_title w) in
        contains_str t ''re-login is required'' \<or> contains_str t ''re-login'' \<or> contains_str t ''relogin'')
       (ob_windows ob)"

section \<open>Properties\<close>

lemma first_some_SomeD: "first_some f xs = Some y \<Longrightarrow> \<exists>x \<in> set xs. f x = Some y"
  by (induction xs) (auto split: option.splits)

lemma clock_token_le: "clock_token t = Some n \<Longrightarrow> n \<le> max_retry_secs"
  by (auto simp: clock_token_def split: option.splits prod.splits if_splits)

lemma retry_segment_le: "retry_segment s = Some n \<Longrightarrow> n \<le> max_retry_secs"
  by (auto simp: retry_segment_def split: option.splits prod.splits if_splits
      dest!: first_some_SomeD dest: clock_token_le)

lemma parse_retry_seconds_le: "parse_retry_seconds t = Some n \<Longrightarrow> n \<le> max_retry_secs"
  by (auto simp: parse_retry_seconds_def dest!: first_some_SomeD dest: retry_segment_le)

lemma check_blocking_cases:
  "check_blocking_dialog ws \<in> {None, Some ReconnectingSession, Some WaitingFor2fa}"
proof -
  have "first_blocking l \<in> {None, Some ReconnectingSession, Some WaitingFor2fa}" for l
    by (induction l) (auto simp: classify_blocking_dialog_def)
  then show ?thesis by (simp add: check_blocking_dialog_def split: option.split)
qed

text \<open>The map of windows a cache stands for.\<close>

definition windows_map :: "agent_observation \<Rightarrow> nat \<Rightarrow> (string \<times> string \<times> bool) option" where
  "windows_map ob i =
     map_of (map (\<lambda>w. (ow_id w, ow_title w, ow_class w, ow_has_login_button w)) (ob_windows ob)) i"

lemma map_of_filter_id:
  "map_of (map (\<lambda>w. (ow_id w, f w)) (filter (\<lambda>w. ow_id w \<noteq> i) ws)) =
     (map_of (map (\<lambda>w. (ow_id w, f w)) ws))(i := None)"
  by (induction ws) auto

text \<open>
  C29. The observation cache refines a map from window ids to windows: an opened event sets
  exactly its id to the new title, class and login flag, also when the id was in use, a
  closed event removes exactly its id, clearing the login buttons changes nothing but
  those flags, and a snapshot installs exactly the windows it lists.
\<close>

theorem observation_refines_map:
  "windows_map (window_opened now i title cls login seq ob) = (windows_map ob)(i \<mapsto> (title, cls, login))
   \<and> windows_map (window_closed now i seq ob) = (windows_map ob)(i := None)
   \<and> windows_map (clear_login_buttons ob) = (\<lambda>j. map_option (\<lambda>(t, c, l). (t, c, False)) (windows_map ob j))
   \<and> windows_map (apply_snapshot now ws seq ob) =
       map_of (map (\<lambda>w. (sw_window_id w, sw_window_title w, sw_window_class w, sw_has_login_button w)) ws)"
proof (intro conjI)
  let ?f = "\<lambda>w. (ow_title w, ow_class w, ow_has_login_button w)"
  show "windows_map (window_opened now i title cls login seq ob) = (windows_map ob)(i \<mapsto> (title, cls, login))"
    by (rule ext) (simp add: windows_map_def window_opened_def map_of_filter_id [of ?f] map_add_def
        split: option.split)
  show "windows_map (window_closed now i seq ob) = (windows_map ob)(i := None)"
    by (rule ext) (simp add: windows_map_def window_closed_def map_of_filter_id [of ?f])
  show "windows_map (clear_login_buttons ob) = (\<lambda>j. map_option (\<lambda>(t, c, l). (t, c, False)) (windows_map ob j))"
  proof -
    have "map_of (map (\<lambda>w. (ow_id w, ow_title w, ow_class w, False)) ws) j =
        map_option (\<lambda>(t, c, l). (t, c, False)) (map_of (map (\<lambda>w. (ow_id w, ?f w)) ws) j)" for ws j
      by (induction ws) auto
    then show ?thesis by (intro ext) (simp add: windows_map_def clear_login_buttons_def comp_def)
  qed
  show "windows_map (apply_snapshot now ws seq ob) =
     map_of (map (\<lambda>w. (sw_window_id w, sw_window_title w, sw_window_class w, sw_has_login_button w)) ws)"
    by (rule ext) (simp add: windows_map_def apply_snapshot_def observe_window_def comp_def)
qed

end
