(* ===== verification/State_Machine.thy ===== *)
theory State_Machine
  imports Recovery_Coordinator Cold_Restart Revocation Gateway_Ui
begin

text \<open>
  The controller's state (\<open>state_machine/types.rs\<close>, \<open>config.rs\<close>) and the operations of
  \<open>state_machine/mod.rs\<close> that change it outside the per-state handlers: applying a
  transition, commands, interrupts, agent events, the IB-status gate and the recovery tick.
  The fields of the struct are grouped into records; a background task is the flag that its
  handle is held; calls that leave the process (the JVM, socat, the agent's UI actions) are
  appended to \<open>sm_effects\<close>; marker files live on the modelled disk. Publishing status
  snapshots and answering queries do not change the controller and are left out.
\<close>

section \<open>Configuration\<close>

datatype trading_mode = Live | Paper | Both
datatype twofa_timeout_action = TimeoutRestart | TimeoutExit
datatype twofa_on_timeout = RestartThenHitl | RestartForever | HitlImmediately
datatype hitl_strategy = HitlDisabled | HitlPeriodic | HitlNtfyCallback | HitlBoth
datatype counter_reset_scope = AnyReach | Stable
datatype relogin_failure_action = FailureReauth | FailureRestart

record twofa_backoff_config =
  bo_max_immediate_attempts :: nat
  bo_on_timeout :: twofa_on_timeout
  bo_strategy :: hitl_strategy
  bo_intervals_minutes :: "nat list"
  bo_counter_reset :: counter_reset_scope
  bo_stable_secs :: nat
  bo_cold_restart_preempts_hitl :: bool

record twofa_config =
  tc_timeout_action :: twofa_timeout_action
  tc_timeout_seconds :: nat
  tc_device :: string
  tc_relogin_after_timeout :: bool
  tc_has_secret :: bool
  tc_backoff :: twofa_backoff_config

record gateway_config =
  gw_live_api_port :: nat
  gw_paper_api_port :: nat
  gw_live_socat_port :: nat
  gw_paper_socat_port :: nat

record timing_config =
  ti_login_dialog_timeout_secs :: nat
  ti_restart_delay_secs :: nat
  ti_relogin_max_attempts :: nat
  ti_relogin_failure_action :: relogin_failure_action
  ti_api_port_probe_interval_secs :: nat
  ti_api_port_probe_fails_before_revoke :: nat
  ti_min_success_dwell_secs :: nat

record sm_config =
  cf_tws_path :: string
  cf_auto_launch :: bool
  cf_trading_mode :: trading_mode
  cf_kick_active_session :: bool
  cf_twofa :: twofa_config
  cf_gateway :: gateway_config
  cf_timing :: timing_config

definition default_backoff :: twofa_backoff_config where
  "default_backoff = \<lparr>bo_max_immediate_attempts = 3, bo_on_timeout = RestartThenHitl,
     bo_strategy = HitlPeriodic, bo_intervals_minutes = [60], bo_counter_reset = AnyReach,
     bo_stable_secs = 300, bo_cold_restart_preempts_hitl = True\<rparr>"

definition default_timing :: timing_config where
  "default_timing = \<lparr>ti_login_dialog_timeout_secs = 120, ti_restart_delay_secs = 90,
     ti_relogin_max_attempts = 1, ti_relogin_failure_action = FailureReauth,
     ti_api_port_probe_interval_secs = 5, ti_api_port_probe_fails_before_revoke = 3,
     ti_min_success_dwell_secs = 60\<rparr>"

section \<open>State\<close>

record twofa_state =
  tf_device_selected :: bool
  tf_seen :: bool
  tf_gone_at :: "instant option"
  tf_retry_not_before :: "instant option"
  tf_retry_waiting_for_screen :: bool
  tf_consecutive_timeouts :: nat

record hitl_state =
  hi_entered_at :: "instant option"
  hi_next_retry_at :: "instant option"
  hi_intervals_index :: nat
  hi_ntfy_attempts :: nat
  hi_ntfy_sent :: bool
  hi_login_form_ticks :: nat
  hi_connected_ticks :: nat

record ib_system_status =
  ib_available :: bool
  ib_status :: string
  ib_reason :: string
  ib_last_updated :: "instant option"
  ib_return_state :: "sm_state option"

record pause_control =
  pc_paused :: bool
  pc_ceiling :: "sm_state option"

record cold_restart_skip_record =
  sk_recorded_at :: zoned
  sk_reason :: skip_reason

text \<open>
  \<open>sm_dwell_guard\<close> holds the instant the pending dwell task was started and whether it has
  already delivered its success.
\<close>

datatype effect =
    KillJvm | WaitJvm | LaunchJvm "string option" | RemoveAgentSocket | ResetHandlers
  | StartSocat nat nat | StopSocat | ClickButton nat string | SelectListItem nat string
  | SendKey nat string | ClickMenu nat string | DispatchNamed string nat | DispatchWindow nat
  | ApplyApiConfig nat | SetAutoRestartTime string | VerifyTime string | WriteSettingsGood string zoned
  | WriteRecycleMarker string nat

record state_machine =
  sm_st :: sm_state
  sm_config :: sm_config
  sm_socat :: bool
  sm_config_retries :: nat
  sm_pause :: pause_control
  sm_ib :: ib_system_status
  sm_connected_since :: "instant option"
  sm_history :: "transition_entry list"
  sm_cached_client_ids :: "string list"
  sm_warm_restart_pending :: "string option"
  sm_client_id_task :: bool
  sm_relogin_attempts :: nat
  sm_connected_window_class :: "string option"
  sm_twofa :: twofa_state
  sm_state_entered_at :: instant
  sm_popup_last_dismissed :: "instant option"
  sm_agent_failures :: nat
  sm_observation :: agent_observation
  sm_label_drift :: "nat \<times> nat"
  sm_revocation :: revocation_tracker
  sm_connection_event_disconnected :: bool
  sm_jvm_restarts :: nat
  sm_settings_good_marked :: bool
  sm_hitl :: hitl_state
  sm_connected_continuously_since :: "instant option"
  sm_probe_failed :: bool
  sm_probe_task :: bool
  sm_equiv_path :: path
  sm_equiv_pending :: bool
  sm_last_skip :: "cold_restart_skip_record option"
  sm_recovery :: coordinator
  sm_dwell_guard :: "(instant \<times> bool) option"
  sm_dwell_queue :: "(zoned \<times> instant) list"
  sm_pending_token :: "resume_token option"
  sm_mode_tag :: string
  sm_disk :: disk
  sm_effects :: "effect list"

text \<open>The external code the controller relies on.\<close>

record params =
  pr_codec :: codec
  pr_sip :: byte_hash
  pr_zt :: zoned_text

section \<open>Elementary operations\<close>

definition emit :: "effect \<Rightarrow> state_machine \<Rightarrow> state_machine" where
  "emit e sm = sm\<lparr>sm_effects := sm_effects sm @ [e]\<rparr>"

definition chrono_timestamp :: "zoned \<Rightarrow> string" where
  "chrono_timestamp wall = show_nat (nat (z_second_of_epoch wall))"

definition sm_record :: "zoned \<Rightarrow> sm_state \<Rightarrow> sm_state \<Rightarrow> state_machine \<Rightarrow> state_machine" where
  "sm_record wall from to sm =
     sm\<lparr>sm_history := record_transition (chrono_timestamp wall) from to (sm_history sm)\<rparr>"

definition abort_client_id_task :: "state_machine \<Rightarrow> state_machine" where
  "abort_client_id_task sm = sm\<lparr>sm_client_id_task := False\<rparr>"

definition stop_socat :: "state_machine \<Rightarrow> state_machine" where
  "stop_socat sm = (if sm_socat sm then (emit StopSocat sm)\<lparr>sm_socat := False\<rparr> else sm)"

text \<open>\<open>spawn_ok\<close>: whether the \<open>socat\<close> process could be started.\<close>

definition start_socat :: "bool \<Rightarrow> nat \<Rightarrow> nat \<Rightarrow> state_machine \<Rightarrow> state_machine" where
  "start_socat spawn_ok api_port socat_port sm =
     (let sm1 = emit (StartSocat api_port socat_port) (stop_socat sm)
      in if spawn_ok then sm1\<lparr>sm_socat := True\<rparr> else sm1)"

definition api_port_of :: "sm_config \<Rightarrow> nat" where
  "api_port_of cf = (if cf_trading_mode cf = Paper then gw_paper_api_port (cf_gateway cf)
                     else gw_live_api_port (cf_gateway cf))"

definition socat_port_of :: "sm_config \<Rightarrow> nat" where
  "socat_port_of cf = (if cf_trading_mode cf = Paper then gw_paper_socat_port (cf_gateway cf)
                       else gw_live_socat_port (cf_gateway cf))"

definition stop_api_port_probe :: "state_machine \<Rightarrow> state_machine" where
  "stop_api_port_probe sm = sm\<lparr>sm_probe_task := False, sm_probe_failed := False\<rparr>"

definition start_api_port_probe :: "state_machine \<Rightarrow> state_machine" where
  "start_api_port_probe sm =
     (let sm1 = stop_api_port_probe sm
      in if ti_api_port_probe_interval_secs (cf_timing (sm_config sm)) = 0 then sm1
         else sm1\<lparr>sm_probe_failed := False, sm_probe_task := True\<rparr>)"

text \<open>One round of the probe task: the failure count and whether it raises the flag.\<close>

definition probe_round :: "nat \<Rightarrow> bool \<Rightarrow> nat \<Rightarrow> nat \<times> bool" where
  "probe_round threshold ok failures =
     (if ok then (0, False)
      else (let n = saturating_add u32_max failures 1 in (n, n \<ge> threshold)))"

definition do_shutdown :: "bool \<Rightarrow> state_machine \<Rightarrow> state_machine" where
  "do_shutdown running sm =
     (let sm1 = stop_socat sm;
          sm2 = (if running then emit KillJvm sm1 else sm1)
      in emit RemoveAgentSocket sm2)"

text \<open>Kill, reap, remove the socket and reset the handlers: the common tail of a halt.\<close>

definition halt_jvm :: "bool \<Rightarrow> state_machine \<Rightarrow> state_machine" where
  "halt_jvm running sm =
     (let sm1 = stop_socat (abort_client_id_task sm);
          sm2 = (if running then emit WaitJvm (emit KillJvm sm1) else sm1)
      in emit ResetHandlers (emit RemoveAgentSocket sm2))"

section \<open>Applying a transition\<close>

definition at_ceiling :: "sm_state \<Rightarrow> state_machine \<Rightarrow> state_machine" where
  "at_ceiling next sm =
     (if pc_ceiling (sm_pause sm) = Some next
      then sm\<lparr>sm_pause := \<lparr>pc_paused = True, pc_ceiling = None\<rparr>\<rparr> else sm)"

definition at_twofa_answered :: "sm_state \<Rightarrow> state_machine \<Rightarrow> state_machine" where
  "at_twofa_answered next sm =
     (let sm1 = (if sm_st sm = WaitingFor2fa \<and> tf_seen (sm_twofa sm)
                    \<and> next \<in> {DismissingPopups, WaitingForApiReady, ConfiguringApi, Connected}
                 then sm\<lparr>sm_equiv_pending := True\<rparr> else sm)
      in if sm_st sm = WaitingForHitl2fa \<and> next = WaitingForApiReady
         then sm1\<lparr>sm_equiv_pending := True\<rparr> else sm1)"

definition at_dwell :: "instant \<Rightarrow> sm_state \<Rightarrow> state_machine \<Rightarrow> state_machine" where
  "at_dwell now next sm =
     (if next = Connected \<and> sm_st sm \<noteq> Connected then sm\<lparr>sm_dwell_guard := Some (now, False)\<rparr>
      else if sm_st sm = Connected \<and> next \<noteq> Connected then sm\<lparr>sm_dwell_guard := None\<rparr>
      else sm)"

definition enter_connected :: "params \<Rightarrow> instant \<Rightarrow> zoned \<Rightarrow> state_machine \<Rightarrow> state_machine" where
  "enter_connected pr now wall sm =
     (let sm1 = sm\<lparr>sm_connection_event_disconnected := False\<rparr>;
          sm2 = (if is_credential_gathering (sm_st sm1) \<and> sm_equiv_pending sm1
                 then sm1\<lparr>sm_disk := fst (write_cold_restart_equivalent_marker (pr_zt pr)
                                            (sm_equiv_path sm1) wall (sm_disk sm1))\<rparr>
                 else sm1);
          sm3 = sm2\<lparr>sm_equiv_pending := False, sm_connected_since := Some now,
                    sm_twofa := (sm_twofa sm2)\<lparr>tf_retry_not_before := None, tf_retry_waiting_for_screen := False\<rparr>,
                    sm_relogin_attempts := 0, sm_connected_continuously_since := Some now\<rparr>;
          sm4 = (if bo_counter_reset (tc_backoff (cf_twofa (sm_config sm3))) = AnyReach
                 then sm3\<lparr>sm_twofa := (sm_twofa sm3)\<lparr>tf_consecutive_timeouts := 0\<rparr>\<rparr> else sm3)
      in start_api_port_probe sm4)"

definition leave_connected :: "state_machine \<Rightarrow> state_machine" where
  "leave_connected sm =
     (let sm1 = sm\<lparr>sm_connected_since := None, sm_connected_continuously_since := None,
                   sm_settings_good_marked := False\<rparr>;
          sm2 = stop_api_port_probe sm1;
          sm3 = sm2\<lparr>sm_revocation := rev_clear_all (sm_revocation sm2), sm_connection_event_disconnected := False\<rparr>;
          sm4 = (abort_client_id_task sm3)\<lparr>sm_connected_window_class := None\<rparr>
      in stop_socat (emit ResetHandlers sm4))"

definition at_connection :: "params \<Rightarrow> instant \<Rightarrow> zoned \<Rightarrow> sm_state \<Rightarrow> state_machine \<Rightarrow> state_machine" where
  "at_connection pr now wall next sm =
     (if next = Connected \<and> sm_st sm \<noteq> Connected then enter_connected pr now wall sm
      else if sm_st sm = Connected \<and> next \<noteq> Connected then leave_connected sm
      else if next \<noteq> Connected
      then sm\<lparr>sm_connected_since := None, sm_connected_continuously_since := None\<rparr>
      else sm)"

definition hitl_cleared :: hitl_state where
  "hitl_cleared = \<lparr>hi_entered_at = None, hi_next_retry_at = None, hi_intervals_index = 0,
     hi_ntfy_attempts = 0, hi_ntfy_sent = False, hi_login_form_ticks = 0, hi_connected_ticks = 0\<rparr>"

definition at_leave_hitl :: "sm_state \<Rightarrow> state_machine \<Rightarrow> state_machine" where
  "at_leave_hitl next sm =
     (if sm_st sm = WaitingForHitl2fa \<and> next \<noteq> WaitingForHitl2fa then sm\<lparr>sm_hitl := hitl_cleared\<rparr> else sm)"

definition at_entry :: "instant \<Rightarrow> sm_state \<Rightarrow> state_machine \<Rightarrow> state_machine" where
  "at_entry now next sm =
     (let sm1 = (if next \<in> {WaitingForLogin, WaitingFor2fa, Launching, Restarting}
                 then sm\<lparr>sm_twofa := (sm_twofa sm)\<lparr>tf_device_selected := False\<rparr>\<rparr> else sm);
          sm2 = (if next \<in> {Shutdown, WaitingForLaunch} then sm1\<lparr>sm_warm_restart_pending := None\<rparr> else sm1);
          sm3 = (if next \<in> {Restarting, Launching} then sm2\<lparr>sm_observation := observation_new now\<rparr>
                 else if next = WaitingFor2fa
                 then sm2\<lparr>sm_twofa := (sm_twofa sm2)\<lparr>tf_seen := False, tf_gone_at := None\<rparr>\<rparr>
                 else if next = DismissingPopups then sm2\<lparr>sm_popup_last_dismissed := None\<rparr>
                 else if next = ReconnectingSession
                 then sm2\<lparr>sm_relogin_attempts := sm_relogin_attempts sm2 + 1\<rparr>
                 else sm2);
          sm4 = (if next = Launching then sm3\<lparr>sm_equiv_pending := False\<rparr> else sm3)
      in if next \<in> {DismissingPopups, WaitingFor2fa, WaitingForApiReady, ConfiguringApi, Connected}
         then sm4\<lparr>sm_observation := clear_login_buttons (sm_observation sm4)\<rparr> else sm4)"

text \<open>\<open>running\<close> is what the supervisor answers should the transition shut the process down.\<close>

definition apply_transition ::
  "params \<Rightarrow> instant \<Rightarrow> zoned \<Rightarrow> bool \<Rightarrow> sm_state \<Rightarrow> state_machine \<Rightarrow> state_machine" where
  "apply_transition pr now wall running next sm =
     (let sm1 = at_ceiling next sm;
          sm2 = sm_record wall (sm_st sm1) next sm1;
          sm3 = sm2\<lparr>sm_state_entered_at := now, sm_agent_failures := 0\<rparr>;
          sm4 = at_twofa_answered next sm3;
          sm5 = at_dwell now next sm4;
          sm6 = at_connection pr now wall next sm5;
          sm7 = at_leave_hitl next sm6;
          sm8 = at_entry now next sm7
      in case next of
           Shutdown \<Rightarrow> (do_shutdown running (abort_client_id_task sm8))\<lparr>sm_st := Shutdown\<rparr>
         | ErrorState msg \<Rightarrow> sm8\<lparr>sm_st := Restarting\<rparr>
         | _ \<Rightarrow> sm8\<lparr>sm_st := next\<rparr>)"

section \<open>Commands\<close>

datatype command =
    CmdStop | CmdStart | CmdRestart | CmdReconnectData | CmdReconnectAccount | CmdEnableApi | CmdExit
  | CmdRestartSocat | CmdPause | CmdPauseAt string | CmdResume | CmdSetState string
  | CmdIbStatus string string | CmdSetRestartTime string | CmdSaveSettings | CmdHitlResume
  | CmdResumeReconnect string

text \<open>
  What the environment answers while one command, interrupt or handler runs: the clocks,
  whether the JVM runs, the n-th window list (\<open>None\<close> for an error), component dumps by
  window, whether \<open>socat\<close> spawns, and further answers of the agent and the handlers.
\<close>

datatype dispatch_result = Handled | NotApplicable | HandlerError string | DispatchFailed

record world =
  wd_now :: instant
  wd_wall :: zoned
  wd_running :: bool
  wd_windows :: "nat \<Rightarrow> window_info list option"
  wd_dump :: "nat \<Rightarrow> json option"
  wd_socat_alive :: bool
  wd_socat_spawns :: bool
  wd_menu :: "nat \<Rightarrow> string \<Rightarrow> bool option"
  wd_dispatch :: "nat \<Rightarrow> dispatch_result option"
  wd_dispatch_named :: "string \<Rightarrow> nat \<Rightarrow> dispatch_result option"
  wd_getenv :: "string \<Rightarrow> string option"
  wd_tws_path_exists :: bool
  wd_launch_ok :: bool
  wd_agent_healthy :: bool
  wd_select_item :: "nat \<Rightarrow> string \<Rightarrow> bool option"
  wd_api_config :: "(nat \<times> nat) option"
  wd_autorestart :: "string option"
  wd_new_client_ids :: "string list option"
  wd_still_running :: bool
  wd_socat_alive_later :: bool

definition send_key_first :: "world \<Rightarrow> string \<Rightarrow> state_machine \<Rightarrow> state_machine" where
  "send_key_first wd key sm =
     (case wd_windows wd 0 of
        Some (w # ws) \<Rightarrow> emit (SendKey (w_id w) key) sm
      | _ \<Rightarrow> sm)"

text \<open>\<open>save_tws_settings\<close> and \<open>dismiss_post_save_dialogs\<close> (the second window list).\<close>

definition dismiss_post_save_dialogs :: "world \<Rightarrow> state_machine \<Rightarrow> state_machine" where
  "dismiss_post_save_dialogs wd sm =
     (case wd_windows wd 1 of
        None \<Rightarrow> sm
      | Some ws \<Rightarrow>
          fold (\<lambda>w s. let t = to_lowercase (w_title w) in
                  if contains_str t ''gateway'' \<or> contains_str t ''trader workstation'' then s
                  else emit (ClickButton (w_id w) ''Yes'') (emit (ClickButton (w_id w) ''OK'') s)) ws sm)"

definition save_main_window :: "window_info list \<Rightarrow> window_info option" where
  "save_main_window ws =
     (case find (\<lambda>w. is_gateway_title (w_title w)
                   \<or> contains_str (to_lowercase (w_title w)) ''trader workstation'') ws of
        Some w \<Rightarrow> Some w
      | None \<Rightarrow> (case ws of [] \<Rightarrow> None | w # _ \<Rightarrow> Some w))"

definition save_tws_settings :: "world \<Rightarrow> state_machine \<Rightarrow> state_machine" where
  "save_tws_settings wd sm =
     (if \<not> wd_running wd then sm
      else (case wd_windows wd 0 of
              None \<Rightarrow> sm
            | Some ws \<Rightarrow>
                (case save_main_window ws of
                   None \<Rightarrow> sm
                 | Some w \<Rightarrow>
                     (let p1 = ''File/Save Settings''; p2 = ''File/Save settings'';
                          sm1 = emit (ClickMenu (w_id w) p1) sm
                      in if wd_menu wd (w_id w) p1 = Some True then dismiss_post_save_dialogs wd sm1
                         else (let sm2 = emit (ClickMenu (w_id w) p2) sm1
                               in if wd_menu wd (w_id w) p2 = Some True
                                  then dismiss_post_save_dialogs wd sm2 else sm2)))))"

definition handle_command :: "world \<Rightarrow> command \<Rightarrow> state_machine \<Rightarrow> state_machine" where
  "handle_command wd cmd sm =
     (case cmd of
        CmdIbStatus status reason \<Rightarrow>
          sm\<lparr>sm_ib := (sm_ib sm)\<lparr>ib_available := (status = ''available''), ib_status := status,
               ib_reason := reason, ib_last_updated := Some (wd_now wd)\<rparr>\<rparr>
      | CmdRestartSocat \<Rightarrow>
          start_socat (wd_socat_spawns wd) (api_port_of (sm_config sm)) (socat_port_of (sm_config sm))
            (stop_socat sm)
      | CmdReconnectData \<Rightarrow> send_key_first wd ''ctrl+f'' sm
      | CmdReconnectAccount \<Rightarrow> send_key_first wd ''ctrl+r'' sm
      | CmdSaveSettings \<Rightarrow> save_tws_settings wd sm
      | CmdPause \<Rightarrow> sm\<lparr>sm_pause := \<lparr>pc_paused = True, pc_ceiling = None\<rparr>\<rparr>
      | CmdPauseAt name \<Rightarrow>
          (case from_name name of
             None \<Rightarrow> sm
           | Some target \<Rightarrow>
               if target = sm_st sm then sm\<lparr>sm_pause := \<lparr>pc_paused = True, pc_ceiling = None\<rparr>\<rparr>
               else sm\<lparr>sm_pause := (sm_pause sm)\<lparr>pc_ceiling := Some target\<rparr>\<rparr>)
      | CmdResume \<Rightarrow> sm\<lparr>sm_pause := \<lparr>pc_paused = False, pc_ceiling = None\<rparr>\<rparr>
      | CmdSetState name \<Rightarrow>
          (case from_name name of
             None \<Rightarrow> sm
           | Some new \<Rightarrow> sm_record (wd_wall wd) (sm_st sm) new (sm\<lparr>sm_st := new\<rparr>))
      | CmdHitlResume \<Rightarrow>
          (if sm_st sm = WaitingForHitl2fa
           then sm_record (wd_wall wd) WaitingForHitl2fa Restarting (sm\<lparr>sm_st := Restarting\<rparr>) else sm)
      | CmdResumeReconnect tok \<Rightarrow>
          (if co_phase (sm_recovery sm) \<noteq> GivenUp \<and> \<not> co_blocked_awaiting_resume (sm_recovery sm) then sm
           else sm\<lparr>sm_pending_token := Some \<lparr>rt_mode = sm_mode_tag sm,
                     rt_minted_at = z_second_of_epoch (wd_wall wd), rt_nonce_material = tok\<rparr>\<rparr>)
      | CmdSetRestartTime t \<Rightarrow> emit (SetAutoRestartTime t) sm
      | _ \<Rightarrow> sm)"

definition dispatch_command :: "world \<Rightarrow> command \<Rightarrow> state_machine \<Rightarrow> state_machine" where
  "dispatch_command wd cmd sm =
     (case cmd of
        CmdStop \<Rightarrow>
          (if sm_st sm = WaitingForLaunch then sm
           else sm_record (wd_wall wd) (sm_st sm) WaitingForLaunch
                  ((halt_jvm (wd_running wd) sm)\<lparr>sm_st := WaitingForLaunch\<rparr>))
      | CmdExit \<Rightarrow> (abort_client_id_task sm)\<lparr>sm_st := Shutdown\<rparr>
      | CmdStart \<Rightarrow>
          (if sm_st sm = WaitingForLaunch
           then sm_record (wd_wall wd) WaitingForLaunch Init (sm\<lparr>sm_st := Init\<rparr>) else sm)
      | CmdRestart \<Rightarrow> (abort_client_id_task sm)\<lparr>sm_st := Restarting\<rparr>
      | _ \<Rightarrow> handle_command wd cmd sm)"

section \<open>Agent events\<close>

text \<open>A rejected second factor: block credential submission as long as the server says.\<close>

definition block_retry :: "instant \<Rightarrow> nat option \<Rightarrow> twofa_state \<Rightarrow> twofa_state" where
  "block_retry now server_wait tf =
     (case server_wait of
        Some n \<Rightarrow> tf\<lparr>tf_retry_not_before := Some (now + 1000 * int (saturating_add u64_max n 2)),
                     tf_retry_waiting_for_screen := False\<rparr>
      | None \<Rightarrow> tf\<lparr>tf_retry_not_before := None, tf_retry_waiting_for_screen := True\<rparr>)"

definition handle_error_dialog ::
  "instant \<Rightarrow> string \<Rightarrow> string option \<Rightarrow> string list \<Rightarrow> state_machine \<Rightarrow> state_machine" where
  "handle_error_dialog now title message buttons sm =
     (let combined = title @ '' '' @ (case message of None \<Rightarrow> [] | Some m \<Rightarrow> m) @ '' '' @ join_space buttons
      in if is_twofa_failure combined
         then emit (VerifyTime ''twofa_failure'')
                ((emit ResetHandlers sm)\<lparr>sm_twofa := block_retry now (parse_retry_seconds combined) (sm_twofa sm)\<rparr>)
         else sm)"

definition handle_connection_status :: "instant \<Rightarrow> string \<Rightarrow> state_machine \<Rightarrow> state_machine" where
  "handle_connection_status now to sm =
     (if sm_st sm \<noteq> Connected then sm
      else if eq_ignore_ascii_case to ''disconnected''
      then sm\<lparr>sm_connection_event_disconnected := True,
              sm_revocation := fst (rev_observe now ConnectionStatusEvent (sm_revocation sm))\<rparr>
      else if eq_ignore_ascii_case to ''connected''
      then sm\<lparr>sm_connection_event_disconnected := False,
              sm_revocation := rev_clear TagConnectionStatusEvent (sm_revocation sm)\<rparr>
      else sm)"

fun handle_agent_event :: "instant \<Rightarrow> agent_event \<Rightarrow> state_machine \<Rightarrow> state_machine" where
  "handle_agent_event now (Hello v) sm = sm"
| "handle_agent_event now (Snapshot seq ws) sm =
     sm\<lparr>sm_observation := apply_snapshot now ws seq (sm_observation sm)\<rparr>"
| "handle_agent_event now (WindowOpened seq i title cls login) sm =
     sm\<lparr>sm_observation := window_opened now i title cls login seq (sm_observation sm)\<rparr>"
| "handle_agent_event now (WindowClosed seq i title) sm =
     sm\<lparr>sm_observation := window_closed now i seq (sm_observation sm)\<rparr>"
| "handle_agent_event now Overflow sm = sm\<lparr>sm_observation := mark_desync (sm_observation sm)\<rparr>"
| "handle_agent_event now Keepalive sm = sm"
| "handle_agent_event now (LoginFormReady n k b m) sm = sm"
| "handle_agent_event now (TwofaPrompt t ds) sm = sm"
| "handle_agent_event now (ErrorDialog title message buttons) sm =
     handle_error_dialog now title message buttons sm"
| "handle_agent_event now (ConnectionStatusChanged from to) sm = handle_connection_status now to sm"

section \<open>Interrupts\<close>

datatype interrupt =
    IntSignal signal | IntCommand command | IntColdRestart cold_restart_signal | IntAgentEvent agent_event

definition is_dormant :: "sm_state \<Rightarrow> bool" where
  "is_dormant s \<longleftrightarrow>
     (case s of WaitingForLaunch \<Rightarrow> True | Shutdown \<Rightarrow> True | ErrorState m \<Rightarrow> True
      | WaitingForHitl2fa \<Rightarrow> True | _ \<Rightarrow> False)"

definition skip_record :: "zoned \<Rightarrow> skip_reason \<Rightarrow> state_machine \<Rightarrow> state_machine" where
  "skip_record wall reason sm = sm\<lparr>sm_last_skip := Some \<lparr>sk_recorded_at = wall, sk_reason = reason\<rparr>\<rparr>"

definition handle_interrupt :: "world \<Rightarrow> interrupt \<Rightarrow> state_machine \<Rightarrow> state_machine" where
  "handle_interrupt wd i sm =
     (case i of
        IntSignal Terminate \<Rightarrow> (abort_client_id_task sm)\<lparr>sm_st := Shutdown\<rparr>
      | IntSignal Interrupt \<Rightarrow> (abort_client_id_task sm)\<lparr>sm_st := Shutdown\<rparr>
      | IntSignal (RecoveryGaveUp mode at) \<Rightarrow> sm
      | IntCommand cmd \<Rightarrow> dispatch_command wd cmd sm
      | IntColdRestart ColdFire \<Rightarrow>
          (if is_dormant (sm_st sm) then skip_record (wd_wall wd) DormantSite sm
           else (abort_client_id_task (sm\<lparr>sm_last_skip := None\<rparr>))\<lparr>sm_st := Restarting\<rparr>)
      | IntColdRestart (ColdSkipped reason) \<Rightarrow> skip_record (wd_wall wd) reason sm
      | IntAgentEvent e \<Rightarrow> handle_agent_event (wd_now wd) e sm)"

section \<open>Bookkeeping before each transition\<close>

definition ib_status_ttl_secs :: nat where "ib_status_ttl_secs = 600"

definition check_ib_status_ttl :: "instant \<Rightarrow> state_machine \<Rightarrow> state_machine" where
  "check_ib_status_ttl now sm =
     (case ib_last_updated (sm_ib sm) of
        Some last_update \<Rightarrow>
          if elapsed_ms now last_update > 1000 * ib_status_ttl_secs \<and> \<not> ib_available (sm_ib sm)
          then sm\<lparr>sm_ib := (sm_ib sm)\<lparr>ib_available := True, ib_status := ''available'', ib_reason := []\<rparr>\<rparr>
          else sm
      | None \<Rightarrow> sm)"

definition is_post_auth :: "sm_state \<Rightarrow> bool" where
  "is_post_auth s \<longleftrightarrow> s \<in> {Connected, DismissingPopups, WaitingForApiReady, ConfiguringApi}"

definition check_ib_system_availability :: "zoned \<Rightarrow> state_machine \<Rightarrow> state_machine" where
  "check_ib_system_availability wall sm =
     (if ib_available (sm_ib sm) then sm
      else if sm_st sm \<in> {WaitingForIB, Shutdown, WaitingForLaunch} then sm
      else if is_post_auth (sm_st sm) \<and> \<not> cf_kick_active_session (sm_config sm) then sm
      else sm_record wall (sm_st sm) WaitingForIB
             (sm\<lparr>sm_ib := (sm_ib sm)\<lparr>ib_return_state := Some (sm_st sm)\<rparr>, sm_st := WaitingForIB\<rparr>))"

text \<open>Draining the dwell queue: a success counts only while the controller is Connected.\<close>

fun drain_dwell :: "codec \<Rightarrow> (zoned \<times> instant) list \<Rightarrow> state_machine \<Rightarrow> state_machine" where
  "drain_dwell c [] sm = sm\<lparr>sm_dwell_queue := []\<rparr>"
| "drain_dwell c ((w, m) # q) sm =
     (if sm_st sm \<noteq> Connected then drain_dwell c q sm
      else if co_phase (sm_recovery sm) = GivenUp then drain_dwell c q (sm\<lparr>sm_dwell_guard := None\<rparr>)
      else (case record_success c w m (sm_recovery sm) (sm_disk sm) of
              (co, d, r) \<Rightarrow> drain_dwell c q (sm\<lparr>sm_recovery := co, sm_disk := d\<rparr>)))"

definition active_recovery :: "sm_state \<Rightarrow> bool" where
  "active_recovery s \<longleftrightarrow>
     s \<in> {Init, Launching, WaitingForAgent, WaitingForLogin, Authenticating, WaitingFor2fa,
          HandlingSessionConflict, DismissingPopups, WaitingForApiReady, ConfiguringApi, Connected,
          ReconnectingSession, Restarting}"

definition giveup_halt :: "zoned \<Rightarrow> bool \<Rightarrow> state_machine \<Rightarrow> state_machine" where
  "giveup_halt wall running sm =
     (let sm1 = sm\<lparr>sm_dwell_guard := None\<rparr>
      in case sm_st sm1 of
           WaitingForLaunch \<Rightarrow> sm1 | Shutdown \<Rightarrow> sm1 | ErrorState m \<Rightarrow> sm1
         | _ \<Rightarrow> sm_record wall (sm_st sm1) WaitingForLaunch
                 ((halt_jvm running sm1)\<lparr>sm_st := WaitingForLaunch\<rparr>))"

definition applied_effect :: "zoned \<Rightarrow> bool \<Rightarrow> applied_action \<Rightarrow> state_machine \<Rightarrow> state_machine" where
  "applied_effect wall running a sm =
     (case a of
        FiredGiveUpAlert \<Rightarrow> giveup_halt wall running sm
      | ResumedToAggressive \<Rightarrow>
          (if sm_st sm = WaitingForLaunch
           then sm_record wall WaitingForLaunch Init (sm\<lparr>sm_st := Init\<rparr>) else sm)
      | _ \<Rightarrow> sm)"

text \<open>
  The recovery tick: drop a stale dwell guard, credit dwell successes, and in the active
  states run the coordinator once with the pending token, no cold restart pending and a
  failure streak of zero. A panic of the decision function is the only failure.
\<close>

definition tick_recovery :: "params \<Rightarrow> instant \<Rightarrow> zoned \<Rightarrow> bool \<Rightarrow> state_machine \<Rightarrow> state_machine rust" where
  "tick_recovery pr now wall running sm =
     (let sm1 = (if sm_st sm \<noteq> Connected \<and> sm_dwell_guard sm \<noteq> None then sm\<lparr>sm_dwell_guard := None\<rparr> else sm);
          sm2 = drain_dwell (pr_codec pr) (sm_dwell_queue sm1) sm1
      in if \<not> active_recovery (sm_st sm2) then Inr sm2
         else (case coordinator_tick (pr_codec pr) (pr_sip pr) wall now False 0 (sm_pending_token sm2)
                      (sm_recovery sm2) (sm_disk sm2) of
                 Inl p \<Rightarrow> Inl p
               | Inr (co, d, sigs, r) \<Rightarrow>
                   (let sm3 = sm2\<lparr>sm_pending_token := None, sm_recovery := co, sm_disk := d\<rparr>
                    in Inr (case r of
                              Inr a \<Rightarrow> applied_effect wall running a sm3
                            | Inl e \<Rightarrow> sm3))))"

end
