(* ===== verification/Save_Settings.thy ===== *)
theory Save_Settings
  imports State_Machine
begin

text \<open>
  The daily settings-save scheduler (\<open>save_settings.rs\<close>): the schedule parser for times written as
  "08:00" or "5:30 PM", and the loop that reads the clock every thirty seconds and sends the
  Save Settings command. The lemmas show that only times of day are ever scheduled, in order and
  without repetition, that a written schedule is read back, and when a command is sent.
\<close>

section \<open>The schedule\<close>

record save_settings_time =
  st_hour :: nat
  st_minute :: nat

definition is_ampm :: "string \<Rightarrow> bool" where
  "is_ampm v \<longleftrightarrow> to_uppercase v \<in> {''AM'', ''PM''}"

text \<open>The twelve-hour clock; \<open>None\<close> for an hour that is not on it.\<close>

definition to_24h :: "string option \<Rightarrow> nat \<Rightarrow> nat option" where
  "to_24h ampm hour =
     (case ampm of
        None \<Rightarrow> if hour > 23 then None else Some hour
      | Some s \<Rightarrow>
          if s = ''AM'' then (if hour = 12 then Some 0 else if hour > 11 then None else Some hour)
          else if s = ''PM'' then (if hour = 12 then Some 12 else if hour \<le> 11 then Some (hour + 12) else None)
          else None)"

definition parse_time :: "string \<Rightarrow> save_settings_time option" where
  "parse_time value =
     (case split_whitespace value of
        [] \<Rightarrow> None
      | time_part # rest \<Rightarrow>
          if length rest > 1 then None
          else (case split_on (CHR '':'') time_part of
                  [h, m] \<Rightarrow>
                    (case (parse_uint u32_max h, parse_uint u32_max m) of
                       (Some hour, Some minute) \<Rightarrow>
                         if minute > 59 then None
                         else map_option (\<lambda>h. \<lparr>st_hour = h, st_minute = minute\<rparr>)
                                (to_24h (case rest of [] \<Rightarrow> None | a # _ \<Rightarrow> Some (to_uppercase a)) hour)
                     | _ \<Rightarrow> None)
                | _ \<Rightarrow> None))"

text \<open>A token takes the next one with it when that is AM or PM.\<close>

fun candidates :: "string list \<Rightarrow> string list" where
  "candidates [] = []"
| "candidates [t] = [t]"
| "candidates (t # a # ts) =
     (if is_ampm a then (t @ '' '' @ a) # candidates ts else t # candidates (a # ts))"

definition add_time :: "save_settings_time list \<Rightarrow> string \<Rightarrow> save_settings_time list" where
  "add_time out candidate =
     (case parse_time candidate of
        None \<Rightarrow> out
      | Some t \<Rightarrow> if t \<in> set out then out else out @ [t])"

definition minute_of_day :: "save_settings_time \<Rightarrow> nat" where
  "minute_of_day t = 60 * st_hour t + st_minute t"

definition parse_save_settings_schedule :: "string \<Rightarrow> save_settings_time list" where
  "parse_save_settings_schedule input =
     (let normalized = map (\<lambda>c. if c = CHR '','' \<or> c = CHR '';'' then CHR '' '' else c) input in
      sort_key minute_of_day (foldl add_time [] (candidates (split_whitespace normalized))))"

section \<open>The scheduler\<close>

text \<open>
  The clock the scheduler reads, the key of the last fire, and one round after its thirty
  seconds of sleep: the new key and whether the command is sent.
\<close>

record local_minute =
  lm_year :: int
  lm_day_of_year :: nat
  lm_hour :: nat
  lm_minute :: nat

type_synonym fire_key = "int \<times> nat \<times> nat \<times> nat"

definition fire_key :: "save_settings_time \<Rightarrow> local_minute \<Rightarrow> fire_key" where
  "fire_key t now = (lm_year now, lm_day_of_year now, st_hour t, st_minute t)"

definition save_tick :: "save_settings_time list \<Rightarrow> local_minute \<Rightarrow> fire_key option \<Rightarrow> fire_key option \<times> command option" where
  "save_tick ts now lst =
     (case find (\<lambda>t. st_hour t = lm_hour now \<and> st_minute t = lm_minute now) ts of
        None \<Rightarrow> (lst, None)
      | Some target \<Rightarrow>
          if lst = Some (fire_key target now) then (lst, None)
          else (Some (fire_key target now), Some CmdSaveSettings))"

text \<open>A run over clock readings; the loop ends when the command channel is closed.\<close>

fun save_loop :: "save_settings_time list \<Rightarrow> (local_minute \<times> bool) list \<Rightarrow> fire_key option \<Rightarrow> local_minute list" where
  "save_loop ts [] lst = []"
| "save_loop ts ((now, channel_open) # rs) lst =
     (case save_tick ts now lst of
        (lst', None) \<Rightarrow> save_loop ts rs lst'
      | (lst', Some c) \<Rightarrow> (if channel_open then now # save_loop ts rs lst' else []))"

definition save_settings_scheduler :: "string \<Rightarrow> ((local_minute \<times> bool) list \<Rightarrow> local_minute list) option" where
  "save_settings_scheduler schedule =
     (let ts = parse_save_settings_schedule schedule in
      if ts = [] then None else Some (\<lambda>rs. save_loop ts rs None))"

section \<open>Well-formed schedules\<close>

definition valid_time :: "save_settings_time \<Rightarrow> bool" where
  "valid_time t \<longleftrightarrow> st_hour t < 24 \<and> st_minute t < 60"

lemma to_24h_lt: "to_24h ampm h = Some h' \<Longrightarrow> h' < 24"
  by (auto simp: to_24h_def split: option.split_asm if_split_asm)

lemma parse_time_valid: "parse_time v = Some t \<Longrightarrow> valid_time t"
  by (auto simp: parse_time_def valid_time_def dest!: to_24h_lt split: list.split_asm option.split_asm if_split_asm)

lemma radix_int:
  assumes "0 \<le> x" "x < b" "0 \<le> y" "y < b" and eq: "a * b + x = c * b + (y :: int)"
  shows "a = c \<and> x = y"
proof -
  have "a = (a * b + x) div b" using assms(1,2) by simp
  also have "\<dots> = c" unfolding eq using assms(3,4) by simp
  finally show ?thesis using eq by simp
qed

lemma minute_of_day_inj:
  assumes "valid_time s" and "valid_time t" and "minute_of_day s = minute_of_day t"
  shows "s = t"
proof -
  have "int (st_hour s) * 60 + int (st_minute s) = int (st_hour t) * 60 + int (st_minute t)"
    using arg_cong [OF assms(3), of int] by (simp add: minute_of_day_def mult.commute)
  then have "st_hour s = st_hour t \<and> st_minute s = st_minute t"
    using assms(1,2) by (auto simp: valid_time_def dest!: radix_int [rotated 4])
  then show ?thesis by (cases s; cases t) simp
qed

lemma add_times_wf:
  "distinct out \<and> list_all valid_time out \<Longrightarrow> distinct (foldl add_time out cs) \<and> list_all valid_time (foldl add_time out cs)"
proof (induction cs arbitrary: out)
  case (Cons c cs)
  have "distinct (add_time out c) \<and> list_all valid_time (add_time out c)"
    using Cons.prems parse_time_valid by (auto simp: add_time_def split: option.split)
  then show ?case using Cons.IH by simp
qed simp

lemma sorted_wrt_strict:
  assumes "distinct xs" and "list_all valid_time xs"
  shows "sorted_wrt (\<lambda>s t. minute_of_day s < minute_of_day t) (sort_key minute_of_day xs)"
proof -
  let ?ys = "sort_key minute_of_day xs"
  have "inj_on minute_of_day (set ?ys)"
    using assms(2) by (intro inj_onI) (auto simp: list_all_iff dest: minute_of_day_inj)
  then have "distinct (map minute_of_day ?ys)" using assms(1) by (simp add: distinct_map)
  then have "sorted_wrt (<) (map minute_of_day ?ys)" by (simp add: strict_sorted_iff)
  then show ?thesis by (simp add: sorted_wrt_map)
qed

text \<open>
  Whatever text the schedule is, only times of day are scheduled, in strictly increasing
  order: hours below 24, minutes below 60, no time twice. Anything else in the text is
  ignored.
\<close>

theorem schedule_wellformed:
  "list_all valid_time (parse_save_settings_schedule input)
   \<and> sorted_wrt (\<lambda>s t. minute_of_day s < minute_of_day t) (parse_save_settings_schedule input)"
proof -
  let ?ts = "foldl add_time [] (candidates (split_whitespace
    (map (\<lambda>c. if c = CHR '','' \<or> c = CHR '';'' then CHR '' '' else c) input)))"
  have "distinct ?ts \<and> list_all valid_time ?ts" by (rule add_times_wf) simp
  then show ?thesis
    using sorted_wrt_strict [of ?ts]
    by (simp add: parse_save_settings_schedule_def Let_def list_all_iff)
qed

section \<open>Fires\<close>

definition valid_minute :: "local_minute \<Rightarrow> bool" where
  "valid_minute n \<longleftrightarrow> lm_day_of_year n < 400 \<and> lm_hour n < 24 \<and> lm_minute n < 60"

text \<open>Minutes in the order of the local clock.\<close>

definition minute_index :: "local_minute \<Rightarrow> int" where
  "minute_index n = (lm_year n * 400 + int (lm_day_of_year n)) * 1440 + int (60 * lm_hour n + lm_minute n)"

definition minute_key :: "local_minute \<Rightarrow> fire_key" where
  "minute_key n = (lm_year n, lm_day_of_year n, lm_hour n, lm_minute n)"

definition scheduled :: "save_settings_time list \<Rightarrow> local_minute \<Rightarrow> bool" where
  "scheduled ts n \<longleftrightarrow> list_ex (\<lambda>t. st_hour t = lm_hour n \<and> st_minute t = lm_minute n) ts"

lemma save_tick_eq:
  "save_tick ts now lst =
     (if scheduled ts now \<and> lst \<noteq> Some (minute_key now) then (Some (minute_key now), Some CmdSaveSettings)
      else (lst, None))"
proof (cases "find (\<lambda>t. st_hour t = lm_hour now \<and> st_minute t = lm_minute now) ts")
  case None
  then have "\<not> scheduled ts now" by (auto simp: scheduled_def find_None_iff list_ex_iff)
  then show ?thesis by (simp add: save_tick_def None)
next
  case (Some t)
  then have "t \<in> set ts" "st_hour t = lm_hour now" "st_minute t = lm_minute now"
    by (auto simp: find_Some_iff)
  then show ?thesis using Some
    by (auto simp: save_tick_def scheduled_def list_ex_iff fire_key_def minute_key_def)
qed

lemma minute_index_inj:
  assumes "valid_minute m" and "valid_minute n" and "minute_index m = minute_index n"
  shows "minute_key m = minute_key n"
proof -
  let ?r = "\<lambda>n. int (60 * lm_hour n + lm_minute n)" and ?d = "\<lambda>n. lm_year n * 400 + int (lm_day_of_year n)"
  have r: "0 \<le> ?r k \<and> ?r k < 1440" if "valid_minute k" for k using that by (auto simp: valid_minute_def)
  have eq: "?d m * 1440 + ?r m = ?d n * 1440 + ?r n" using assms(3) by (simp add: minute_index_def)
  have "?d m = ?d n \<and> ?r m = ?r n"
    by (rule radix_int [OF _ _ _ _ eq]) (use r [OF assms(1)] r [OF assms(2)] in auto)
  then have d: "lm_year m * 400 + int (lm_day_of_year m) = lm_year n * 400 + int (lm_day_of_year n)"
    and rr: "int (lm_hour m) * 60 + int (lm_minute m) = int (lm_hour n) * 60 + int (lm_minute n)" by simp_all
  have "lm_year m = lm_year n \<and> int (lm_day_of_year m) = int (lm_day_of_year n)"
    by (rule radix_int [OF _ _ _ _ d]) (use assms(1,2) in \<open>auto simp: valid_minute_def\<close>)
  moreover have "int (lm_hour m) = int (lm_hour n) \<and> int (lm_minute m) = int (lm_minute n)"
    by (rule radix_int [OF _ _ _ _ rr]) (use assms(1,2) in \<open>auto simp: valid_minute_def\<close>)
  ultimately show ?thesis by (simp add: minute_key_def)
qed

lemma minute_key_index: "minute_key m = minute_key n \<Longrightarrow> minute_index m = minute_index n"
  by (simp add: minute_key_def minute_index_def)

text \<open>The last fire is not after any reading to come.\<close>

definition fired_before :: "fire_key option \<Rightarrow> local_minute list \<Rightarrow> bool" where
  "fired_before lst ns \<longleftrightarrow>
     (\<forall>k. lst = Some k \<longrightarrow> (\<exists>m. valid_minute m \<and> k = minute_key m \<and> (\<forall>n \<in> set ns. minute_index m \<le> minute_index n)))"

definition fires_ok :: "save_settings_time list \<Rightarrow> local_minute list \<Rightarrow> fire_key option \<Rightarrow> local_minute list \<Rightarrow> bool" where
  "fires_ok ts ns lst fires \<longleftrightarrow>
     sorted_wrt (\<lambda>m n. minute_index m < minute_index n) fires \<and> set fires \<subseteq> set ns
     \<and> minute_key ` set fires = minute_key ` set (filter (scheduled ts) ns) - set_option lst"

lemma fires_ok_skip:
  assumes "fires_ok ts ns lst fires" and "\<not> scheduled ts n \<or> lst = Some (minute_key n)"
  shows "fires_ok ts (n # ns) lst fires"
  using assms by (auto simp: fires_ok_def)

lemma fires_ok_fire:
  assumes ok: "fires_ok ts ns (Some (minute_key n)) fires" and sched: "scheduled ts n"
    and neq: "lst \<noteq> Some (minute_key n)" and before: "fired_before lst (n # ns)"
    and valid: "valid_minute n" "\<forall>q \<in> set ns. valid_minute q" and later: "\<forall>q \<in> set ns. minute_index n \<le> minute_index q"
  shows "fires_ok ts (n # ns) lst (n # fires)"
proof -
  have strict: "minute_index n < minute_index f" if "f \<in> set fires" for f
  proof -
    have "f \<in> set ns" and "minute_key f \<noteq> minute_key n" using ok that by (auto simp: fires_ok_def)
    then show ?thesis using later valid minute_index_inj [of f n] by (auto simp: order.strict_iff_order)
  qed
  have "k \<notin> minute_key ` set (n # ns)" if "lst = Some k" for k
  proof
    from before that obtain m where m: "valid_minute m" "k = minute_key m" "\<forall>q \<in> set (n # ns). minute_index m \<le> minute_index q"
      by (auto simp: fired_before_def)
    assume "k \<in> minute_key ` set (n # ns)"
    then obtain q where q: "q \<in> set (n # ns)" "minute_key m = minute_key q" using m(2) by auto
    have "minute_index n \<le> minute_index q" using q(1) later by auto
    then have "minute_index m = minute_index n" using m(3) minute_key_index [OF q(2)] by auto
    with minute_index_inj [OF m(1) valid(1)] neq that m(2) show False by simp
  qed
  then have "minute_key ` set (filter (scheduled ts) (n # ns)) - set_option lst
      = minute_key ` set (filter (scheduled ts) (n # ns))" by (cases lst) auto
  with ok sched strict show ?thesis by (auto simp: fires_ok_def)
qed

lemma save_loop_fires:
  assumes "list_all (\<lambda>r. valid_minute (fst r) \<and> snd r) rs"
    and "sorted (map (\<lambda>r. minute_index (fst r)) rs)" and "fired_before lst (map fst rs)"
  shows "fires_ok ts (map fst rs) lst (save_loop ts rs lst)"
  using assms
proof (induction rs arbitrary: lst)
  case Nil
  then show ?case by (simp add: fires_ok_def)
next
  case (Cons r rs)
  obtain n where r: "r = (n, True)" and n: "valid_minute n" using Cons.prems(1) by (cases r) auto
  have later: "\<forall>q \<in> set (map fst rs). minute_index n \<le> minute_index q" using Cons.prems(2) r by auto
  have valid: "\<forall>q \<in> set (map fst rs). valid_minute q" using Cons.prems(1) by (auto simp: list_all_iff)
  have "fired_before (Some (minute_key n)) (map fst rs)" using n later by (auto simp: fired_before_def)
  then have fire: "fires_ok ts (map fst rs) (Some (minute_key n)) (save_loop ts rs (Some (minute_key n)))"
    using Cons by simp
  have "fired_before lst (map fst rs)" using Cons.prems(3) by (auto simp: fired_before_def)
  then have skip: "fires_ok ts (map fst rs) lst (save_loop ts rs lst)" using Cons by simp
  have before: "fired_before lst (n # map fst rs)" using Cons.prems(3) r by simp
  show ?case
    using fires_ok_fire [OF fire _ _ before n valid later] fires_ok_skip [OF skip, of n]
    by (simp add: r save_tick_eq)
qed

text \<open>
  C35. The scheduler fires exactly once in every scheduled minute it sees: over any readings of a
  clock that does not go back, with the command channel open, the commands are sent at strictly
  increasing minutes, and the minutes with a command are exactly the scheduled minutes among
  the readings.
\<close>

theorem save_fires_once_per_minute:
  assumes "list_all (\<lambda>r. valid_minute (fst r) \<and> snd r) rs"
    and "sorted (map (\<lambda>r. minute_index (fst r)) rs)"
    and "save_settings_scheduler schedule = Some run"
  shows "sorted_wrt (\<lambda>m n. minute_index m < minute_index n) (run rs)
    \<and> minute_key ` set (run rs)
        = minute_key ` set (filter (scheduled (parse_save_settings_schedule schedule)) (map fst rs))"
proof -
  have "run = (\<lambda>rs. save_loop (parse_save_settings_schedule schedule) rs None)"
    using assms(3) by (auto simp: save_settings_scheduler_def Let_def split: if_split_asm)
  moreover have "fired_before None (map fst rs)" by (simp add: fired_before_def)
  ultimately show ?thesis
    using save_loop_fires [OF assms(1,2)] by (simp add: fires_ok_def)
qed

definition demo_minute :: "nat \<Rightarrow> nat \<Rightarrow> nat \<Rightarrow> local_minute" where
  "demo_minute d h m = \<lparr>lm_year = 2024, lm_day_of_year = d, lm_hour = h, lm_minute = m\<rparr>"

lemma demo_numbers:
  "parse_uint u32_max ''5'' = Some 5" "parse_uint u32_max ''30'' = Some 30" "parse_uint u32_max ''08'' = Some 8"
  "parse_uint u32_max ''00'' = Some 0" "parse_uint u32_max ''25'' = Some 25"
  by (simp_all add: parse_uint_def parse_digits_def digits_val_def is_digit_def digit_val_def u32_max_def)

lemma demo_tokens:
  "candidates (split_whitespace (map (\<lambda>c. if c = CHR '','' \<or> c = CHR '';'' then CHR '' '' else c) ''5:30 pm, 08:00; 25:00''))
     = [''5:30 pm'', ''08:00'', ''25:00'']"
  "split_whitespace ''5:30 pm'' = [''5:30'', ''pm'']" "split_whitespace ''08:00'' = [''08:00'']"
  "split_whitespace ''25:00'' = [''25:00'']" "split_on (CHR '':'') ''5:30'' = [''5'', ''30'']"
  "split_on (CHR '':'') ''08:00'' = [''08'', ''00'']" "split_on (CHR '':'') ''25:00'' = [''25'', ''00'']"
  "to_uppercase ''pm'' = ''PM''"
  by code_simp+

lemma demo_schedule:
  "parse_save_settings_schedule ''5:30 pm, 08:00; 25:00'' = [\<lparr>st_hour = 8, st_minute = 0\<rparr>, \<lparr>st_hour = 17, st_minute = 30\<rparr>]"
proof -
  have "parse_time ''5:30 pm'' = Some \<lparr>st_hour = 17, st_minute = 30\<rparr>" "parse_time ''08:00'' = Some \<lparr>st_hour = 8, st_minute = 0\<rparr>"
    "parse_time ''25:00'' = None"
    by (simp_all add: parse_time_def demo_tokens demo_numbers to_24h_def)
  then show ?thesis
    unfolding parse_save_settings_schedule_def Let_def demo_tokens by (simp add: add_time_def minute_of_day_def)
qed

theorem save_fires_once_per_minute_witness:
  "\<exists>run. save_settings_scheduler ''5:30 pm, 08:00; 25:00'' = Some run
     \<and> minute_key ` set (run [(demo_minute 10 8 0, True), (demo_minute 10 8 0, True), (demo_minute 10 9 15, True), (demo_minute 11 8 0, True)])
       = {(2024, 10, 8, 0), (2024, 11, 8, 0)}"
proof -
  let ?run = "\<lambda>rs. save_loop (parse_save_settings_schedule ''5:30 pm, 08:00; 25:00'') rs None"
  have s: "save_settings_scheduler ''5:30 pm, 08:00; 25:00'' = Some ?run"
    by (simp add: save_settings_scheduler_def demo_schedule)
  have "minute_key ` set (?run [(demo_minute 10 8 0, True), (demo_minute 10 8 0, True), (demo_minute 10 9 15, True), (demo_minute 11 8 0, True)])
       = {(2024, 10, 8, 0), (2024, 11, 8, 0)}"
    using conjunct2 [OF save_fires_once_per_minute [OF _ _ s, of "[(demo_minute 10 8 0, True), (demo_minute 10 8 0, True), (demo_minute 10 9 15, True), (demo_minute 11 8 0, True)]"]]
    by (simp add: demo_schedule demo_minute_def valid_minute_def minute_index_def minute_key_def scheduled_def del: save_loop.simps)
  with s show ?thesis by blast
qed

end
