(* ===== verification/Login_Handlers.thy ===== *)
theory Login_Handlers
  imports State_Machine
begin

text \<open>
  The per-state handlers of \<open>state_machine/mod.rs\<close> from launch to API configuration. A
  handler takes the answers of its environment and returns the changed controller and
  either the successor state or the error it propagates with \<open>?\<close>. The clock is sampled
  once per handler run; sleeps are not represented.
\<close>

datatype sm_error = SupervisorErr | AgentErr

type_synonym handler_result = "state_machine \<times> (sm_error + sm_state)"

definition goto_state :: "sm_state \<Rightarrow> state_machine \<Rightarrow> handler_result" where
  "goto_state s sm = (sm, Inr s)"

definition in_state_ms :: "world \<Rightarrow> state_machine \<Rightarrow> millis" where
  "in_state_ms wd sm = elapsed_ms (wd_now wd) (sm_state_entered_at sm)"

definition env_uint :: "world \<Rightarrow> nat \<Rightarrow> string \<Rightarrow> nat \<Rightarrow> nat" where
  "env_uint wd mx name dflt =
     (case Option.bind (wd_getenv wd name) (parse_uint mx) of None \<Rightarrow> dflt | Some n \<Rightarrow> n)"

section \<open>Standby and launch\<close>

definition do_waiting_for_launch :: "state_machine \<Rightarrow> handler_result" where
  "do_waiting_for_launch sm = goto_state WaitingForLaunch sm"

definition do_init :: "world \<Rightarrow> state_machine \<Rightarrow> handler_result" where
  "do_init wd sm =
     (if \<not> wd_tws_path_exists wd then goto_state (ErrorState (''TWS path does not exist: '' @ cf_tws_path (sm_config sm))) sm
      else goto_state Launching sm)"

definition do_launch :: "world \<Rightarrow> state_machine \<Rightarrow> handler_result" where
  "do_launch wd sm =
     (let sm1 = emit (LaunchJvm (sm_warm_restart_pending sm)) sm
      in if wd_launch_ok wd then goto_state WaitingForAgent sm1 else (sm1, Inl SupervisorErr))"

definition do_wait_for_agent :: "world \<Rightarrow> state_machine \<Rightarrow> handler_result" where
  "do_wait_for_agent wd sm =
     (if \<not> wd_running wd then goto_state (ErrorState ''JVM process exited before agent became ready'') sm
      else if wd_agent_healthy wd then goto_state WaitingForLogin sm
      else if in_state_ms wd sm > 60000
      then goto_state (ErrorState ''Timed out waiting for agent health check'') sm
      else goto_state WaitingForAgent sm)"

section \<open>Waiting for the login form\<close>

definition is_authenticated_main :: "window_info \<Rightarrow> bool" where
  "is_authenticated_main w =
     (let t = to_lowercase (w_title w) in
        is_gateway_title (w_title w) \<and> \<not> contains_str t ''login'' \<and> \<not> contains_str t ''configuration''
        \<and> (case w_bounds w of None \<Rightarrow> False | Some b \<Rightarrow> b_width b > 400))"

definition has_login_fields :: "world \<Rightarrow> window_info \<Rightarrow> bool \<Rightarrow> bool" where
  "has_login_fields wd w on_error =
     (case wd_dump wd (w_id w) of None \<Rightarrow> on_error | Some c \<Rightarrow> components_have_login_form c)"

text \<open>What the observation cache decides, when it is synced.\<close>

definition login_by_cache :: "agent_observation \<Rightarrow> sm_state option" where
  "login_by_cache ob =
     (if has_session_conflict ob then Some HandlingSessionConflict
      else if has_2fa_dialog ob then Some WaitingFor2fa
      else if has_relogin_dialog ob then Some ReconnectingSession
      else (case main_gateway_window ob of
              Some w \<Rightarrow> if ow_has_login_button w then Some Authenticating else Some DismissingPopups
            | None \<Rightarrow> None))"

text \<open>The HTTP fallback: calls \<open>k\<close> and \<open>k + 1\<close> of \<open>list_windows\<close>.\<close>

definition login_by_http :: "world \<Rightarrow> nat \<Rightarrow> sm_state option" where
  "login_by_http wd k =
     (case check_blocking_dialog (wd_windows wd k) of
        Some s \<Rightarrow> Some s
      | None \<Rightarrow>
          (case wd_windows wd (k + 1) of
             None \<Rightarrow> None
           | Some ws \<Rightarrow>
               if list_ex (\<lambda>w. is_conflict_title (w_title w)) ws then Some HandlingSessionConflict
               else (case find (\<lambda>w. is_gateway_title (w_title w)) ws of
                       None \<Rightarrow> None
                     | Some w \<Rightarrow> if has_login_fields wd w True then Some Authenticating
                                 else Some DismissingPopups)))"

definition cold_login :: "world \<Rightarrow> nat \<Rightarrow> state_machine \<Rightarrow> handler_result" where
  "cold_login wd k sm =
     (if \<not> wd_running wd then goto_state (ErrorState ''JVM process exited while waiting for login window'') sm
      else (case (if ob_synced (sm_observation sm) then login_by_cache (sm_observation sm) else login_by_http wd k) of
              Some s \<Rightarrow> goto_state s sm
            | None \<Rightarrow>
                (let timeout = ti_login_dialog_timeout_secs (cf_timing (sm_config sm))
                 in if timeout > 0 \<and> in_state_ms wd sm > 1000 * timeout
                    then goto_state (ErrorState ''Timed out waiting for login window'') sm
                    else goto_state WaitingForLogin sm)))"

definition do_wait_for_login :: "world \<Rightarrow> state_machine \<Rightarrow> handler_result" where
  "do_wait_for_login wd sm =
     (if sm_warm_restart_pending sm = None then cold_login wd 0 sm
      else if \<not> wd_running wd
      then goto_state (ErrorState ''JVM exited during warm restart login'') (sm\<lparr>sm_warm_restart_pending := None\<rparr>)
      else if (case wd_windows wd 0 of None \<Rightarrow> False | Some ws \<Rightarrow> list_ex is_authenticated_main ws)
      then goto_state DismissingPopups (sm\<lparr>sm_warm_restart_pending := None\<rparr>)
      else if in_state_ms wd sm > 120000
      then cold_login wd 1 (sm\<lparr>sm_warm_restart_pending := None, sm_state_entered_at := wd_now wd\<rparr>)
      else goto_state WaitingForLogin sm)"

section \<open>Authentication\<close>

text \<open>
  \<open>wait_for_observed_twofa_retry\<close>: after a rejection without a countdown nothing is
  submitted until the screen shows one. The result says whether the caller must wait.
\<close>

definition visible_text :: "world \<Rightarrow> window_info list \<Rightarrow> string" where
  "visible_text wd ws =
     join_space (map w_title ws @
       concat (map (\<lambda>w. case wd_dump wd (w_id w) of None \<Rightarrow> [] | Some c \<Rightarrow> collect_strings c) ws))"

definition wait_for_observed_twofa_retry :: "world \<Rightarrow> state_machine \<Rightarrow> state_machine \<times> (sm_error + bool)" where
  "wait_for_observed_twofa_retry wd sm =
     (if \<not> tf_retry_waiting_for_screen (sm_twofa sm) then (sm, Inr False)
      else (case wd_windows wd 0 of
              None \<Rightarrow> (sm, Inl AgentErr)
            | Some ws \<Rightarrow>
                (case parse_retry_seconds (visible_text wd ws) of
                   Some n \<Rightarrow> (sm\<lparr>sm_twofa := block_retry (wd_now wd) (Some n) (sm_twofa sm)\<rparr>, Inr True)
                 | None \<Rightarrow> (sm, Inr True))))"

text \<open>The server-enforced wait: \<open>Some sm\<close> is the controller once it may go on.\<close>

definition retry_deadline_passed :: "world \<Rightarrow> state_machine \<Rightarrow> state_machine option" where
  "retry_deadline_passed wd sm =
     (case tf_retry_not_before (sm_twofa sm) of
        None \<Rightarrow> Some sm
      | Some t \<Rightarrow> if wd_now wd < t then None
                  else Some (sm\<lparr>sm_twofa := (sm_twofa sm)\<lparr>tf_retry_not_before := None\<rparr>\<rparr>))"

definition submit_login :: "world \<Rightarrow> window_info \<Rightarrow> state_machine \<Rightarrow> handler_result" where
  "submit_login wd w sm =
     (let sm1 = emit (DispatchNamed ''LoginHandler'' (w_id w)) sm
      in case wd_dispatch_named wd ''LoginHandler'' (w_id w) of
           Some Handled \<Rightarrow>
             goto_state WaitingFor2fa (sm1\<lparr>sm_observation := clear_login_buttons (sm_observation sm1)\<rparr>)
         | Some (HandlerError msg) \<Rightarrow> goto_state WaitingForLogin (emit ResetHandlers sm1)
         | Some NotApplicable \<Rightarrow> goto_state WaitingForLogin sm1
         | Some DispatchFailed \<Rightarrow> goto_state WaitingForLogin (emit ResetHandlers sm1)
         | None \<Rightarrow> goto_state WaitingForLogin sm1)"

definition do_authenticate :: "world \<Rightarrow> state_machine \<Rightarrow> handler_result" where
  "do_authenticate wd sm =
     (case wait_for_observed_twofa_retry wd sm of
        (sm1, Inl e) \<Rightarrow> (sm1, Inl e)
      | (sm1, Inr True) \<Rightarrow> goto_state Authenticating sm1
      | (sm1, Inr False) \<Rightarrow>
          (case retry_deadline_passed wd sm1 of
             None \<Rightarrow> goto_state Authenticating sm1
           | Some sm2 \<Rightarrow>
               (case check_blocking_dialog (wd_windows wd 0) of
                  Some s \<Rightarrow> goto_state s sm2
                | None \<Rightarrow>
                    (case wd_windows wd 1 of
                       None \<Rightarrow> (sm2, Inl AgentErr)
                     | Some ws \<Rightarrow>
                         (case find (\<lambda>w. is_gateway_title (w_title w)) ws of
                            None \<Rightarrow> goto_state WaitingForLogin sm2
                          | Some w \<Rightarrow>
                              if \<not> has_login_fields wd w False then goto_state DismissingPopups sm2
                              else submit_login wd w sm2)))))"

section \<open>The second factor\<close>

definition is_large_gateway :: "window_info \<Rightarrow> bool" where
  "is_large_gateway w \<longleftrightarrow>
     (case w_bounds w of None \<Rightarrow> False | Some b \<Rightarrow> b_width b \<ge> 650 \<and> b_height b \<ge> 400)
     \<and> contains_str (to_lowercase (w_title w)) ''gateway''"

definition find_twofa :: "world \<Rightarrow> window_info list \<Rightarrow> window_info option" where
  "find_twofa wd ws =
     (case find (\<lambda>w. is_twofa_title (w_title w)) ws of
        Some w \<Rightarrow> Some w
      | None \<Rightarrow>
          find (\<lambda>w. \<not> is_large_gateway w
                  \<and> (case wd_dump wd (w_id w) of None \<Rightarrow> False | Some c \<Rightarrow> looks_like_twofa_components c)) ws)"

text \<open>
  A visible challenge: remember it, select the device once, submit the code when there is a
  secret. \<open>None\<close> means the tick goes on to the timeout check.
\<close>

definition twofa_submit :: "world \<Rightarrow> window_info \<Rightarrow> state_machine \<Rightarrow> state_machine \<times> sm_state option" where
  "twofa_submit wd w sm =
     (if \<not> tc_has_secret (cf_twofa (sm_config sm)) then (sm, None)
      else (emit (DispatchNamed ''TotpEntryHandler'' (w_id w)) sm,
            if wd_dispatch_named wd ''TotpEntryHandler'' (w_id w) = Some Handled
            then Some DismissingPopups else None))"

definition twofa_visible :: "world \<Rightarrow> window_info \<Rightarrow> state_machine \<Rightarrow> state_machine \<times> sm_state option" where
  "twofa_visible wd w sm =
     (let sm1 = sm\<lparr>sm_twofa := (sm_twofa sm)\<lparr>tf_gone_at := None, tf_seen := True\<rparr>\<rparr>;
          dev = tc_device (cf_twofa (sm_config sm1));
          selected = (\<lambda>s. s\<lparr>sm_twofa := (sm_twofa s)\<lparr>tf_device_selected := True\<rparr>\<rparr>)
      in if tf_device_selected (sm_twofa sm1) then twofa_submit wd w sm1
         else if dev = [] then twofa_submit wd w (selected sm1)
         else (let sm2 = emit (SelectListItem (w_id w) dev) sm1
               in if wd_select_item wd (w_id w) dev = Some True
                  then (selected (emit (ClickButton (w_id w) ''OK'') sm2), Some WaitingFor2fa)
                  else twofa_submit wd w (selected sm2)))"

text \<open>The challenge was seen and is gone: success needs a gateway window without text fields.\<close>

definition gateway_dumps :: "world \<Rightarrow> window_info list \<Rightarrow> json list" where
  "gateway_dumps wd ws =
     List.map_filter (\<lambda>w. if is_gateway_title (w_title w) then wd_dump wd (w_id w) else None) ws"

definition twofa_gone :: "world \<Rightarrow> window_info list \<Rightarrow> state_machine \<Rightarrow> state_machine \<times> sm_state option" where
  "twofa_gone wd ws sm =
     (let gone = (case tf_gone_at (sm_twofa sm) of None \<Rightarrow> wd_now wd | Some t \<Rightarrow> t);
          sm1 = sm\<lparr>sm_twofa := (sm_twofa sm)\<lparr>tf_gone_at := Some gone\<rparr>\<rparr>
      in if elapsed_ms (wd_now wd) gone < 5000 then (sm1, None)
         else if list_ex components_have_login_form (gateway_dumps wd ws)
         then (emit ResetHandlers sm1, Some WaitingForLogin)
         else if gateway_dumps wd ws \<noteq> [] then (sm1, Some DismissingPopups)
         else (sm1, None))"

definition twofa_windows :: "world \<Rightarrow> window_info list \<Rightarrow> state_machine \<Rightarrow> state_machine \<times> sm_state option" where
  "twofa_windows wd ws sm =
     (let sm1 = sm\<lparr>sm_agent_failures := 0\<rparr>
      in if list_ex (\<lambda>w. is_conflict_title (w_title w)) ws then (sm1, Some HandlingSessionConflict)
         else (case find_twofa wd ws of
                 Some w \<Rightarrow> twofa_visible wd w sm1
               | None \<Rightarrow>
                   if tf_seen (sm_twofa sm1) then twofa_gone wd ws sm1
                   else if in_state_ms wd sm1 > 10000 then (sm1, Some DismissingPopups)
                   else (sm1, None)))"

definition timeout_successor :: "twofa_backoff_config \<Rightarrow> nat \<Rightarrow> sm_state" where
  "timeout_successor bo n =
     (case bo_on_timeout bo of
        RestartForever \<Rightarrow> Restarting
      | HitlImmediately \<Rightarrow> WaitingForHitl2fa
      | RestartThenHitl \<Rightarrow> if n \<ge> bo_max_immediate_attempts bo then WaitingForHitl2fa else Restarting)"

definition twofa_timeout :: "world \<Rightarrow> state_machine \<Rightarrow> handler_result" where
  "twofa_timeout wd sm =
     (let tc = cf_twofa (sm_config sm)
      in if in_state_ms wd sm \<le> 1000 * tc_timeout_seconds tc then goto_state WaitingFor2fa sm
         else if \<not> tc_relogin_after_timeout tc \<and> tc_timeout_action tc = TimeoutExit then goto_state Shutdown sm
         else (let n = saturating_add u32_max (tf_consecutive_timeouts (sm_twofa sm)) 1
               in goto_state (timeout_successor (tc_backoff tc) n)
                    (sm\<lparr>sm_twofa := (sm_twofa sm)\<lparr>tf_consecutive_timeouts := n\<rparr>\<rparr>)))"

definition do_wait_for_2fa :: "world \<Rightarrow> state_machine \<Rightarrow> handler_result" where
  "do_wait_for_2fa wd sm =
     (case wait_for_observed_twofa_retry wd sm of
        (sm1, Inl e) \<Rightarrow> (sm1, Inl e)
      | (sm1, Inr True) \<Rightarrow> goto_state WaitingFor2fa sm1
      | (sm1, Inr False) \<Rightarrow>
          (case retry_deadline_passed wd sm1 of
             None \<Rightarrow> goto_state WaitingFor2fa sm1
           | Some sm2 \<Rightarrow>
               if \<not> wd_running wd then goto_state (ErrorState ''JVM exited during 2FA wait'') sm2
               else if has_relogin_dialog (sm_observation sm2) then goto_state WaitingForLogin sm2
               else if has_session_conflict (sm_observation sm2) then goto_state HandlingSessionConflict sm2
               else if check_blocking_dialog (wd_windows wd 0) = Some WaitingForLogin
               then goto_state WaitingForLogin sm2
               else (case wd_windows wd 1 of
                       Some ws \<Rightarrow>
                         (case twofa_windows wd ws sm2 of
                            (sm3, Some s) \<Rightarrow> goto_state s sm3
                          | (sm3, None) \<Rightarrow> twofa_timeout wd sm3)
                     | None \<Rightarrow>
                         (let sm3 = sm2\<lparr>sm_agent_failures := sm_agent_failures sm2 + 1\<rparr>
                          in if sm_agent_failures sm3 \<ge> 10
                             then goto_state (ErrorState ''Agent unreachable during 2FA wait'') sm3
                             else twofa_timeout wd sm3))))"

section \<open>Session conflicts and popups\<close>

definition do_handle_session_conflict :: "world \<Rightarrow> state_machine \<Rightarrow> handler_result" where
  "do_handle_session_conflict wd sm =
     (case wd_windows wd 0 of
        None \<Rightarrow> (sm, Inl AgentErr)
      | Some ws \<Rightarrow>
          (case find (\<lambda>w. is_conflict_title (w_title w)) ws of
             Some w \<Rightarrow> goto_state DismissingPopups (emit (DispatchWindow (w_id w)) sm)
           | None \<Rightarrow> goto_state DismissingPopups sm))"

text \<open>One dispatch pass: a window counts as dismissed when a handler accepted it without an error.\<close>

definition dispatch_ok :: "world \<Rightarrow> window_info \<Rightarrow> bool" where
  "dispatch_ok wd w \<longleftrightarrow> (case wd_dispatch wd (w_id w) of None \<Rightarrow> False | Some DispatchFailed \<Rightarrow> False | Some r \<Rightarrow> True)"

definition popup_pass :: "world \<Rightarrow> window_info list \<Rightarrow> state_machine \<Rightarrow> state_machine" where
  "popup_pass wd ws sm =
     fold (\<lambda>w s. let s1 = emit (DispatchWindow (w_id w)) s
                 in if dispatch_ok wd w then s1\<lparr>sm_popup_last_dismissed := Some (wd_now wd)\<rparr> else s1) ws sm"

text \<open>The blocking dialogs the popup handler looks for, with the handler reset it performs.\<close>

definition popups_blocked :: "world \<Rightarrow> state_machine \<Rightarrow> (state_machine \<times> sm_state) option" where
  "popups_blocked wd sm =
     (let ob = sm_observation sm
      in if has_2fa_dialog ob then Some (sm, WaitingFor2fa)
         else if has_relogin_dialog ob then Some (emit ResetHandlers sm, ReconnectingSession)
         else if has_session_conflict ob then Some (emit ResetHandlers sm, HandlingSessionConflict)
         else if \<not> ob_synced ob
         then (case check_blocking_dialog (wd_windows wd 0) of
                 None \<Rightarrow> None
               | Some s \<Rightarrow> Some (if s = WaitingFor2fa then sm else emit ResetHandlers sm, s))
         else None)"

definition do_dismiss_popups :: "world \<Rightarrow> state_machine \<Rightarrow> handler_result" where
  "do_dismiss_popups wd sm =
     (if \<not> wd_running wd then goto_state (ErrorState ''JVM exited during popup dismissal'') sm
      else (case popups_blocked wd sm of
              Some (sm1, s) \<Rightarrow> goto_state s sm1
            | None \<Rightarrow>
                (let ws = (case wd_windows wd (if ob_synced (sm_observation sm) then 0 else 1) of
                             None \<Rightarrow> [] | Some l \<Rightarrow> l);
                     sm1 = popup_pass wd ws sm;
                     found = list_ex (dispatch_ok wd) ws;
                     quiet_since = (case sm_popup_last_dismissed sm1 of
                                      None \<Rightarrow> sm_state_entered_at sm1 | Some t \<Rightarrow> t)
                 in if \<not> found \<and> elapsed_ms (wd_now wd) quiet_since > 5000 then goto_state WaitingForApiReady sm1
                    else if in_state_ms wd sm1 > 30000 then goto_state WaitingForApiReady sm1
                    else goto_state DismissingPopups sm1)))"

section \<open>API readiness and configuration\<close>

text \<open>
  Scanning the gateway windows for the connection status: the first one with a login form
  ends the scan, the first one that says connected confirms; otherwise the last one decides
  whether the API server is explicitly disconnected.
\<close>

datatype api_scan = ApiConnected | ApiUnknown bool

fun scan_api :: "world \<Rightarrow> window_info list \<Rightarrow> bool \<Rightarrow> api_scan" where
  "scan_api wd [] dis = ApiUnknown dis"
| "scan_api wd (w # ws) dis =
     (if \<not> is_gateway_title (w_title w) then scan_api wd ws dis
      else (case wd_dump wd (w_id w) of
              None \<Rightarrow> scan_api wd ws dis
            | Some c \<Rightarrow>
                if components_have_login_form c then ApiUnknown dis
                else if components_indicate_connected c then ApiConnected
                else scan_api wd ws (components_indicate_disconnected c)))"

definition api_ready_timeout :: "world \<Rightarrow> bool \<Rightarrow> nat" where
  "api_ready_timeout wd explicitly_disconnected =
     (if explicitly_disconnected then env_uint wd u64_max ''IBCTL_API_DISCONNECTED_GRACE_SECS'' 600 else 120)"

definition do_wait_for_api_ready :: "world \<Rightarrow> state_machine \<Rightarrow> handler_result" where
  "do_wait_for_api_ready wd sm =
     (let ob = sm_observation sm
      in if \<not> wd_running wd then goto_state Restarting sm
         else if has_2fa_dialog ob then goto_state WaitingFor2fa sm
         else if has_relogin_dialog ob then goto_state ReconnectingSession sm
         else if has_session_conflict ob then goto_state HandlingSessionConflict sm
         else if has_login_form ob then goto_state WaitingForLogin sm
         else (case check_blocking_dialog (wd_windows wd 0) of
                 Some s \<Rightarrow> goto_state s sm
               | None \<Rightarrow>
                   (case scan_api wd (case wd_windows wd 1 of None \<Rightarrow> [] | Some ws \<Rightarrow> ws) False of
                      ApiConnected \<Rightarrow> goto_state ConfiguringApi sm
                    | ApiUnknown dis \<Rightarrow>
                        if in_state_ms wd sm > 1000 * api_ready_timeout wd dis
                        then goto_state Restarting (abort_client_id_task sm)
                        else goto_state WaitingForApiReady sm)))"

text \<open>\<open>dismiss_menus\<close>: Escape on the first gateway window of the given window list.\<close>

definition dismiss_menus :: "window_info list option \<Rightarrow> state_machine \<Rightarrow> state_machine" where
  "dismiss_menus ws sm =
     (case ws of
        None \<Rightarrow> sm
      | Some l \<Rightarrow>
          (case find (\<lambda>w. is_gateway_title (w_title w)) l of
             None \<Rightarrow> sm
           | Some w \<Rightarrow> emit (SendKey (w_id w) ''escape'') sm))"

definition max_config_retries :: nat where "max_config_retries = 3"

definition do_configure_api :: "world \<Rightarrow> state_machine \<Rightarrow> handler_result" where
  "do_configure_api wd sm0 =
     (let sm = dismiss_menus (wd_windows wd 0) sm0
      in case check_blocking_dialog (wd_windows wd 1) of
           Some s \<Rightarrow> goto_state s (sm\<lparr>sm_config_retries := 0\<rparr>)
         | None \<Rightarrow>
             if \<not> wd_running wd then goto_state Restarting (sm\<lparr>sm_config_retries := 0\<rparr>)
             else (let sm1 = sm\<lparr>sm_config_retries := sm_config_retries sm + 1\<rparr>;
                       sm2 = emit (ApplyApiConfig (api_port_of (sm_config sm1))) sm1
                   in case wd_api_config wd of
                        Some (prec, ro) \<Rightarrow>
                          goto_state Connected
                            (sm2\<lparr>sm_label_drift := (saturating_add u32_max (fst (sm_label_drift sm2)) prec,
                                                   saturating_add u32_max (snd (sm_label_drift sm2)) ro),
                                 sm_config_retries := 0\<rparr>)
                      | None \<Rightarrow>
                          (let sm3 = dismiss_menus (wd_windows wd 2) sm2
                           in if sm_config_retries sm3 \<ge> max_config_retries
                              then goto_state Restarting (abort_client_id_task (sm3\<lparr>sm_config_retries := 0\<rparr>))
                              else goto_state ConfiguringApi sm3)))"

end
