(* ===== verification/Session_Handlers.thy ===== *)
theory Session_Handlers
  imports Login_Handlers
begin

text \<open>
  The handlers of an established or lost session in \<open>state_machine/mod.rs\<close>: Connected
  with its revocation bus, graduated re-login, restart with back-off, the IB-status wait
  and the human-in-the-loop wait for a second factor, and the dispatch by state.
\<close>

section \<open>Connected\<close>

definition record_window_class :: "world \<Rightarrow> state_machine \<Rightarrow> state_machine" where
  "record_window_class wd sm =
     (if sm_connected_window_class sm \<noteq> None then sm
      else (case main_gateway_window (sm_observation sm) of
              Some w \<Rightarrow> sm\<lparr>sm_connected_window_class := Some (ow_class w)\<rparr>
            | None \<Rightarrow>
                (case wd_windows wd 0 of
                   None \<Rightarrow> sm
                 | Some ws \<Rightarrow>
                     (case find (\<lambda>w. is_gateway_title (w_title w)) ws of
                        None \<Rightarrow> sm
                      | Some w \<Rightarrow> sm\<lparr>sm_connected_window_class := Some (w_class w)\<rparr>))))"

text \<open>Forwarding and the client task run whenever the session is up.\<close>

definition ensure_socat :: "world \<Rightarrow> bool \<Rightarrow> state_machine \<Rightarrow> state_machine" where
  "ensure_socat wd alive sm =
     (if sm_socat sm \<and> alive then sm
      else start_socat (wd_socat_spawns wd) (api_port_of (sm_config sm)) (socat_port_of (sm_config sm)) sm)"

text \<open>
  One observation on the bus: report a standing contradiction, or clear it. The result says
  where a revocation leads.
\<close>

definition bus :: "world \<Rightarrow> bool \<Rightarrow> revocation_source \<Rightarrow> state_machine \<Rightarrow> state_machine \<times> sm_state option" where
  "bus wd contradicted src sm =
     (if contradicted
      then (case rev_observe (wd_now wd) src (sm_revocation sm) of
              (tr, fired) \<Rightarrow> (sm\<lparr>sm_revocation := tr\<rparr>, map_option next_state fired))
      else (sm\<lparr>sm_revocation := rev_clear (source_tag src) (sm_revocation sm)\<rparr>, None))"

definition jvm_exited :: "world \<Rightarrow> state_machine \<Rightarrow> handler_result" where
  "jvm_exited wd sm =
     (let sm1 = emit RemoveAgentSocket (sm\<lparr>sm_warm_restart_pending := wd_autorestart wd\<rparr>)
      in goto_state (next_state JvmDied)
           (sm1\<lparr>sm_revocation := fst (rev_observe (wd_now wd) JvmDied (sm_revocation sm1))\<rparr>))"

text \<open>The lost API port is only ever observed, never cleared here; firing resets the flag.\<close>

definition bus_port :: "world \<Rightarrow> state_machine \<Rightarrow> state_machine \<times> sm_state option" where
  "bus_port wd sm =
     (if \<not> sm_probe_failed sm then (sm, None)
      else (case rev_observe (wd_now wd) ApiPortListenerLost (sm_revocation sm) of
              (tr, Some src) \<Rightarrow> (sm\<lparr>sm_revocation := tr, sm_probe_failed := False\<rparr>, Some (next_state src))
            | (tr, None) \<Rightarrow> (sm\<lparr>sm_revocation := tr\<rparr>, None)))"

text \<open>A class change without a login button is benign and adopted.\<close>

definition adopt_window_class :: "state_machine \<Rightarrow> state_machine" where
  "adopt_window_class sm =
     (case (main_gateway_window (sm_observation sm), sm_connected_window_class sm) of
        (Some w, Some c) \<Rightarrow>
          if ow_class w \<noteq> c \<and> \<not> ow_has_login_button w
          then sm\<lparr>sm_connected_window_class := Some (ow_class w)\<rparr> else sm
      | _ \<Rightarrow> sm)"

definition observed_login_button :: "agent_observation \<Rightarrow> bool" where
  "observed_login_button ob =
     (case main_gateway_window ob of None \<Rightarrow> False | Some w \<Rightarrow> ow_has_login_button w)"

definition probe_needed :: "world \<Rightarrow> state_machine \<Rightarrow> bool" where
  "probe_needed wd sm =
     (let ob = sm_observation sm; main_id = map_option ow_id (main_gateway_window ob)
      in rev_any_pending (sm_revocation sm)
         \<or> observed_login_button ob
         \<or> list_ex (\<lambda>w. is_gateway_title (ow_title w)
                      \<and> \<not> contains_str (to_lowercase (ow_title w)) ''configuration''
                      \<and> Some (ow_id w) \<noteq> main_id) (ob_windows ob)
         \<or> (in_state_ms wd sm div 1000) mod 30 < 3)"

text \<open>Bookkeeping at the end of a healthy tick at the end of a healthy tick.\<close>

definition connected_upkeep :: "world \<Rightarrow> state_machine \<Rightarrow> state_machine" where
  "connected_upkeep wd sm =
     (let sm1 = (case (sm_client_id_task sm, wd_new_client_ids wd) of
                   (True, Some ids) \<Rightarrow> sm\<lparr>sm_cached_client_ids := ids\<rparr> | _ \<Rightarrow> sm);
          bo = tc_backoff (cf_twofa (sm_config sm1));
          up_ms = (case sm_connected_continuously_since sm1 of
                     None \<Rightarrow> None | Some t \<Rightarrow> Some (elapsed_ms (wd_now wd) t));
          sm2 = (if bo_counter_reset bo = Stable \<and> tf_consecutive_timeouts (sm_twofa sm1) > 0
                    \<and> (case up_ms of None \<Rightarrow> False | Some n \<Rightarrow> n \<ge> 1000 * bo_stable_secs bo)
                 then sm1\<lparr>sm_twofa := (sm_twofa sm1)\<lparr>tf_consecutive_timeouts := 0\<rparr>\<rparr> else sm1)
      in if (case up_ms of None \<Rightarrow> False
             | Some n \<Rightarrow> n \<ge> 1000 * ti_min_success_dwell_secs (cf_timing (sm_config sm2)))
         then (let sm3 = sm2\<lparr>sm_jvm_restarts := 0\<rparr>
               in if sm_settings_good_marked sm3 then sm3
                  else (emit (WriteSettingsGood (case wd_getenv wd ''IBCTL_SETTINGS_GOOD_MARKER'' of
                               None \<Rightarrow> ''/opt/ibctl/persist/maintenance/settings-good'' | Some p \<Rightarrow> p)
                               (wd_wall wd)) sm3)
                         \<lparr>sm_settings_good_marked := True\<rparr>)
         else sm2)"

definition revoked_or ::
  "state_machine \<times> sm_state option \<Rightarrow> (state_machine \<Rightarrow> handler_result) \<Rightarrow> handler_result" where
  "revoked_or r k = (case r of (sm, Some s) \<Rightarrow> goto_state s sm | (sm, None) \<Rightarrow> k sm)"

text \<open>The window list is fetched once; it is call 1 when recording the class used call 0.\<close>

definition connected_windows :: "world \<Rightarrow> state_machine \<Rightarrow> window_info list option" where
  "connected_windows wd sm0 =
     wd_windows wd (if sm_connected_window_class sm0 = None \<and> main_gateway_window (sm_observation sm0) = None
                    then 1 else 0)"

definition dispatch_all :: "window_info list \<Rightarrow> state_machine \<Rightarrow> state_machine" where
  "dispatch_all ws sm = fold (\<lambda>w. emit (DispatchWindow (w_id w))) ws sm"

definition connected_probe :: "world \<Rightarrow> window_info list \<Rightarrow> state_machine \<Rightarrow> handler_result" where
  "connected_probe wd ws sm =
     (let sm1 = adopt_window_class (sm\<lparr>sm_revocation := rev_clear TagErrorDialog (sm_revocation sm)\<rparr>);
          need = probe_needed wd sm1;
          dumps = (if need then gateway_dumps wd ws else []);
          twofa = (need \<and> list_ex (\<lambda>w. is_twofa_title (w_title w)) ws);
          sm2 = dispatch_all ws sm1
      in if twofa then goto_state WaitingFor2fa sm2
         else revoked_or (bus wd (observed_login_button (sm_observation sm2)
                                  \<or> list_ex components_have_login_form dumps) LoginFormVisible sm2) (\<lambda>sm3.
              revoked_or (bus wd (list_ex components_indicate_disconnected dumps) DisconnectedLabelStable sm3) (\<lambda>sm4.
              goto_state Connected (connected_upkeep wd sm4))))"

definition do_connected :: "world \<Rightarrow> state_machine \<Rightarrow> handler_result" where
  "do_connected wd sm0 =
     (let sm1 = ensure_socat wd (wd_socat_alive wd) (record_window_class wd sm0);
          sm2 = sm1\<lparr>sm_client_id_task := True\<rparr>;
          ws = (case connected_windows wd sm0 of None \<Rightarrow> [] | Some l \<Rightarrow> l)
      in if \<not> wd_running wd then jvm_exited wd sm2
         else revoked_or (bus wd (sm_connection_event_disconnected sm2) ConnectionStatusEvent sm2) (\<lambda>sm3.
              revoked_or (bus_port wd sm3) (\<lambda>sm4.
              let sm5 = ensure_socat wd (wd_socat_alive_later wd) sm4
              in revoked_or (bus wd (has_relogin_dialog (sm_observation sm5)) ReloginDialog sm5) (\<lambda>sm6.
                 revoked_or (bus wd (has_session_conflict (sm_observation sm6)) SessionConflict sm6) (\<lambda>sm7.
                 connected_probe wd ws sm7)))))"

section \<open>Reconnecting\<close>

text \<open>The titles that count as a re-login dialog in this state.\<close>

definition is_relogin_dialog :: "window_info \<Rightarrow> bool" where
  "is_relogin_dialog w =
     (let t = to_lowercase (w_title w) in contains_str t ''re-login'' \<or> contains_str t ''login is required'')"

definition relogin_exhausted :: "world \<Rightarrow> state_machine \<Rightarrow> handler_result" where
  "relogin_exhausted wd sm =
     (let ws = (case wd_windows wd 0 of None \<Rightarrow> [] | Some l \<Rightarrow> l);
          sm1 = fold (\<lambda>w. emit (ClickButton (w_id w) ''Cancel'')) (filter is_relogin_dialog ws) sm;
          sm2 = (abort_client_id_task (emit ResetHandlers sm1))\<lparr>sm_relogin_attempts := 0\<rparr>
      in case ti_relogin_failure_action (cf_timing (sm_config sm2)) of
           FailureRestart \<Rightarrow> goto_state Restarting sm2
         | FailureReauth \<Rightarrow>
             if has_login_form (sm_observation sm2) then goto_state WaitingForLogin sm2
             else if (case wd_windows wd 1 of None \<Rightarrow> False
                      | Some l \<Rightarrow> list_ex (\<lambda>w. is_gateway_title (w_title w)) l)
             then goto_state WaitingForLogin sm2
             else goto_state Restarting sm2)"

definition relogin_gone :: "world \<Rightarrow> state_machine \<Rightarrow> handler_result" where
  "relogin_gone wd sm =
     (let ws = (case wd_windows wd 1 of None \<Rightarrow> [] | Some l \<Rightarrow> l);
          fresh = (\<lambda>s. (emit ResetHandlers s)\<lparr>sm_relogin_attempts := 0\<rparr>)
      in if has_2fa_dialog (sm_observation sm) then goto_state WaitingFor2fa (fresh sm)
         else if list_ex (\<lambda>w. is_twofa_title (w_title w)) ws then goto_state WaitingFor2fa (fresh sm)
         else if list_ex components_have_login_form (gateway_dumps wd ws) then goto_state WaitingForLogin (fresh sm)
         else if list_ex components_confirm_authenticated (gateway_dumps wd ws)
         then goto_state Connected (sm\<lparr>sm_relogin_attempts := 0\<rparr>)
         else goto_state ReconnectingSession sm)"

definition do_reconnecting_session :: "world \<Rightarrow> state_machine \<Rightarrow> handler_result" where
  "do_reconnecting_session wd sm =
     (if \<not> wd_running wd
      then goto_state Restarting ((abort_client_id_task (emit ResetHandlers sm))\<lparr>sm_relogin_attempts := 0\<rparr>)
      else if sm_relogin_attempts sm > ti_relogin_max_attempts (cf_timing (sm_config sm))
      then relogin_exhausted wd sm
      else if in_state_ms wd sm < 30000 then goto_state ReconnectingSession sm
      else (case wd_windows wd 0 of
              None \<Rightarrow> goto_state ReconnectingSession sm
            | Some ws \<Rightarrow>
                (case find is_relogin_dialog ws of
                   None \<Rightarrow> relogin_gone wd sm
                 | Some w \<Rightarrow>
                     goto_state WaitingForLogin
                       (emit ResetHandlers (emit (ClickButton (w_id w) ''Re-login'') sm)))))"

section \<open>Restarting\<close>

definition max_restart_delay_secs :: nat where "max_restart_delay_secs = 900"

definition restart_delay :: "nat \<Rightarrow> nat \<Rightarrow> bool \<Rightarrow> nat" where
  "restart_delay base consecutive warm =
     (if warm then 0
      else min max_restart_delay_secs (saturating_mul u64_max base (2 ^ min consecutive 4)))"

definition restart_jvm :: "world \<Rightarrow> state_machine \<Rightarrow> handler_result" where
  "restart_jvm wd sm =
     (let sm1 = stop_socat (abort_client_id_task sm);
          sm2 = emit WaitJvm (if wd_running wd then emit KillJvm sm1 else sm1);
          sm3 = (if wd_still_running wd then emit KillJvm sm2 else sm2)
      in goto_state Launching (emit ResetHandlers (emit RemoveAgentSocket sm3)))"

definition do_restart :: "world \<Rightarrow> state_machine \<Rightarrow> handler_result" where
  "do_restart wd sm =
     (let warm = (sm_warm_restart_pending sm \<noteq> None);
          delay = restart_delay (ti_restart_delay_secs (cf_timing (sm_config sm))) (sm_jvm_restarts sm) warm
      in if \<not> warm \<and> delay > 0 \<and> in_state_ms wd sm div 1000 < delay then goto_state Restarting sm
         else if warm then restart_jvm wd sm
         else (let n = saturating_add u32_max (sm_jvm_restarts sm) 1;
                   sm1 = sm\<lparr>sm_jvm_restarts := n\<rparr>;
                   limit = env_uint wd u32_max ''IBCTL_CONTAINER_EXIT_AFTER_RESTARTS'' 8
               in if limit > 0 \<and> n \<ge> limit
                  then goto_state Shutdown
                         (emit (WriteRecycleMarker (case wd_getenv wd ''IBCTL_CONTAINER_RECYCLE_MARKER'' of
                            None \<Rightarrow> ''/opt/ibctl/persist/maintenance/container-recycle'' | Some p \<Rightarrow> p) n) sm1)
                  else restart_jvm wd sm1))"

section \<open>Waiting for IB and for the operator\<close>

definition do_waiting_for_ib :: "world \<Rightarrow> state_machine \<Rightarrow> handler_result" where
  "do_waiting_for_ib wd sm =
     (if ib_available (sm_ib sm)
      then (case ib_return_state (sm_ib sm) of
              Some s \<Rightarrow> goto_state s (sm\<lparr>sm_ib := (sm_ib sm)\<lparr>ib_return_state := None\<rparr>\<rparr>)
            | None \<Rightarrow> goto_state Init sm)
      else goto_state WaitingForIB sm)"

definition compute_next_hitl_deadline :: "instant \<Rightarrow> hitl_strategy \<Rightarrow> nat list \<Rightarrow> nat \<Rightarrow> instant option" where
  "compute_next_hitl_deadline now strategy intervals idx =
     (if strategy \<notin> {HitlPeriodic, HitlBoth} then None
      else if intervals = [] then None
      else (let minutes = (if idx < length intervals then intervals ! idx else last intervals)
            in Some (now + 60000 * int minutes)))"

definition hitl_demote_tick_threshold :: nat where "hitl_demote_tick_threshold = 3"

definition hitl_enter :: "world \<Rightarrow> state_machine \<Rightarrow> state_machine" where
  "hitl_enter wd sm =
     (if hi_entered_at (sm_hitl sm) \<noteq> None then sm
      else (let bo = tc_backoff (cf_twofa (sm_config sm))
            in sm\<lparr>sm_hitl := \<lparr>hi_entered_at = Some (wd_now wd),
                   hi_next_retry_at = compute_next_hitl_deadline (wd_now wd) (bo_strategy bo) (bo_intervals_minutes bo) 0,
                   hi_intervals_index = 0, hi_ntfy_attempts = 0, hi_ntfy_sent = False,
                   hi_login_form_ticks = 0, hi_connected_ticks = 0\<rparr>\<rparr>))"

text \<open>
  The two debounced checks of the world: a login form without a challenge, and a gateway
  that says it is connected.
\<close>

definition hitl_login_check :: "state_machine \<Rightarrow> state_machine \<times> sm_state option" where
  "hitl_login_check sm =
     (if has_login_form (sm_observation sm) \<and> \<not> has_2fa_dialog (sm_observation sm)
      then (let n = saturating_add u8_max (hi_login_form_ticks (sm_hitl sm)) 1
            in (sm\<lparr>sm_hitl := (sm_hitl sm)\<lparr>hi_login_form_ticks := n\<rparr>\<rparr>,
                if n \<ge> hitl_demote_tick_threshold then Some WaitingForLogin else None))
      else (sm\<lparr>sm_hitl := (sm_hitl sm)\<lparr>hi_login_form_ticks := 0\<rparr>\<rparr>, None))"

definition hitl_sees_connected :: "world \<Rightarrow> state_machine \<Rightarrow> bool" where
  "hitl_sees_connected wd sm =
     (let ob = sm_observation sm
      in \<not> has_2fa_dialog ob \<and> \<not> has_login_form ob
         \<and> (case main_gateway_window ob of
              None \<Rightarrow> False
            | Some w \<Rightarrow> (case wd_dump wd (ow_id w) of None \<Rightarrow> False | Some c \<Rightarrow> components_indicate_connected c)))"

definition hitl_connected_check :: "world \<Rightarrow> state_machine \<Rightarrow> state_machine \<times> sm_state option" where
  "hitl_connected_check wd sm =
     (if hitl_sees_connected wd sm
      then (let n = saturating_add u8_max (hi_connected_ticks (sm_hitl sm)) 1
            in (sm\<lparr>sm_hitl := (sm_hitl sm)\<lparr>hi_connected_ticks := n\<rparr>\<rparr>,
                if n \<ge> hitl_demote_tick_threshold then Some WaitingForApiReady else None))
      else (sm\<lparr>sm_hitl := (sm_hitl sm)\<lparr>hi_connected_ticks := 0\<rparr>\<rparr>, None))"

definition hitl_deadline_check :: "world \<Rightarrow> state_machine \<Rightarrow> state_machine \<times> sm_state option" where
  "hitl_deadline_check wd sm =
     (case hi_next_retry_at (sm_hitl sm) of
        None \<Rightarrow> (sm, None)
      | Some t \<Rightarrow>
          if wd_now wd < t then (sm, None)
          else (let bo = tc_backoff (cf_twofa (sm_config sm));
                    i = saturating_add u64_max (hi_intervals_index (sm_hitl sm)) 1
                in (sm\<lparr>sm_hitl := (sm_hitl sm)\<lparr>hi_intervals_index := i,
                      hi_next_retry_at := compute_next_hitl_deadline (wd_now wd) (bo_strategy bo)
                                            (bo_intervals_minutes bo) i\<rparr>\<rparr>, Some Restarting)))"

text \<open>
  \<open>cold_rx\<close> is what \<open>try_recv\<close> on the controller's own cold-restart receiver returns during
  this handler.
\<close>

definition do_waiting_for_hitl_2fa :: "world \<Rightarrow> cold_restart_signal option \<Rightarrow> state_machine \<Rightarrow> handler_result" where
  "do_waiting_for_hitl_2fa wd cold_rx sm0 =
     (let sm = hitl_enter wd sm0
      in if bo_cold_restart_preempts_hitl (tc_backoff (cf_twofa (sm_config sm))) \<and> cold_rx \<noteq> None
         then goto_state Restarting sm
         else revoked_or (hitl_login_check sm) (\<lambda>sm1.
              revoked_or (hitl_connected_check wd sm1) (\<lambda>sm2.
              revoked_or (hitl_deadline_check wd sm2) (\<lambda>sm3.
              goto_state WaitingForHitl2fa sm3))))"

section \<open>Dispatch\<close>

fun transition :: "world \<Rightarrow> cold_restart_signal option \<Rightarrow> sm_state \<Rightarrow> state_machine \<Rightarrow> handler_result" where
  "transition wd cold_rx WaitingForLaunch sm = do_waiting_for_launch sm"
| "transition wd cold_rx Init sm = do_init wd sm"
| "transition wd cold_rx Launching sm = do_launch wd sm"
| "transition wd cold_rx WaitingForAgent sm = do_wait_for_agent wd sm"
| "transition wd cold_rx WaitingForLogin sm = do_wait_for_login wd sm"
| "transition wd cold_rx Authenticating sm = do_authenticate wd sm"
| "transition wd cold_rx WaitingFor2fa sm = do_wait_for_2fa wd sm"
| "transition wd cold_rx HandlingSessionConflict sm = do_handle_session_conflict wd sm"
| "transition wd cold_rx DismissingPopups sm = do_dismiss_popups wd sm"
| "transition wd cold_rx WaitingForApiReady sm = do_wait_for_api_ready wd sm"
| "transition wd cold_rx ConfiguringApi sm = do_configure_api wd sm"
| "transition wd cold_rx Connected sm = do_connected wd sm"
| "transition wd cold_rx ReconnectingSession sm = do_reconnecting_session wd sm"
| "transition wd cold_rx Restarting sm = do_restart wd sm"
| "transition wd cold_rx WaitingForIB sm = do_waiting_for_ib wd sm"
| "transition wd cold_rx WaitingForHitl2fa sm = do_waiting_for_hitl_2fa wd cold_rx sm"
| "transition wd cold_rx Shutdown sm = goto_state Shutdown sm"
| "transition wd cold_rx (ErrorState msg) sm = goto_state (ErrorState msg) sm"

end
