(* ===== verification/Handler_Frames.thy ===== *)
theory Handler_Frames
  imports Session_Handlers
begin

text \<open>
  What the handlers leave alone. \<open>frame_of\<close> collects the parts of the controller that only
  the main loop may change (the state itself, the recovery coordinator, the disk) together
  with the bookkeeping of a Connected session and the credential submissions made so far.
  Every handler but the three that submit credentials or run the session keeps all of it.
\<close>

text \<open>The submissions of credentials and codes: dispatches to a handler chosen by name.\<close>

fun is_submission :: "effect \<Rightarrow> bool" where
  "is_submission (DispatchNamed h w) = True"
| "is_submission _ = False"

definition submissions :: "state_machine \<Rightarrow> effect list" where
  "submissions sm = filter is_submission (sm_effects sm)"

definition session_part :: "state_machine \<Rightarrow> _" where
  "session_part sm =
     (sm_revocation sm, sm_probe_task sm, sm_probe_failed sm, sm_connected_since sm,
      sm_connected_continuously_since sm, sm_connected_window_class sm, sm_dwell_guard sm,
      sm_connection_event_disconnected sm, sm_settings_good_marked sm)"

definition loop_part :: "state_machine \<Rightarrow> _" where
  "loop_part sm =
     (sm_st sm, sm_config sm, sm_recovery sm, sm_disk sm, sm_equiv_pending sm, sm_equiv_path sm,
      sm_pending_token sm, sm_dwell_queue sm, sm_pause sm)"

definition frame_of :: "state_machine \<Rightarrow> _" where
  "frame_of sm = (loop_part sm, session_part sm, submissions sm)"

lemmas frame_defs = frame_of_def loop_part_def session_part_def submissions_def

lemma frame_emit: "\<not> is_submission e \<Longrightarrow> frame_of (emit e sm) = frame_of sm"
  by (simp add: frame_defs emit_def)

lemma frame_basic [simp]:
  "frame_of (abort_client_id_task sm) = frame_of sm"
  "frame_of (stop_socat sm) = frame_of sm"
  "frame_of (start_socat b p q sm) = frame_of sm"
  "frame_of (sm\<lparr>sm_twofa := tf\<rparr>) = frame_of sm"
  "frame_of (sm\<lparr>sm_warm_restart_pending := x\<rparr>) = frame_of sm"
  "frame_of (sm\<lparr>sm_state_entered_at := t\<rparr>) = frame_of sm"
  "frame_of (sm\<lparr>sm_observation := ob\<rparr>) = frame_of sm"
  "frame_of (sm\<lparr>sm_popup_last_dismissed := y\<rparr>) = frame_of sm"
  "frame_of (sm\<lparr>sm_agent_failures := n\<rparr>) = frame_of sm"
  "frame_of (sm\<lparr>sm_config_retries := n\<rparr>) = frame_of sm"
  "frame_of (sm\<lparr>sm_label_drift := l\<rparr>) = frame_of sm"
  "frame_of (sm\<lparr>sm_relogin_attempts := n\<rparr>) = frame_of sm"
  "frame_of (sm\<lparr>sm_jvm_restarts := n\<rparr>) = frame_of sm"
  "frame_of (sm\<lparr>sm_ib := ib\<rparr>) = frame_of sm"
  "frame_of (sm\<lparr>sm_hitl := h\<rparr>) = frame_of sm"
  "frame_of (sm\<lparr>sm_cached_client_ids := ids\<rparr>) = frame_of sm"
  "frame_of (sm\<lparr>sm_client_id_task := c\<rparr>) = frame_of sm"
  by (simp_all add: frame_defs abort_client_id_task_def stop_socat_def start_socat_def emit_def Let_def)

lemma frame_fold:
  "(\<And>w s. frame_of (f w s) = frame_of s) \<Longrightarrow> frame_of (fold f ws sm) = frame_of sm"
  by (induction ws arbitrary: sm) auto

lemma goto_fst [simp]: "fst (goto_state s sm) = sm" "snd (goto_state s sm) = Inr s"
  by (simp_all add: goto_state_def)

lemmas handler_simps = frame_emit Let_def

lemma frame_launch:
  "frame_of (fst (do_waiting_for_launch sm)) = frame_of sm"
  "frame_of (fst (do_init wd sm)) = frame_of sm"
  "frame_of (fst (do_launch wd sm)) = frame_of sm"
  "frame_of (fst (do_wait_for_agent wd sm)) = frame_of sm"
  by (simp_all add: do_waiting_for_launch_def do_init_def do_launch_def do_wait_for_agent_def handler_simps)

lemma frame_cold_login: "frame_of (fst (cold_login wd k sm)) = frame_of sm"
  by (simp add: cold_login_def handler_simps split: option.split)

lemma frame_login: "frame_of (fst (do_wait_for_login wd sm)) = frame_of sm"
  by (simp add: do_wait_for_login_def frame_cold_login)

lemma frame_conflict: "frame_of (fst (do_handle_session_conflict wd sm)) = frame_of sm"
  by (simp add: do_handle_session_conflict_def handler_simps split: option.split)

lemma frame_popups: "frame_of (fst (do_dismiss_popups wd sm)) = frame_of sm"
proof -
  have pass: "frame_of (popup_pass wd ws s) = frame_of s" for ws s
    unfolding popup_pass_def by (rule frame_fold) (simp add: handler_simps)
  have blocked: "popups_blocked wd s = Some (s', x) \<Longrightarrow> frame_of s' = frame_of s" for s s' x
    by (auto simp: popups_blocked_def handler_simps split: if_splits option.splits)
  show ?thesis
    by (cases "popups_blocked wd sm") (auto simp: do_dismiss_popups_def pass Let_def dest: blocked)
qed

lemma frame_api_ready: "frame_of (fst (do_wait_for_api_ready wd sm)) = frame_of sm"
  by (simp add: do_wait_for_api_ready_def Let_def split: option.split api_scan.split)

lemma frame_menus: "frame_of (dismiss_menus ws sm) = frame_of sm"
  by (simp add: dismiss_menus_def frame_emit split: option.split)

lemma frame_configure: "frame_of (fst (do_configure_api wd sm)) = frame_of sm"
  by (simp add: do_configure_api_def frame_menus handler_simps split: option.split prod.split)

lemma frame_relogin_exhausted: "frame_of (fst (relogin_exhausted wd sm)) = frame_of sm"
proof -
  have "frame_of (fold (\<lambda>w. emit (ClickButton (w_id w) ''Cancel'')) ws s) = frame_of s" for ws :: "window_info list" and s
    by (rule frame_fold) (simp add: frame_emit)
  then show ?thesis
    by (simp add: relogin_exhausted_def handler_simps split: relogin_failure_action.split option.split)
qed

lemma frame_reconnecting: "frame_of (fst (do_reconnecting_session wd sm)) = frame_of sm"
proof -
  have "frame_of (fst (relogin_gone wd sm)) = frame_of sm"
    by (simp add: relogin_gone_def handler_simps)
  then show ?thesis
    by (simp add: do_reconnecting_session_def frame_relogin_exhausted handler_simps split: option.split)
qed

lemma frame_restart: "frame_of (fst (do_restart wd sm)) = frame_of sm"
proof -
  have "frame_of (fst (restart_jvm wd s)) = frame_of s" for s
    by (simp add: restart_jvm_def handler_simps)
  then show ?thesis by (simp add: do_restart_def handler_simps)
qed

lemma frame_ib: "frame_of (fst (do_waiting_for_ib wd sm)) = frame_of sm"
  by (simp add: do_waiting_for_ib_def split: option.split)

lemma revoked_or_frame:
  assumes "frame_of (fst r) = frame_of sm" and "\<And>s. frame_of s = frame_of sm \<Longrightarrow> frame_of (fst (k s)) = frame_of sm"
  shows "frame_of (fst (revoked_or r k)) = frame_of sm"
  using assms by (cases r) (auto simp: revoked_or_def split: option.split)

lemma frame_hitl_checks:
  "frame_of (hitl_enter wd sm) = frame_of sm"
  "frame_of (fst (hitl_login_check sm)) = frame_of sm"
  "frame_of (fst (hitl_connected_check wd sm)) = frame_of sm"
  "frame_of (fst (hitl_deadline_check wd sm)) = frame_of sm"
  by (simp_all add: hitl_enter_def hitl_login_check_def hitl_connected_check_def hitl_deadline_check_def Let_def
      split: option.split)

lemma frame_hitl: "frame_of (fst (do_waiting_for_hitl_2fa wd rx sm)) = frame_of sm"
  unfolding do_waiting_for_hitl_2fa_def Let_def
  by (simp add: frame_hitl_checks) (intro impI revoked_or_frame; simp add: frame_hitl_checks)

text \<open>The summary: outside Authenticating, WaitingFor2fa and Connected a handler keeps the frame.\<close>

lemma transition_frame:
  assumes "s \<notin> {Authenticating, WaitingFor2fa, Connected}"
  shows "frame_of (fst (transition wd rx s sm)) = frame_of sm"
  using assms
  by (cases s) (simp_all add: frame_launch frame_login frame_conflict frame_popups frame_api_ready
      frame_configure frame_reconnecting frame_restart frame_ib frame_hitl)

section \<open>The handlers that submit credentials\<close>

definition parts_of :: "state_machine \<Rightarrow> _" where
  "parts_of sm = (loop_part sm, session_part sm)"

lemma parts_of_frame: "frame_of a = frame_of b \<Longrightarrow> parts_of a = parts_of b"
  by (simp add: frame_of_def parts_of_def)

lemma parts_basic [simp]:
  "parts_of (emit e sm) = parts_of sm"
  "parts_of (sm\<lparr>sm_twofa := tf\<rparr>) = parts_of sm"
  "parts_of (sm\<lparr>sm_observation := ob\<rparr>) = parts_of sm"
  "parts_of (sm\<lparr>sm_agent_failures := n\<rparr>) = parts_of sm"
  by (simp_all add: parts_of_def loop_part_def session_part_def emit_def)

lemma parts_retry:
  "parts_of (fst (wait_for_observed_twofa_retry wd sm)) = parts_of sm"
  "retry_deadline_passed wd sm = Some sm' \<Longrightarrow> parts_of sm' = parts_of sm"
  by (auto simp: wait_for_observed_twofa_retry_def retry_deadline_passed_def split: option.splits if_splits)

lemma parts_submit_login: "parts_of (fst (submit_login wd w sm)) = parts_of sm"
  by (simp add: submit_login_def Let_def split: option.split dispatch_result.split)

lemma parts_authenticate: "parts_of (fst (do_authenticate wd sm)) = parts_of sm"
proof -
  obtain sm1 r where w: "wait_for_observed_twofa_retry wd sm = (sm1, r)" by (cases "wait_for_observed_twofa_retry wd sm")
  then have p: "parts_of sm1 = parts_of sm" using parts_retry(1) [of wd sm] by simp
  show ?thesis
    using w p
    by (auto simp: do_authenticate_def parts_submit_login dest!: parts_retry(2)
        split: sum.split bool.split option.split)
qed

lemma parts_twofa_visible: "parts_of (fst (twofa_visible wd w sm)) = parts_of sm"
proof -
  have "parts_of (fst (twofa_submit wd w s)) = parts_of s" for s by (simp add: twofa_submit_def)
  then show ?thesis by (simp add: twofa_visible_def Let_def)
qed

lemma parts_twofa_windows: "parts_of (fst (twofa_windows wd ws sm)) = parts_of sm"
proof -
  have "parts_of (fst (twofa_gone wd ws s)) = parts_of s" for s by (simp add: twofa_gone_def Let_def)
  then show ?thesis by (simp add: twofa_windows_def parts_twofa_visible Let_def split: option.split)
qed

lemma parts_timeout: "parts_of (fst (twofa_timeout wd sm)) = parts_of sm"
  by (simp add: twofa_timeout_def Let_def)

lemma parts_wait_2fa: "parts_of (fst (do_wait_for_2fa wd sm)) = parts_of sm"
proof -
  obtain sm1 r where w: "wait_for_observed_twofa_retry wd sm = (sm1, r)" by (cases "wait_for_observed_twofa_retry wd sm")
  then have p: "parts_of sm1 = parts_of sm" using parts_retry(1) [of wd sm] by simp
  have tail: "parts_of (fst (case twofa_windows wd ws s of (s3, Some x) \<Rightarrow> goto_state x s3
      | (s3, None) \<Rightarrow> twofa_timeout wd s3)) = parts_of s" for ws s
    using parts_twofa_windows [of wd ws s] parts_timeout
    by (cases "twofa_windows wd ws s") (simp split: option.split)
  show ?thesis
    using w p
    by (auto simp: do_wait_for_2fa_def Let_def parts_timeout tail dest!: parts_retry(2)
        split: sum.split bool.split option.split)
qed

text \<open>No handler changes what belongs to the loop; outside Connected none touches the session.\<close>

lemma transition_parts: "s \<noteq> Connected \<Longrightarrow> parts_of (fst (transition wd rx s sm)) = parts_of sm"
proof (cases "s \<in> {Authenticating, WaitingFor2fa}")
  case True
  then show ?thesis by (elim insertE) (simp_all add: parts_authenticate parts_wait_2fa)
next
  case False
  moreover assume "s \<noteq> Connected"
  ultimately have "frame_of (fst (transition wd rx s sm)) = frame_of sm" by (intro transition_frame) simp
  then show ?thesis by (rule parts_of_frame)
qed

definition loop_frame :: "state_machine \<Rightarrow> _" where
  "loop_frame sm = (loop_part sm, submissions sm)"

lemmas loop_frame_defs = loop_frame_def loop_part_def submissions_def

lemma loop_frame_emit: "\<not> is_submission e \<Longrightarrow> loop_frame (emit e sm) = loop_frame sm"
  by (simp add: loop_frame_defs emit_def)

lemma loop_frame_updates [simp]:
  "loop_frame (sm\<lparr>sm_revocation := tr\<rparr>) = loop_frame sm"
  "loop_frame (sm\<lparr>sm_connected_window_class := c\<rparr>) = loop_frame sm"
  "loop_frame (sm\<lparr>sm_client_id_task := b\<rparr>) = loop_frame sm"
  "loop_frame (sm\<lparr>sm_warm_restart_pending := x\<rparr>) = loop_frame sm"
  "loop_frame (start_socat b p q sm) = loop_frame sm"
  by (simp_all add: loop_frame_defs emit_def start_socat_def stop_socat_def Let_def)

lemma revoked_or_loop:
  assumes "loop_frame (fst r) = loop_frame sm"
    and "\<And>s. loop_frame s = loop_frame sm \<Longrightarrow> loop_frame (fst (k s)) = loop_frame sm"
  shows "loop_frame (fst (revoked_or r k)) = loop_frame sm"
  using assms by (cases r) (auto simp: revoked_or_def split: option.split)

lemma loop_bus: "loop_frame (fst (bus wd b src sm)) = loop_frame sm" "loop_frame (fst (bus_port wd sm)) = loop_frame sm"
  by (auto simp: bus_def bus_port_def loop_frame_defs split: prod.split option.split)

lemma loop_connected_tail:
  "loop_frame (ensure_socat wd b sm) = loop_frame sm"
  "loop_frame (record_window_class wd sm) = loop_frame sm"
  "loop_frame (adopt_window_class sm) = loop_frame sm"
  "loop_frame (connected_upkeep wd sm) = loop_frame sm"
  by (auto simp: ensure_socat_def record_window_class_def adopt_window_class_def connected_upkeep_def
      loop_frame_defs emit_def start_socat_def stop_socat_def Let_def split: option.split bool.split)

lemma loop_dispatch_all: "loop_frame (dispatch_all ws sm) = loop_frame sm"
  unfolding dispatch_all_def by (induction ws arbitrary: sm) (simp_all add: loop_frame_emit)

lemma loop_probe: "loop_frame (fst (connected_probe wd ws sm)) = loop_frame sm"
  unfolding connected_probe_def Let_def
  by (simp add: loop_dispatch_all loop_connected_tail)
     (intro conjI impI revoked_or_loop; simp add: loop_bus loop_dispatch_all loop_connected_tail)

lemma loop_connected: "loop_frame (fst (do_connected wd sm)) = loop_frame sm"
  unfolding do_connected_def Let_def
  by (simp add: jvm_exited_def Let_def loop_frame_emit loop_connected_tail)
     (intro impI revoked_or_loop; simp add: loop_bus loop_probe loop_connected_tail)

lemma transition_loop_part: "loop_part (fst (transition wd rx s sm)) = loop_part sm"
  using transition_parts [of s wd rx sm] loop_connected [of wd sm]
  by (cases "s = Connected") (simp_all add: parts_of_def loop_frame_def)

lemma transition_submissions:
  "s \<notin> {Authenticating, WaitingFor2fa} \<Longrightarrow> submissions (fst (transition wd rx s sm)) = submissions sm"
  using transition_frame [of s wd rx sm] loop_connected [of wd sm]
  by (cases "s = Connected") (simp_all add: frame_of_def loop_frame_def)

lemma transition_keeps:
  assumes "transition wd rx s sm = (sm', r)"
  shows "sm_st sm' = sm_st sm" "sm_config sm' = sm_config sm" "sm_recovery sm' = sm_recovery sm"
    "sm_disk sm' = sm_disk sm" "sm_equiv_pending sm' = sm_equiv_pending sm"
  using transition_loop_part [of wd rx s sm] assms by (simp_all add: loop_part_def)

end
