(* ===== verification/Main_Loop.thy ===== *)
theory Main_Loop
  imports Handler_Frames
begin

text \<open>
  The main loop of \<open>state_machine/mod.rs\<close> (\<open>run\<close>): the start-up gates, and one iteration
  made of the bookkeeping, the race between an interrupt and the state's handler, the
  drained agent events and the processing of the outcome. Here an interrupt is taken
  before the handler has changed anything; \<open>Cancellation\<close> has the loop in which it drops the
  handler at any later point. Background tasks act between iterations.
\<close>

section \<open>Start-up\<close>

definition run_start :: "zoned \<Rightarrow> state_machine \<Rightarrow> state_machine" where
  "run_start wall sm =
     (let sm1 = (if \<not> cf_auto_launch (sm_config sm) \<and> sm_st sm = Init then sm\<lparr>sm_st := WaitingForLaunch\<rparr> else sm)
      in if co_blocked_awaiting_resume (sm_recovery sm1) \<and> sm_st sm1 \<noteq> WaitingForLaunch
         then sm_record wall (sm_st sm1) WaitingForLaunch (sm1\<lparr>sm_st := WaitingForLaunch\<rparr>)
         else sm1)"

section \<open>Background tasks\<close>

text \<open>
  The dwell task of the current guard sends one success once the dwell time is over; the
  probe task raises the flag while it is held.
\<close>

datatype async_event = DwellFires zoned instant | ProbeFails

fun async_step :: "async_event \<Rightarrow> state_machine \<Rightarrow> state_machine" where
  "async_step (DwellFires wall at_mono) sm =
     (case sm_dwell_guard sm of
        Some (t0, False) \<Rightarrow>
          if at_mono \<ge> t0 + 1000 * int (rc_min_success_dwell_secs (co_config (sm_recovery sm)))
          then sm\<lparr>sm_dwell_guard := Some (t0, True), sm_dwell_queue := sm_dwell_queue sm @ [(wall, at_mono)]\<rparr>
          else sm
      | _ \<Rightarrow> sm)"
| "async_step ProbeFails sm = (if sm_probe_task sm then sm\<lparr>sm_probe_failed := True\<rparr> else sm)"

section \<open>One iteration\<close>

datatype select_outcome = Interrupted interrupt | Completed

record iteration =
  it_async :: "async_event list"
  it_pre :: world
  it_outcome :: select_outcome
  it_post :: world
  it_events :: "agent_event list"

datatype loop_result =
    Continue state_machine
  | Finished state_machine
  | Failed sm_error state_machine
  | Panicked panic

definition pre_transition :: "params \<Rightarrow> world \<Rightarrow> state_machine \<Rightarrow> state_machine rust" where
  "pre_transition pr wd sm =
     tick_recovery pr (wd_now wd) (wd_wall wd) (wd_running wd)
       (check_ib_system_availability (wd_wall wd) (check_ib_status_ttl (wd_now wd) sm))"

text \<open>
  The receivers are moved out of the controller while the handler runs, so the handler's own
  \<open>try_recv\<close> on the cold-restart channel finds a dummy. A paused controller runs no handler.
\<close>

definition run_handler :: "world \<Rightarrow> state_machine \<Rightarrow> handler_result" where
  "run_handler wd sm =
     (if pc_paused (sm_pause sm) then goto_state (sm_st sm) sm else transition wd None (sm_st sm) sm)"

definition drain_events :: "instant \<Rightarrow> agent_event list \<Rightarrow> state_machine \<Rightarrow> state_machine" where
  "drain_events now evs sm = fold (handle_agent_event now) evs sm"

definition finish_interrupt :: "world \<Rightarrow> interrupt \<Rightarrow> state_machine \<Rightarrow> loop_result" where
  "finish_interrupt wd i sm =
     (let sm1 = handle_interrupt wd i sm
      in if sm_st sm1 = Shutdown then Finished (do_shutdown (wd_running wd) sm1) else Continue sm1)"

definition finish_transition ::
  "params \<Rightarrow> world \<Rightarrow> sm_error + sm_state \<Rightarrow> state_machine \<Rightarrow> loop_result" where
  "finish_transition pr wd r sm =
     (case r of
        Inl e \<Rightarrow> Failed e sm
      | Inr next \<Rightarrow>
          (let sm1 = (if next \<noteq> sm_st sm
                      then apply_transition pr (wd_now wd) (wd_wall wd) (wd_running wd) next sm else sm)
           in if sm_st sm1 = Shutdown then Finished sm1 else Continue sm1))"

definition loop_iteration :: "params \<Rightarrow> iteration \<Rightarrow> state_machine \<Rightarrow> loop_result" where
  "loop_iteration pr it sm =
     (case pre_transition pr (it_pre it) (fold async_step (it_async it) sm) of
        Inl p \<Rightarrow> Panicked p
      | Inr sm1 \<Rightarrow>
          (case it_outcome it of
             Interrupted i \<Rightarrow>
               finish_interrupt (it_post it) i (drain_events (wd_now (it_post it)) (it_events it) sm1)
           | Completed \<Rightarrow>
               (case run_handler (it_post it) sm1 of
                  (sm2, r) \<Rightarrow>
                    finish_transition pr (it_post it) r
                      (drain_events (wd_now (it_post it)) (it_events it) sm2))))"

fun run_loop :: "params \<Rightarrow> iteration list \<Rightarrow> state_machine \<Rightarrow> loop_result" where
  "run_loop pr [] sm = Continue sm"
| "run_loop pr (it # its) sm =
     (case loop_iteration pr it sm of Continue sm1 \<Rightarrow> run_loop pr its sm1 | r \<Rightarrow> r)"

section \<open>Frame facts\<close>

lemma emit_frame [simp]:
  "sm_st (emit e sm) = sm_st sm" "sm_config (emit e sm) = sm_config sm" "sm_recovery (emit e sm) = sm_recovery sm"
  "sm_disk (emit e sm) = sm_disk sm" "sm_revocation (emit e sm) = sm_revocation sm"
  "sm_observation (emit e sm) = sm_observation sm" "sm_twofa (emit e sm) = sm_twofa sm"
  "sm_warm_restart_pending (emit e sm) = sm_warm_restart_pending sm"
  "sm_effects (emit e sm) = sm_effects sm @ [e]" "sm_equiv_pending (emit e sm) = sm_equiv_pending sm"
  by (simp_all add: emit_def)

lemma sm_record_frame [simp]:
  "sm_st (sm_record w a b sm) = sm_st sm" "sm_config (sm_record w a b sm) = sm_config sm"
  "sm_recovery (sm_record w a b sm) = sm_recovery sm" "sm_disk (sm_record w a b sm) = sm_disk sm"
  "sm_revocation (sm_record w a b sm) = sm_revocation sm" "sm_twofa (sm_record w a b sm) = sm_twofa sm"
  "sm_warm_restart_pending (sm_record w a b sm) = sm_warm_restart_pending sm"
  "sm_effects (sm_record w a b sm) = sm_effects sm" "sm_equiv_pending (sm_record w a b sm) = sm_equiv_pending sm"
  by (simp_all add: sm_record_def)

lemma handle_agent_event_st [simp]:
  "sm_st (handle_agent_event now e sm) = sm_st sm"
  "sm_recovery (handle_agent_event now e sm) = sm_recovery sm"
  "sm_config (handle_agent_event now e sm) = sm_config sm"
  by (cases e; simp add: handle_error_dialog_def handle_connection_status_def Let_def emit_def)+

lemma drain_events_st [simp]:
  "sm_st (drain_events now evs sm) = sm_st sm" "sm_recovery (drain_events now evs sm) = sm_recovery sm"
  "sm_config (drain_events now evs sm) = sm_config sm"
  by (induction evs arbitrary: sm) (simp_all add: drain_events_def)

lemma async_step_frame [simp]:
  "sm_st (async_step a sm) = sm_st sm" "sm_recovery (async_step a sm) = sm_recovery sm"
  "sm_config (async_step a sm) = sm_config sm"
  by (cases a; auto split: option.splits prod.splits bool.splits)+

lemma async_fold_frame [simp]:
  "sm_st (fold async_step as sm) = sm_st sm" "sm_recovery (fold async_step as sm) = sm_recovery sm"
  "sm_config (fold async_step as sm) = sm_config sm"
  by (induction as arbitrary: sm) simp_all

lemma drain_dwell_st [simp]: "sm_st (drain_dwell c q sm) = sm_st sm"
  by (induction c q sm rule: drain_dwell.induct) (auto split: prod.splits)

lemma drain_dwell_idle: "sm_st sm \<noteq> Connected \<Longrightarrow> drain_dwell c q sm = sm\<lparr>sm_dwell_queue := []\<rparr>"
  by (induction c q sm rule: drain_dwell.induct) auto

lemma check_ib_frame [simp]:
  "sm_recovery (check_ib_status_ttl now sm) = sm_recovery sm" "sm_st (check_ib_status_ttl now sm) = sm_st sm"
  "sm_config (check_ib_status_ttl now sm) = sm_config sm"
  "sm_recovery (check_ib_system_availability wall sm) = sm_recovery sm"
  by (simp_all add: check_ib_status_ttl_def check_ib_system_availability_def split: option.splits)

lemma fold_emit_frame:
  assumes "\<And>w s. sm_st (f w s) = sm_st s \<and> sm_recovery (f w s) = sm_recovery s"
  shows "sm_st (fold f ws sm) = sm_st sm \<and> sm_recovery (fold f ws sm) = sm_recovery sm"
  using assms by (induction ws arbitrary: sm) auto

lemma save_settings_frame [simp]:
  "sm_st (save_tws_settings wd sm) = sm_st sm" "sm_recovery (save_tws_settings wd sm) = sm_recovery sm"
proof -
  have d: "sm_st (dismiss_post_save_dialogs wd s) = sm_st s \<and> sm_recovery (dismiss_post_save_dialogs wd s) = sm_recovery s" for s
    unfolding dismiss_post_save_dialogs_def
    by (cases "wd_windows wd 1") (simp_all, rule fold_emit_frame, simp add: Let_def)
  then show "sm_st (save_tws_settings wd sm) = sm_st sm" "sm_recovery (save_tws_settings wd sm) = sm_recovery sm"
    by (simp_all add: save_tws_settings_def Let_def split: option.splits)
qed

section \<open>The parked controller\<close>

text \<open>The outcomes that may take a controller out of standby.\<close>

fun unparks :: "select_outcome \<Rightarrow> bool" where
  "unparks (Interrupted (IntSignal Terminate)) = True"
| "unparks (Interrupted (IntSignal Interrupt)) = True"
| "unparks (Interrupted (IntCommand CmdStart)) = True"
| "unparks (Interrupted (IntCommand CmdExit)) = True"
| "unparks (Interrupted (IntCommand CmdRestart)) = True"
| "unparks (Interrupted (IntCommand (CmdSetState n))) = True"
| "unparks _ = False"

lemma pre_transition_parked:
  assumes "sm_st sm = WaitingForLaunch"
  shows "\<exists>sm1. pre_transition pr wd sm = Inr sm1 \<and> sm_st sm1 = WaitingForLaunch \<and> sm_recovery sm1 = sm_recovery sm"
  using assms
  by (auto simp: pre_transition_def tick_recovery_def drain_dwell_idle active_recovery_def Let_def
      check_ib_system_availability_def)

lemma parked_iteration:
  assumes "sm_st sm = WaitingForLaunch" and "\<not> unparks (it_outcome it)"
  shows "\<exists>sm1. loop_iteration pr it sm = Continue sm1 \<and> sm_st sm1 = WaitingForLaunch \<and> sm_recovery sm1 = sm_recovery sm"
proof -
  obtain sm1 where p: "pre_transition pr (it_pre it) (fold async_step (it_async it) sm) = Inr sm1"
    "sm_st sm1 = WaitingForLaunch" "sm_recovery sm1 = sm_recovery sm"
    using pre_transition_parked [of "fold async_step (it_async it) sm" pr "it_pre it"] assms(1) by auto
  show ?thesis
  proof (cases "it_outcome it")
    case Completed
    with p show ?thesis
      by (simp add: loop_iteration_def run_handler_def do_waiting_for_launch_def goto_state_def
          finish_transition_def)
  next
    case (Interrupted i)
    have "sm_st (handle_interrupt wd i s) = WaitingForLaunch \<and> sm_recovery (handle_interrupt wd i s) = sm_recovery s"
      if "sm_st s = WaitingForLaunch" for s wd
    proof (cases i)
      case (IntSignal sg)
      with assms(2) Interrupted that show ?thesis by (cases sg) (auto simp: handle_interrupt_def)
    next
      case (IntCommand c)
      with assms(2) Interrupted that show ?thesis
        by (cases c) (auto simp: handle_interrupt_def dispatch_command_def handle_command_def
            start_socat_def stop_socat_def send_key_first_def emit_def Let_def save_settings_frame
            split: option.splits list.splits)
    next
      case (IntColdRestart cs)
      with that show ?thesis
        by (cases cs) (simp_all add: handle_interrupt_def is_dormant_def skip_record_def)
    next
      case (IntAgentEvent e)
      with that show ?thesis by (simp add: handle_interrupt_def)
    qed
    with p Interrupted show ?thesis by (simp add: loop_iteration_def finish_interrupt_def Let_def)
  qed
qed

section \<open>Invariants of the loop\<close>

text \<open>
  A predicate that every permitted iteration keeps holds as long as the loop runs; when the
  permitted iterations also never end the loop, it holds after any number of them.
\<close>

locale loop_invariant =
  fixes pr :: params and I :: "state_machine \<Rightarrow> bool" and permitted :: "iteration \<Rightarrow> bool"
  assumes keeps: "I sm \<Longrightarrow> permitted it \<Longrightarrow> loop_iteration pr it sm = Continue sm1 \<Longrightarrow> I sm1"
begin

lemma run_keeps:
  "I sm \<Longrightarrow> \<forall>it \<in> set its. permitted it \<Longrightarrow> run_loop pr its sm = Continue sm1 \<Longrightarrow> I sm1"
proof (induction its arbitrary: sm)
  case (Cons it its)
  then show ?case using keeps by (cases "loop_iteration pr it sm") auto
qed simp

end

locale loop_progress = loop_invariant +
  assumes continues: "I sm \<Longrightarrow> permitted it \<Longrightarrow> \<exists>sm1. loop_iteration pr it sm = Continue sm1"
begin

lemma run_continues:
  "I sm \<Longrightarrow> \<forall>it \<in> set its. permitted it \<Longrightarrow> \<exists>sm1. run_loop pr its sm = Continue sm1 \<and> I sm1"
proof (induction its arbitrary: sm)
  case (Cons it its)
  from Cons.prems continues obtain sm1 where s: "loop_iteration pr it sm = Continue sm1" by force
  have "I sm1" using keeps [OF Cons.prems(1) _ s] Cons.prems(2) by simp
  with Cons s show ?case by simp
qed simp

end

definition parked :: "coordinator \<Rightarrow> state_machine \<Rightarrow> bool" where
  "parked co sm \<longleftrightarrow> sm_st sm = WaitingForLaunch \<and> sm_recovery sm = co"

interpretation parked: loop_progress pr "parked co" "\<lambda>it. \<not> unparks (it_outcome it)" for pr co
proof unfold_locales
  fix sm :: state_machine and it :: iteration and sm1 :: state_machine
  assume p: "parked co sm" "\<not> unparks (it_outcome it)"
  then show "\<exists>sm1. loop_iteration pr it sm = Continue sm1"
    using parked_iteration [of sm it pr] by (auto simp: parked_def)
  assume "loop_iteration pr it sm = Continue sm1"
  with p show "parked co sm1" using parked_iteration [of sm it pr] by (auto simp: parked_def)
qed

section \<open>Concrete controllers for the witnesses\<close>

definition config_example :: sm_config where
  "config_example = \<lparr>cf_tws_path = ''/opt'', cf_auto_launch = True, cf_trading_mode = Paper,
     cf_kick_active_session = False,
     cf_twofa = \<lparr>tc_timeout_action = TimeoutRestart, tc_timeout_seconds = 180, tc_device = [],
       tc_relogin_after_timeout = False, tc_has_secret = True, tc_backoff = default_backoff\<rparr>,
     cf_gateway = \<lparr>gw_live_api_port = 4001, gw_paper_api_port = 4002, gw_live_socat_port = 4003,
       gw_paper_socat_port = 4004\<rparr>,
     cf_timing = default_timing\<rparr>"

definition sm_example :: "sm_state \<Rightarrow> state_machine" where
  "sm_example s = \<lparr>sm_st = s, sm_config = config_example, sm_socat = False, sm_config_retries = 0,
     sm_pause = \<lparr>pc_paused = False, pc_ceiling = None\<rparr>,
     sm_ib = \<lparr>ib_available = True, ib_status = ''available'', ib_reason = [], ib_last_updated = None,
       ib_return_state = None\<rparr>,
     sm_connected_since = None, sm_history = [], sm_cached_client_ids = [],
     sm_warm_restart_pending = None, sm_client_id_task = False, sm_relogin_attempts = 0,
     sm_connected_window_class = None,
     sm_twofa = \<lparr>tf_device_selected = False, tf_seen = False, tf_gone_at = None, tf_retry_not_before = None,
       tf_retry_waiting_for_screen = False, tf_consecutive_timeouts = 0\<rparr>,
     sm_state_entered_at = 0, sm_popup_last_dismissed = None, sm_agent_failures = 0,
     sm_observation = observation_new 0, sm_label_drift = (0, 0), sm_revocation = rev_new,
     sm_connection_event_disconnected = False, sm_jvm_restarts = 0, sm_settings_good_marked = False,
     sm_hitl = hitl_cleared, sm_connected_continuously_since = None, sm_probe_failed = False,
     sm_probe_task = False, sm_equiv_path = equiv_path_example, sm_equiv_pending = False,
     sm_last_skip = None, sm_recovery = co_example Aggressive, sm_dwell_guard = None,
     sm_dwell_queue = [], sm_pending_token = None, sm_mode_tag = ''paper'',
     sm_disk = healthy_disk (\<lambda>_. None), sm_effects = []\<rparr>"

definition wd_example :: "instant \<Rightarrow> world" where
  "wd_example now = \<lparr>wd_now = now, wd_wall = sunday_nine, wd_running = True, wd_windows = (\<lambda>_. Some []),
     wd_dump = (\<lambda>_. None), wd_socat_alive = True, wd_socat_spawns = True, wd_menu = (\<lambda>_ _. None),
     wd_dispatch = (\<lambda>_. None), wd_dispatch_named = (\<lambda>_ _. None), wd_getenv = (\<lambda>_. None),
     wd_tws_path_exists = True, wd_launch_ok = True, wd_agent_healthy = True,
     wd_select_item = (\<lambda>_ _. None), wd_api_config = None, wd_autorestart = None,
     wd_new_client_ids = None, wd_still_running = False, wd_socat_alive_later = True\<rparr>"

definition pr_example :: params where
  "pr_example = \<lparr>pr_codec = codec_example, pr_sip = sip_example, pr_zt = zt_example\<rparr>"

definition it_example :: "select_outcome \<Rightarrow> iteration" where
  "it_example oc = \<lparr>it_async = [], it_pre = wd_example 1000, it_outcome = oc, it_post = wd_example 2000,
     it_events = []\<rparr>"

text \<open>
  A controller parked in WaitingForLaunch, as after a give-up or a refused boot, stays
  there through any number of iterations whose interrupts are not a shutdown signal, START,
  EXIT, RESTART or SETSTATE. In particular any number of RESUME_RECONNECT commands leaves it
  parked with its coordinator unchanged: the recovery tick never looks at the parked token,
  because WaitingForLaunch is not among the states it is active in.
\<close>

theorem resume_reconnect_never_unparks:
  assumes "sm_st sm = WaitingForLaunch" and "\<forall>it \<in> set its. \<not> unparks (it_outcome it)"
  shows "\<exists>sm1. run_loop pr its sm = Continue sm1 \<and> sm_st sm1 = WaitingForLaunch \<and> sm_recovery sm1 = sm_recovery sm"
  using parked.run_continues [of "sm_recovery sm" sm its pr] assms by (simp add: parked_def)

theorem resume_reconnect_never_unparks_witness:
  "\<exists>sm1. run_loop pr_example
       [it_example (Interrupted (IntCommand (CmdResumeReconnect ''tok''))), it_example Completed]
       ((sm_example WaitingForLaunch)\<lparr>sm_recovery := co_example GivenUp\<rparr>) = Continue sm1
     \<and> sm_st sm1 = WaitingForLaunch \<and> co_phase (sm_recovery sm1) = GivenUp"
proof -
  let ?sm = "(sm_example WaitingForLaunch)\<lparr>sm_recovery := co_example GivenUp\<rparr>"
  have "\<exists>sm1. run_loop pr_example
       [it_example (Interrupted (IntCommand (CmdResumeReconnect ''tok''))), it_example Completed] ?sm = Continue sm1
     \<and> sm_st sm1 = WaitingForLaunch \<and> sm_recovery sm1 = sm_recovery ?sm"
    by (rule resume_reconnect_never_unparks) (simp_all add: sm_example_def it_example_def)
  then show ?thesis by (auto simp: co_example_def)
qed

end
