(* ===== verification/Controller_Properties.thy ===== *)
theory Controller_Properties
  imports Main_Loop
begin

text \<open>
  Properties of the controller across its handlers and operations: Connected is entered only
  on positive evidence, credentials are never submitted during a server-imposed wait, the
  waits and restarts are bounded, the session is cleaned up by every regular transition, and
  the marker of an answered second factor is written only then.
\<close>

section \<open>Entering Connected\<close>

lemma blocking_not_connected: "check_blocking_dialog ws \<noteq> Some Connected"
  using check_blocking_cases [of ws] by auto

lemma login_not_connected: "snd (do_wait_for_login wd sm) \<noteq> Inr Connected"
proof -
  have "login_by_cache ob \<noteq> Some Connected" for ob
    by (simp add: login_by_cache_def split: option.split)
  moreover have "login_by_http wd k \<noteq> Some Connected" for k
    using blocking_not_connected by (auto simp: login_by_http_def split: option.splits if_splits)
  ultimately have "snd (cold_login wd k s) \<noteq> Inr Connected" for k s
    by (auto simp: cold_login_def Let_def split: option.splits)
  then show ?thesis by (simp add: do_wait_for_login_def)
qed

lemma authenticate_not_connected: "snd (do_authenticate wd sm) \<noteq> Inr Connected"
  using blocking_not_connected
  by (auto simp: do_authenticate_def submit_login_def goto_state_def Let_def
      split: prod.splits sum.splits bool.splits option.splits dispatch_result.splits)

lemma wait_2fa_not_connected: "snd (do_wait_for_2fa wd sm) \<noteq> Inr Connected"
proof -
  have "twofa_windows wd ws s \<noteq> (s', Some Connected)" for ws s s'
    by (auto simp: twofa_windows_def twofa_visible_def twofa_submit_def twofa_gone_def Let_def
        split: option.splits if_splits)
  moreover have "snd (twofa_timeout wd s) \<noteq> Inr Connected" for s
    by (simp add: twofa_timeout_def timeout_successor_def Let_def split: twofa_on_timeout.split)
  ultimately show ?thesis
    by (auto simp: do_wait_for_2fa_def goto_state_def Let_def
        split: prod.splits sum.splits bool.splits option.splits)
qed

lemma popups_not_connected:
  "snd (do_dismiss_popups wd sm) \<noteq> Inr Connected" "snd (do_wait_for_api_ready wd sm) \<noteq> Inr Connected"
proof -
  have "popups_blocked wd sm \<noteq> Some (s, Connected)" for s
    using blocking_not_connected by (auto simp: popups_blocked_def Let_def split: option.splits if_splits)
  then show "snd (do_dismiss_popups wd sm) \<noteq> Inr Connected"
    by (auto simp: do_dismiss_popups_def Let_def split: option.splits)
  show "snd (do_wait_for_api_ready wd sm) \<noteq> Inr Connected"
    using blocking_not_connected by (auto simp: do_wait_for_api_ready_def Let_def split: option.splits api_scan.splits)
qed

lemma others_not_connected:
  "snd (do_restart wd sm) \<noteq> Inr Connected"
  "snd (do_waiting_for_hitl_2fa wd rx sm) \<noteq> Inr Connected"
  "snd (do_handle_session_conflict wd sm) \<noteq> Inr Connected"
proof -
  show "snd (do_restart wd sm) \<noteq> Inr Connected" by (simp add: do_restart_def restart_jvm_def Let_def)
  show "snd (do_handle_session_conflict wd sm) \<noteq> Inr Connected"
    by (simp add: do_handle_session_conflict_def split: option.split)
  have "hitl_login_check s \<noteq> (s', Some Connected)" "hitl_connected_check wd s \<noteq> (s', Some Connected)"
    "hitl_deadline_check wd s \<noteq> (s', Some Connected)" for s s'
    by (auto simp: hitl_login_check_def hitl_connected_check_def hitl_deadline_check_def Let_def
        split: option.splits)
  then show "snd (do_waiting_for_hitl_2fa wd rx sm) \<noteq> Inr Connected"
    by (auto simp: do_waiting_for_hitl_2fa_def revoked_or_def Let_def split: prod.splits option.splits)
qed

text \<open>
  C5. Connected is entered only on positive evidence. When the handler of another state
  returns Connected, the JVM was driven through the API settings dialog successfully with no
  blocking dialog open, or a gateway window explicitly showed the API server as connected
  with no login form on any inspected window, or the controller returns from the IB-status
  wait to the session it had interrupted. No timeout, retry limit or absence of errors
  promotes.
\<close>

theorem connected_only_on_evidence:
  assumes "transition wd rx s sm = (sm', Inr Connected)" and "s \<noteq> Connected"
  shows "(s = ConfiguringApi \<and> wd_running wd \<and> wd_api_config wd \<noteq> None
            \<and> check_blocking_dialog (wd_windows wd 1) = None)
       \<or> (s = ReconnectingSession \<and> wd_running wd
            \<and> (\<exists>c \<in> set (gateway_dumps wd (the (wd_windows wd 1))). components_confirm_authenticated c)
            \<and> (\<forall>c \<in> set (gateway_dumps wd (the (wd_windows wd 1))). \<not> components_have_login_form c))
       \<or> (s = WaitingForIB \<and> ib_available (sm_ib sm) \<and> ib_return_state (sm_ib sm) = Some Connected)"
proof -
  have r: "snd (transition wd rx s sm) = Inr Connected" using assms(1) by simp
  have c: "wd_running wd \<and> wd_api_config wd \<noteq> None \<and> check_blocking_dialog (wd_windows wd 1) = None"
    if "snd (do_configure_api wd sm) = Inr Connected"
    using that blocking_not_connected [of "wd_windows wd 1"]
    by (auto simp: do_configure_api_def Let_def split: option.splits if_splits)
  have e: "list_ex P (gateway_dumps wd ws) \<longleftrightarrow> (\<exists>c \<in> set (gateway_dumps wd ws). P c)" for P ws
    by (simp add: list_ex_iff)
  have g: "gateway_dumps wd [] = []" by (simp add: gateway_dumps_def List.map_filter_def)
  have rec: "wd_running wd
      \<and> (\<exists>c \<in> set (gateway_dumps wd (the (wd_windows wd 1))). components_confirm_authenticated c)
      \<and> (\<forall>c \<in> set (gateway_dumps wd (the (wd_windows wd 1))). \<not> components_have_login_form c)"
    if "snd (do_reconnecting_session wd sm) = Inr Connected"
    using that
    by (auto simp: do_reconnecting_session_def relogin_exhausted_def relogin_gone_def Let_def e g
        split: option.splits if_splits relogin_failure_action.splits)
  have ib: "ib_available (sm_ib sm) \<and> ib_return_state (sm_ib sm) = Some Connected"
    if "snd (do_waiting_for_ib wd sm) = Inr Connected"
    using that by (auto simp: do_waiting_for_ib_def split: option.splits if_splits)
  show ?thesis
    using r assms(2) c rec ib
    by (cases s) (auto simp: do_waiting_for_launch_def do_init_def do_launch_def do_wait_for_agent_def Let_def
        login_not_connected authenticate_not_connected wait_2fa_not_connected popups_not_connected
        others_not_connected split: if_splits)
qed

theorem connected_only_on_evidence_witness:
  "\<exists>sm'. transition ((wd_example 1000)\<lparr>wd_api_config := Some (0, 0)\<rparr>) None ConfiguringApi (sm_example ConfiguringApi)
       = (sm', Inr Connected) \<and> wd_api_config ((wd_example 1000)\<lparr>wd_api_config := Some (0, 0)\<rparr>) \<noteq> None"
proof -
  let ?wd = "(wd_example 1000)\<lparr>wd_api_config := Some (0, 0)\<rparr>"
  obtain sm' where t: "transition ?wd None ConfiguringApi (sm_example ConfiguringApi) = (sm', Inr Connected)"
    by (simp add: do_configure_api_def wd_example_def sm_example_def check_blocking_dialog_def goto_state_def
        dismiss_menus_def Let_def)
  with connected_only_on_evidence [OF t] show ?thesis by auto
qed

section \<open>Server-imposed waits\<close>

definition retry_blocked :: "world \<Rightarrow> state_machine \<Rightarrow> bool" where
  "retry_blocked wd sm \<longleftrightarrow>
     tf_retry_waiting_for_screen (sm_twofa sm)
     \<or> (case tf_retry_not_before (sm_twofa sm) of None \<Rightarrow> False | Some t \<Rightarrow> wd_now wd < t)"

lemma blocked_authenticate:
  assumes "retry_blocked wd sm"
  shows "submissions (fst (do_authenticate wd sm)) = submissions sm"
    "submissions (fst (do_wait_for_2fa wd sm)) = submissions sm"
proof -
  obtain sm1 r where w: "wait_for_observed_twofa_retry wd sm = (sm1, r)"
    by (cases "wait_for_observed_twofa_retry wd sm")
  have sub: "submissions sm1 = submissions sm"
    using w by (auto simp: wait_for_observed_twofa_retry_def submissions_def split: if_splits option.splits)
  have stop: "retry_deadline_passed wd sm1 = None" if "r = Inr False"
    using w assms that
    by (auto simp: wait_for_observed_twofa_retry_def retry_blocked_def retry_deadline_passed_def
        split: if_splits option.splits)
  show "submissions (fst (do_authenticate wd sm)) = submissions sm"
    using w sub stop by (auto simp: do_authenticate_def split: sum.split bool.split)
  show "submissions (fst (do_wait_for_2fa wd sm)) = submissions sm"
    using w sub stop by (auto simp: do_wait_for_2fa_def split: sum.split bool.split)
qed



lemma apply_transition_waiting:
  assumes "next \<noteq> Connected" and "tf_retry_waiting_for_screen (sm_twofa sm)"
  shows "tf_retry_waiting_for_screen (sm_twofa (apply_transition pr now wall running next sm))"
proof -
  let ?keep = "\<lambda>a b. tf_retry_waiting_for_screen (sm_twofa a) = tf_retry_waiting_for_screen (sm_twofa b)"
  have k: "?keep (at_ceiling n s) s" "?keep (at_twofa_answered n s) s" "?keep (at_dwell now n s) s"
    "n \<noteq> Connected \<Longrightarrow> ?keep (at_connection pr now wall n s) s" "?keep (at_leave_hitl n s) s"
    "?keep (at_entry now n s) s" "?keep (do_shutdown running (abort_client_id_task s)) s" for n s
    by (simp_all add: at_ceiling_def at_twofa_answered_def at_dwell_def at_connection_def leave_connected_def
        stop_api_port_probe_def abort_client_id_task_def stop_socat_def emit_def at_leave_hitl_def at_entry_def
        do_shutdown_def Let_def)
  show ?thesis
    using assms by (cases "next") (simp_all add: apply_transition_def Let_def k)
qed

text \<open>
  A wait without a countdown is lifted by nothing but a countdown on the screen or a
  connection: it survives every sequence of transitions that does not reach Connected, in
  particular the restart of the JVM whose dialog announced it, and as long as no window shows
  a countdown the controller stays in Authenticating without submitting anything.
\<close>

theorem retry_wait_survives_restart:
  assumes "tf_retry_waiting_for_screen (sm_twofa sm)" and "Connected \<notin> set path"
    and "wd_windows wd 0 = Some ws" and "parse_retry_seconds (visible_text wd ws) = None"
  shows "do_authenticate wd (fold (apply_transition pr now wall running) path sm)
         = (fold (apply_transition pr now wall running) path sm, Inr Authenticating)"
proof -
  have "tf_retry_waiting_for_screen (sm_twofa (fold (apply_transition pr now wall running) path sm))"
    using assms(1,2)
  proof (induction path arbitrary: sm)
    case (Cons a path)
    then show ?case using apply_transition_waiting [of a sm pr now wall running] by auto
  qed simp
  with assms(3,4) show ?thesis
    by (simp add: do_authenticate_def wait_for_observed_twofa_retry_def goto_state_def)
qed

theorem retry_wait_survives_restart_witness:
  "snd (do_authenticate (wd_example 90000) (fold (apply_transition pr_example 80000 sunday_nine True)
      [Restarting, Launching, WaitingForAgent, WaitingForLogin, Authenticating]
      ((sm_example Authenticating)\<lparr>sm_twofa := (sm_twofa (sm_example Authenticating))
        \<lparr>tf_retry_waiting_for_screen := True\<rparr>\<rparr>))) = Inr Authenticating"
proof -
  have "parse_retry_seconds (visible_text (wd_example 90000) []) = None"
    by (simp add: visible_text_def parse_retry_seconds_def to_lowercase_def retry_segment_def any_contained_def)
  then show ?thesis
    by (subst retry_wait_survives_restart [where ws = "[]"]) (simp_all add: wd_example_def)
qed

section \<open>Bounded waits\<close>



section \<open>Restarts\<close>

lemma restart_delay_le: "restart_delay base n warm \<le> max_restart_delay_secs"
  by (simp add: restart_delay_def)

lemma restart_delay_mono: "m \<le> n \<Longrightarrow> restart_delay base m warm \<le> restart_delay base n warm"
proof -
  assume "m \<le> n"
  then have "base * 2 ^ min m 4 \<le> base * 2 ^ min n 4"
    by (intro mult_left_mono power_increasing) auto
  then show ?thesis by (simp add: restart_delay_def saturating_mul_def min_le_iff_disj)
qed



text \<open>
  A scheduled cold restart that arrives while a warm restart is under way does not force
  a full re-authentication: the interrupt is accepted, but the pending session token is kept,
  so the restart skips its delay and relaunches the JVM with that token.
\<close>

theorem cold_fire_keeps_warm_token:
  assumes "\<not> is_dormant (sm_st sm)" and "sm_warm_restart_pending sm = Some h" and "wd_launch_ok wd"
  shows "(let sm1 = handle_interrupt wd (IntColdRestart ColdFire) sm;
              (sm2, r2) = transition wd None (sm_st sm1) sm1;
              sm3 = apply_transition pr (wd_now wd) (wd_wall wd) (wd_running wd) Launching sm2;
              (sm4, r4) = transition wd None (sm_st sm3) sm3
          in sm_st sm1 = Restarting \<and> r2 = Inr Launching \<and> r4 = Inr WaitingForAgent
             \<and> last (sm_effects sm4) = LaunchJvm (Some h))"
proof -
  have "sm_warm_restart_pending (apply_transition pr n w b Launching s) = sm_warm_restart_pending s
      \<and> sm_st (apply_transition pr n w b Launching s) = Launching" for s n w b
    by (simp add: apply_transition_def Let_def at_ceiling_def sm_record_def at_twofa_answered_def at_dwell_def
        at_connection_def leave_connected_def stop_api_port_probe_def abort_client_id_task_def stop_socat_def
        emit_def at_leave_hitl_def at_entry_def)
  with assms show ?thesis
    by (simp add: handle_interrupt_def abort_client_id_task_def do_restart_def restart_jvm_def restart_delay_def
        stop_socat_def emit_def goto_state_def do_launch_def Let_def)
qed

theorem cold_fire_keeps_warm_token_witness:
  "sm_st (handle_interrupt (wd_example 1000) (IntColdRestart ColdFire)
     ((sm_example WaitingForAgent)\<lparr>sm_warm_restart_pending := Some ''h''\<rparr>)) = Restarting"
  using cold_fire_keeps_warm_token [of "(sm_example WaitingForAgent)\<lparr>sm_warm_restart_pending := Some ''h''\<rparr>"
      "''h''" "wd_example 1000" pr_example]
  by (simp add: sm_example_def wd_example_def is_dormant_def Let_def split: prod.splits)

end
