(* ===== verification/Session_Properties.thy ===== *)
theory Session_Properties
  imports Controller_Properties
begin

text \<open>
  Properties of a session's life: what a regular transition cleans up and what the commands
  that assign the state directly leave behind, when the marker of an answered second factor
  is written, what a scheduled restart does to a controller that waits for the operator, and
  what happens to the controller when the coordinator gives up.
\<close>

section \<open>What applying a transition does\<close>

lemmas step_defs = at_ceiling_def sm_record_def at_twofa_answered_def at_dwell_def at_connection_def
  enter_connected_def leave_connected_def start_api_port_probe_def stop_api_port_probe_def
  abort_client_id_task_def stop_socat_def emit_def at_leave_hitl_def at_entry_def do_shutdown_def
  write_cold_restart_equivalent_marker_def Let_def

lemma apply_transition_st:
  "sm_st (apply_transition pr now wall running next sm) =
     (case next of ErrorState m \<Rightarrow> Restarting | s \<Rightarrow> s)"
  by (cases "next") (simp_all add: apply_transition_def Let_def)

definition session_clean :: "state_machine \<Rightarrow> bool" where
  "session_clean sm \<longleftrightarrow>
     (sm_st sm \<noteq> Connected \<longrightarrow>
        sm_revocation sm = rev_new \<and> \<not> sm_probe_task sm \<and> \<not> sm_probe_failed sm
        \<and> sm_connected_since sm = None \<and> sm_connected_continuously_since sm = None
        \<and> sm_connected_window_class sm = None \<and> sm_dwell_guard sm = None
        \<and> \<not> sm_connection_event_disconnected sm \<and> \<not> sm_settings_good_marked sm)"

lemma session_clean_part: "session_clean sm \<longleftrightarrow>
    (sm_st sm \<noteq> Connected \<longrightarrow> session_part sm = (rev_new, False, False, None, None, None, None, False, False))"
  by (auto simp: session_clean_def session_part_def)

lemma session_part_steps:
  "session_part (at_ceiling n sm) = session_part sm" "session_part (sm_record w a b sm) = session_part sm"
  "session_part (sm\<lparr>sm_state_entered_at := t, sm_agent_failures := 0\<rparr>) = session_part sm"
  "session_part (at_twofa_answered n sm) = session_part sm" "session_part (at_leave_hitl n sm) = session_part sm"
  "session_part (at_entry now n sm) = session_part sm" "session_part (sm\<lparr>sm_st := s\<rparr>) = session_part sm"
  "session_part (do_shutdown r sm) = session_part sm" "session_part (abort_client_id_task sm) = session_part sm"
  by (simp_all add: session_part_def step_defs)

lemma sm_st_steps:
  "sm_st (at_ceiling n sm) = sm_st sm" "sm_st (at_twofa_answered n sm) = sm_st sm"
  "sm_st (at_dwell now n sm) = sm_st sm" "sm_st (sm\<lparr>sm_state_entered_at := t, sm_agent_failures := 0\<rparr>) = sm_st sm"
  by (simp_all add: step_defs)

lemma session_part_leave:
  assumes "n \<noteq> Connected"
    and "sm_st sm \<noteq> Connected \<longrightarrow> session_part sm = (rev_new, False, False, None, None, None, None, False, False)"
  shows "session_part (at_connection pr now wall n (at_dwell now n sm))
         = (rev_new, False, False, None, None, None, None, False, False)"
  using assms by (cases "sm_st sm = Connected") (simp_all add: session_part_def step_defs)

text \<open>
  C13. Every regular transition leaves the session clean: whatever state the controller is in
  and whatever its handler returns, after the transition is applied a controller that is not
  Connected has no debounce timer running, no probe task or flag, no dwell timer, no recorded
  window class and no connection times left, provided it was clean before.
\<close>

theorem transition_cleans_session:
  assumes "session_clean sm" and "transition wd rx (sm_st sm) sm = (sm', Inr next)" and "next \<noteq> sm_st sm"
  shows "session_clean (apply_transition pr now wall running next sm')"
proof (cases "next = Connected")
  case True
  then show ?thesis by (simp add: session_clean_def apply_transition_st)
next
  case False
  let ?c = "(rev_new, False, False, None, None, None, None, False, False)"
  have st: "sm_st sm' = sm_st sm" using transition_keeps(1) [OF assms(2)] .
  have "sm_st sm' \<noteq> Connected \<longrightarrow> session_part sm' = ?c"
    using assms(1,2) st transition_parts [of "sm_st sm" wd rx sm]
    by (auto simp: session_clean_part parts_of_def)
  then have "session_part (at_connection pr now wall next (at_dwell now next s)) = ?c"
    if "session_part s = session_part sm'" "sm_st s = sm_st sm'" for s
    using that False by (intro session_part_leave) auto
  then have "session_part (apply_transition pr now wall running next sm') = ?c"
    by (cases "next") (simp_all add: apply_transition_def Let_def session_part_steps sm_st_steps)
  then show ?thesis by (simp add: session_clean_part)
qed

theorem transition_cleans_session_witness:
  "session_clean (apply_transition pr_example 1000 sunday_nine True Restarting
     (fst (do_connected ((wd_example 1000)\<lparr>wd_running := False\<rparr>)
        ((sm_example Connected)\<lparr>sm_revocation := rev_new(TagLoginFormVisible \<mapsto> (0, LoginFormVisible))\<rparr>))))"
proof -
  let ?wd = "(wd_example 1000)\<lparr>wd_running := False\<rparr>"
  let ?sm = "(sm_example Connected)\<lparr>sm_revocation := rev_new(TagLoginFormVisible \<mapsto> (0, LoginFormVisible))\<rparr>"
  have st: "sm_st ?sm = Connected" by (simp add: sm_example_def)
  have "transition ?wd None (sm_st ?sm) ?sm = (fst (do_connected ?wd ?sm), Inr Restarting)"
    unfolding st by (simp add: do_connected_def jvm_exited_def goto_state_def Let_def wd_example_def)
  then show ?thesis
    by (rule transition_cleans_session [rotated]) (simp_all add: session_clean_def sm_example_def)
qed

lemma revocation_steps:
  "sm_revocation (at_ceiling n sm) = sm_revocation sm" "sm_revocation (at_twofa_answered n sm) = sm_revocation sm"
  "sm_revocation (at_dwell now n sm) = sm_revocation sm" "sm_revocation (at_leave_hitl n sm) = sm_revocation sm"
  "sm_revocation (at_entry now n sm) = sm_revocation sm" "sm_revocation (do_shutdown r sm) = sm_revocation sm"
  "sm_revocation (abort_client_id_task sm) = sm_revocation sm"
  "sm_st sm \<noteq> Connected \<Longrightarrow> sm_revocation (at_connection pr now wall n sm) = sm_revocation sm"
  by (simp_all add: step_defs)

text \<open>
  A command that assigns the state directly bypasses that cleanup. After RESTART from
  Connected, every debounce timer survives the restart and all transitions of the new login
  up to and including the next entry into Connected, so a contradiction first seen in the old
  session counts as standing in the new one.
\<close>

theorem restart_keeps_debounce_timers:
  assumes "sm_st sm = Connected" and "Connected \<notin> set path" and "path \<noteq> []"
  shows "sm_revocation (fold (apply_transition pr now wall running) (path @ [Connected])
           (dispatch_command wd CmdRestart sm)) = sm_revocation sm"
proof -
  have step: "sm_revocation (apply_transition pr now wall running n s) = sm_revocation s" if "sm_st s \<noteq> Connected" for n s
    using that by (cases n) (simp_all add: apply_transition_def Let_def revocation_steps sm_st_steps)
  have "sm_revocation (fold (apply_transition pr now wall running) path s) = sm_revocation s
      \<and> sm_st (fold (apply_transition pr now wall running) path s) \<noteq> Connected" if "sm_st s \<noteq> Connected" for s
    using assms(2) that
  proof (induction path arbitrary: s)
    case (Cons a path)
    have "sm_st (apply_transition pr now wall running a s) \<noteq> Connected"
      using Cons.prems(1) by (auto simp: apply_transition_st split: sm_state.split)
    with Cons step [of s a] show ?case by simp
  qed simp
  then show ?thesis using step by (simp add: dispatch_command_def abort_client_id_task_def)
qed

theorem restart_keeps_debounce_timers_witness:
  "snd (rev_observe 200000 LoginFormVisible (sm_revocation (fold (apply_transition pr_example 100000 sunday_nine True)
     ([Launching, WaitingForAgent, WaitingForLogin, DismissingPopups, WaitingForApiReady, ConfiguringApi] @ [Connected])
     (dispatch_command (wd_example 1000) CmdRestart
        ((sm_example Connected)\<lparr>sm_revocation := rev_new(TagLoginFormVisible \<mapsto> (0, LoginFormVisible))\<rparr>)))))
   = Some LoginFormVisible"
  by (subst restart_keeps_debounce_timers)
     (simp_all add: sm_example_def rev_observe_def elapsed_ms_def)

section \<open>The marker of an answered second factor\<close>

definition answers_twofa :: "state_machine \<Rightarrow> sm_state \<Rightarrow> bool" where
  "answers_twofa sm next \<longleftrightarrow>
     (sm_st sm = WaitingFor2fa \<and> tf_seen (sm_twofa sm)
        \<and> next \<in> {DismissingPopups, WaitingForApiReady, ConfiguringApi, Connected})
     \<or> (sm_st sm = WaitingForHitl2fa \<and> next = WaitingForApiReady)"

lemma disk_steps:
  "sm_disk (at_ceiling n sm) = sm_disk sm" "sm_disk (at_twofa_answered n sm) = sm_disk sm"
  "sm_disk (at_dwell now n sm) = sm_disk sm" "sm_disk (at_leave_hitl n sm) = sm_disk sm"
  "sm_disk (at_entry now n sm) = sm_disk sm" "sm_disk (do_shutdown r sm) = sm_disk sm"
  "sm_disk (abort_client_id_task sm) = sm_disk sm"
  "sm_disk (at_connection pr now wall n sm) =
     (if n = Connected \<and> sm_st sm \<noteq> Connected \<and> is_credential_gathering (sm_st sm) \<and> sm_equiv_pending sm
      then fst (write_cold_restart_equivalent_marker (pr_zt pr) (sm_equiv_path sm) wall (sm_disk sm))
      else sm_disk sm)"
  by (simp_all add: step_defs)

lemma pending_steps:
  "sm_equiv_pending (at_ceiling n sm) = sm_equiv_pending sm"
  "sm_equiv_pending (at_twofa_answered n sm) = (sm_equiv_pending sm \<or> answers_twofa sm n)"
  "sm_equiv_pending (at_dwell now n sm) = sm_equiv_pending sm"
  "sm_equiv_pending (at_leave_hitl n sm) = sm_equiv_pending sm"
  "sm_equiv_pending (at_entry now n sm) = (sm_equiv_pending sm \<and> n \<noteq> Launching)"
  "sm_equiv_pending (do_shutdown r sm) = sm_equiv_pending sm"
  "sm_equiv_pending (abort_client_id_task sm) = sm_equiv_pending sm"
  "sm_equiv_pending (at_connection pr now wall n sm) =
     (sm_equiv_pending sm \<and> \<not> (n = Connected \<and> sm_st sm \<noteq> Connected))"
  by (auto simp: step_defs answers_twofa_def)

lemma path_steps:
  "sm_equiv_path (at_ceiling n sm) = sm_equiv_path sm" "sm_equiv_path (at_twofa_answered n sm) = sm_equiv_path sm"
  "sm_equiv_path (at_dwell now n sm) = sm_equiv_path sm" "sm_equiv_path (sm_record w a b sm) = sm_equiv_path sm"
  by (simp_all add: step_defs)

lemma answers_steps:
  "answers_twofa (sm\<lparr>sm_state_entered_at := t, sm_agent_failures := 0\<rparr>) n = answers_twofa sm n"
  "answers_twofa (sm_record w a b sm) n = answers_twofa sm n"
  "answers_twofa (at_ceiling m sm) n = answers_twofa sm n"
  by (simp_all add: answers_twofa_def step_defs)

text \<open>
  C14. The marker that lets the weekly restart be skipped is touched only when Connected is
  entered through a login and a second factor was answered since the JVM was launched: a
  transition changes the disk only then, and the pending flag is raised only by leaving a
  challenge that was actually seen (or the operator wait) in the direction of a connection,
  and lowered by every launch and every entry into Connected.
\<close>

theorem equivalent_marker_needs_twofa:
  shows "(sm_disk (apply_transition pr now wall running next sm) \<noteq> sm_disk sm \<longrightarrow>
            next = Connected \<and> is_credential_gathering (sm_st sm)
            \<and> (sm_equiv_pending sm \<or> answers_twofa sm next))
       \<and> (next = Connected \<and> sm_st sm \<noteq> Connected \<and> is_credential_gathering (sm_st sm)
            \<and> (sm_equiv_pending sm \<or> answers_twofa sm next) \<longrightarrow>
            sm_disk (apply_transition pr now wall running next sm) =
              fst (write_cold_restart_equivalent_marker (pr_zt pr) (sm_equiv_path sm) wall (sm_disk sm)))
       \<and> (sm_equiv_pending (apply_transition pr now wall running next sm) \<longrightarrow>
            next \<noteq> Launching \<and> (next = Connected \<longrightarrow> sm_st sm = Connected)
            \<and> (sm_equiv_pending sm \<or> answers_twofa sm next))"
proof -
  have d: "sm_disk (apply_transition pr now wall running next sm) =
      (if next = Connected \<and> sm_st sm \<noteq> Connected \<and> is_credential_gathering (sm_st sm)
          \<and> (sm_equiv_pending sm \<or> answers_twofa sm next)
       then fst (write_cold_restart_equivalent_marker (pr_zt pr) (sm_equiv_path sm) wall (sm_disk sm))
       else sm_disk sm)"
    by (cases "next") (auto simp: apply_transition_def Let_def disk_steps pending_steps path_steps sm_st_steps
        answers_steps)
  have p: "sm_equiv_pending (apply_transition pr now wall running next sm) \<longleftrightarrow>
      (sm_equiv_pending sm \<or> answers_twofa sm next) \<and> \<not> (next = Connected \<and> sm_st sm \<noteq> Connected)
      \<and> next \<noteq> Launching"
    by (cases "next") (simp_all add: apply_transition_def Let_def pending_steps sm_st_steps answers_steps)
  show ?thesis unfolding d p by auto
qed

theorem equivalent_marker_needs_twofa_witness:
  "sm_disk (apply_transition pr_example 1000 sunday_nine True Connected (sm_example ConfiguringApi))
     = sm_disk (sm_example ConfiguringApi)"
  using equivalent_marker_needs_twofa [of pr_example 1000 sunday_nine True Connected "sm_example ConfiguringApi"]
  by (auto simp: sm_example_def answers_twofa_def)

section \<open>Waiting for the operator\<close>

lemma hitl_tick_counters:
  assumes "do_waiting_for_hitl_2fa wd None sm = (sm', Inr s)" and "hi_entered_at (sm_hitl sm) \<noteq> None"
  shows "(s = WaitingForLogin \<longrightarrow> has_login_form (sm_observation sm) \<and> \<not> has_2fa_dialog (sm_observation sm)
            \<and> 2 \<le> hi_login_form_ticks (sm_hitl sm))
       \<and> (s = WaitingForApiReady \<longrightarrow> hitl_sees_connected wd sm \<and> 2 \<le> hi_connected_ticks (sm_hitl sm))
       \<and> (s = Restarting \<longrightarrow> (\<exists>t. hi_next_retry_at (sm_hitl sm) = Some t \<and> t \<le> wd_now wd))
       \<and> (s = WaitingForHitl2fa \<longrightarrow>
            hi_login_form_ticks (sm_hitl sm') =
              (if has_login_form (sm_observation sm) \<and> \<not> has_2fa_dialog (sm_observation sm)
               then hi_login_form_ticks (sm_hitl sm) + 1 else 0)
            \<and> hi_connected_ticks (sm_hitl sm') =
              (if hitl_sees_connected wd sm then hi_connected_ticks (sm_hitl sm) + 1 else 0))
       \<and> s \<in> {WaitingForLogin, WaitingForApiReady, Restarting, WaitingForHitl2fa}
       \<and> hi_entered_at (sm_hitl sm') \<noteq> None"
  using assms
  by (auto simp: do_waiting_for_hitl_2fa_def hitl_enter_def revoked_or_def hitl_login_check_def
      hitl_connected_check_def hitl_deadline_check_def hitl_sees_connected_def goto_state_def Let_def
      saturating_add_def u8_max_def hitl_demote_tick_threshold_def split: if_splits option.splits)

text \<open>
  A stay in the operator wait: before each tick the agent events have brought the cache to
  some observation. \<open>None\<close> once a tick leaves.
\<close>

definition hitl_tick :: "world \<times> agent_observation \<Rightarrow> state_machine \<Rightarrow> handler_result" where
  "hitl_tick x sm = do_waiting_for_hitl_2fa (fst x) None (sm\<lparr>sm_observation := snd x\<rparr>)"

fun hitl_stay :: "(world \<times> agent_observation) list \<Rightarrow> state_machine \<Rightarrow> state_machine option" where
  "hitl_stay [] sm = Some sm"
| "hitl_stay (x # xs) sm =
     (case hitl_tick x sm of (sm', r) \<Rightarrow> if r = Inr WaitingForHitl2fa then hitl_stay xs sm' else None)"

definition sees_login :: "world \<times> agent_observation \<Rightarrow> bool" where
  "sees_login x \<longleftrightarrow> has_login_form (snd x) \<and> \<not> has_2fa_dialog (snd x)"

definition sees_connected :: "world \<times> agent_observation \<Rightarrow> bool" where
  "sees_connected x \<longleftrightarrow> hitl_sees_connected (fst x) ((sm_example WaitingForHitl2fa)\<lparr>sm_observation := snd x\<rparr>)"

lemma hitl_sees_connected_obs:
  "hitl_sees_connected wd (sm\<lparr>sm_observation := ob\<rparr>) = sees_connected (wd, ob)"
  by (simp add: sees_connected_def hitl_sees_connected_def)

definition trailing :: "('a \<Rightarrow> bool) \<Rightarrow> 'a list \<Rightarrow> nat" where
  "trailing P xs = length (takeWhile P (rev xs))"

lemma trailing_snoc: "trailing P (xs @ [x]) = (if P x then trailing P xs + 1 else 0)"
  by (simp add: trailing_def)

lemma hitl_stay_snoc:
  "hitl_stay (xs @ [x]) sm =
     (case hitl_stay xs sm of None \<Rightarrow> None
      | Some sm1 \<Rightarrow> (case hitl_tick x sm1 of (sm', r) \<Rightarrow> if r = Inr WaitingForHitl2fa then Some sm' else None))"
  by (induction xs arbitrary: sm) (auto split: prod.splits option.splits)

lemma hitl_stay_counters:
  assumes "hi_entered_at (sm_hitl sm) \<noteq> None" "hi_login_form_ticks (sm_hitl sm) = 0" "hi_connected_ticks (sm_hitl sm) = 0"
  shows "hitl_stay xs sm = Some sm1 \<Longrightarrow>
           hi_entered_at (sm_hitl sm1) \<noteq> None
           \<and> hi_login_form_ticks (sm_hitl sm1) = trailing sees_login xs
           \<and> hi_connected_ticks (sm_hitl sm1) = trailing sees_connected xs"
proof (induction xs arbitrary: sm1 rule: rev_induct)
  case Nil
  with assms show ?case by (simp add: trailing_def)
next
  case (snoc x xs)
  then obtain sm0 where s0: "hitl_stay xs sm = Some sm0" and t: "hitl_tick x sm0 = (sm1, Inr WaitingForHitl2fa)"
    by (auto simp: hitl_stay_snoc split: option.splits prod.splits if_splits)
  from snoc.IH [OF s0] have i: "hi_entered_at (sm_hitl (sm0\<lparr>sm_observation := snd x\<rparr>)) \<noteq> None"
    "hi_login_form_ticks (sm_hitl sm0) = trailing sees_login xs"
    "hi_connected_ticks (sm_hitl sm0) = trailing sees_connected xs" by simp_all
  show ?case
    using hitl_tick_counters [OF t [unfolded hitl_tick_def] i(1)] i(2,3)
    by (simp add: trailing_snoc sees_login_def [of x] hitl_sees_connected_obs)
qed

text \<open>
  The operator wait ends only on persistent evidence or on schedule. Whatever ticks have
  passed since it was entered, the handler leaves for the login form only when a login form
  without a challenge was seen on this tick and on the two before it, for API readiness only
  when the gateway said it was connected on this tick and on the two before, for a restart
  only when the scheduled instant has come, and for nothing else.
\<close>

theorem hitl_leaves_on_evidence:
  assumes "hi_entered_at (sm_hitl sm) \<noteq> None" "hi_login_form_ticks (sm_hitl sm) = 0" "hi_connected_ticks (sm_hitl sm) = 0"
    and "hitl_stay xs sm = Some sm1" and "hitl_tick x sm1 = (sm2, Inr s)"
  shows "(s = WaitingForLogin \<longrightarrow> 3 \<le> trailing sees_login (xs @ [x]))
         \<and> (s = WaitingForApiReady \<longrightarrow> 3 \<le> trailing sees_connected (xs @ [x]))
         \<and> (s = Restarting \<longrightarrow> (\<exists>t. hi_next_retry_at (sm_hitl sm1) = Some t \<and> t \<le> wd_now (fst x)))
         \<and> s \<in> {WaitingForLogin, WaitingForApiReady, Restarting, WaitingForHitl2fa}"
proof -
  have i: "hi_entered_at (sm_hitl (sm1\<lparr>sm_observation := snd x\<rparr>)) \<noteq> None"
    "hi_login_form_ticks (sm_hitl sm1) = trailing sees_login xs"
    "hi_connected_ticks (sm_hitl sm1) = trailing sees_connected xs"
    using hitl_stay_counters [OF assms(1-4)] by simp_all
  show ?thesis
    using hitl_tick_counters [OF assms(5) [unfolded hitl_tick_def] i(1)] i(2,3)
    by (auto simp: trailing_snoc sees_login_def [of x] hitl_sees_connected_obs)
qed

theorem hitl_leaves_on_evidence_witness:
  "\<exists>sm2 s. hitl_tick (wd_example 3600000, observation_new 0)
      (hitl_enter (wd_example 0) (sm_example WaitingForHitl2fa)) = (sm2, Inr s) \<and> s = Restarting
      \<and> (\<exists>t. hi_next_retry_at (sm_hitl (hitl_enter (wd_example 0) (sm_example WaitingForHitl2fa))) = Some t
           \<and> t \<le> 3600000)"
proof -
  let ?sm = "hitl_enter (wd_example 0) (sm_example WaitingForHitl2fa)"
  let ?x = "(wd_example 3600000, observation_new 0)"
  have r: "snd (hitl_tick ?x ?sm) = Inr Restarting"
    by (simp add: hitl_tick_def do_waiting_for_hitl_2fa_def hitl_enter_def sm_example_def hitl_cleared_def
        wd_example_def config_example_def default_backoff_def compute_next_hitl_deadline_def revoked_or_def
        hitl_login_check_def hitl_connected_check_def hitl_deadline_check_def hitl_sees_connected_def
        has_login_form_def has_2fa_dialog_def main_gateway_window_def observation_new_def Let_def)
  then obtain sm2 where t: "hitl_tick ?x ?sm = (sm2, Inr Restarting)" by (cases "hitl_tick ?x ?sm") auto
  have "\<exists>t. hi_next_retry_at (sm_hitl ?sm) = Some t \<and> t \<le> wd_now (fst ?x)"
    using hitl_leaves_on_evidence [of ?sm "[]" ?sm ?x sm2 Restarting] t
    by (simp add: hitl_enter_def sm_example_def hitl_cleared_def Let_def)
  with t show ?thesis by (simp add: wd_example_def)
qed

text \<open>
  A scheduled restart never preempts the operator wait, whatever
  \<open>cold_restart_preempts_hitl\<close> says: the main loop takes the signal from the channel itself,
  records it as skipped for a dormant site and stays; the handler's own look at the channel
  finds nothing, since the receiver is moved out of the controller while it runs.
\<close>

theorem cold_restart_never_preempts_hitl:
  assumes "sm_st sm = WaitingForHitl2fa" and "ib_available (sm_ib sm)"
    and "it_outcome it = Interrupted (IntColdRestart ColdFire)"
  shows "\<exists>sm1. loop_iteration pr it sm = Continue sm1 \<and> sm_st sm1 = WaitingForHitl2fa
               \<and> sm_last_skip sm1 = Some \<lparr>sk_recorded_at = wd_wall (it_post it), sk_reason = DormantSite\<rparr>"
proof -
  let ?sm0 = "fold async_step (it_async it) sm"
  have ib: "ib_available (sm_ib (async_step a s)) = ib_available (sm_ib s)" for a s
    by (cases a) (auto split: option.splits prod.splits bool.splits)
  have "ib_available (sm_ib (fold async_step as s)) = ib_available (sm_ib s)" for as s
    by (induction as arbitrary: s) (simp_all add: ib)
  then have "ib_available (sm_ib ?sm0)" using assms(2) by simp
  then have "\<exists>sm1. pre_transition pr (it_pre it) ?sm0 = Inr sm1 \<and> sm_st sm1 = WaitingForHitl2fa"
    using assms(1)
    by (auto simp: pre_transition_def check_ib_system_availability_def check_ib_status_ttl_def tick_recovery_def
        drain_dwell_idle active_recovery_def Let_def split: option.splits)
  then obtain sm1 where p: "pre_transition pr (it_pre it) ?sm0 = Inr sm1" "sm_st sm1 = WaitingForHitl2fa" by blast
  with assms(3) show ?thesis
    by (simp add: loop_iteration_def finish_interrupt_def handle_interrupt_def is_dormant_def skip_record_def Let_def)
qed

theorem cold_restart_never_preempts_hitl_witness:
  "\<exists>sm1. loop_iteration pr_example (it_example (Interrupted (IntColdRestart ColdFire))) (sm_example WaitingForHitl2fa)
       = Continue sm1 \<and> sm_st sm1 = WaitingForHitl2fa
     \<and> bo_cold_restart_preempts_hitl (tc_backoff (cf_twofa (sm_config (sm_example WaitingForHitl2fa))))"
proof -
  have "\<exists>sm1. loop_iteration pr_example (it_example (Interrupted (IntColdRestart ColdFire))) (sm_example WaitingForHitl2fa)
       = Continue sm1 \<and> sm_st sm1 = WaitingForHitl2fa
     \<and> sm_last_skip sm1 = Some \<lparr>sk_recorded_at = wd_wall (it_post (it_example (Interrupted (IntColdRestart ColdFire)))),
          sk_reason = DormantSite\<rparr>"
    by (rule cold_restart_never_preempts_hitl) (simp_all add: sm_example_def it_example_def)
  then show ?thesis by (auto simp: sm_example_def config_example_def default_backoff_def)
qed

section \<open>Giving up\<close>

lemma tick_recovery_active:
  assumes "active_recovery (sm_st sm)" and "sm_dwell_queue sm = []"
  shows "tick_recovery pr now wall running sm =
     (let sm2 = (if sm_st sm \<noteq> Connected then sm\<lparr>sm_dwell_guard := None\<rparr> else sm)
      in case coordinator_tick (pr_codec pr) (pr_sip pr) wall now False 0 (sm_pending_token sm)
                (sm_recovery sm) (sm_disk sm) of
           Inl p \<Rightarrow> Inl p
         | Inr (co, d, sigs, r) \<Rightarrow>
             Inr (case r of
                    Inr a \<Rightarrow> applied_effect wall running a
                               (sm2\<lparr>sm_pending_token := None, sm_recovery := co, sm_disk := d\<rparr>)
                  | Inl e \<Rightarrow> sm2\<lparr>sm_pending_token := None, sm_recovery := co, sm_disk := d\<rparr>))"
proof -
  let ?s = "if sm_st sm \<noteq> Connected then sm\<lparr>sm_dwell_guard := None\<rparr> else sm"
  have g: "(if sm_st sm \<noteq> Connected \<and> sm_dwell_guard sm \<noteq> None then sm\<lparr>sm_dwell_guard := None\<rparr> else sm) = ?s"
    by (cases "sm_dwell_guard sm") simp_all
  have drain: "drain_dwell (pr_codec pr) (sm_dwell_queue ?s) ?s = ?s" using assms(2) by simp
  have f: "sm_st ?s = sm_st sm" "sm_pending_token ?s = sm_pending_token sm"
    "sm_recovery ?s = sm_recovery sm" "sm_disk ?s = sm_disk sm"
    by simp_all
  show ?thesis unfolding tick_recovery_def Let_def g drain f using assms(1) by simp
qed

lemma given_up_sleeps:
  assumes "co_phase co = GivenUp" and "\<not> rc_autonomous (co_config co)"
  shows "coordinator_tick c sip w m False 0 None co d = Inr (co, d, [], Inr NoChange)"
  using assms by (simp add: tick_defs)

text \<open>
  When the coordinator gives up and records it, the controller is parked in
  WaitingForLaunch with its JVM killed. When the record cannot be written, it is not: the
  coordinator counts as given up in memory, but the controller keeps its state and its JVM,
  and every later tick without a resume token only sleeps, so the halt is never carried out.
\<close>

theorem failed_halt_is_not_carried_out:
  assumes "active_recovery (sm_st sm)" and "sm_dwell_queue sm = []" and "\<not> rc_autonomous (co_config co)"
    and "coordinator_tick (pr_codec pr) (pr_sip pr) wall now False 0 (sm_pending_token sm) (sm_recovery sm) (sm_disk sm)
         = Inr (co, d, sigs, r)" and "co_phase co = GivenUp"
  shows "\<exists>sm1. tick_recovery pr now wall running sm = Inr sm1 \<and> sm_recovery sm1 = co
           \<and> (r = Inr FiredGiveUpAlert \<longrightarrow>
                sm_st sm1 = WaitingForLaunch \<and> (running \<longrightarrow> KillJvm \<in> set (sm_effects sm1)))
           \<and> (isl r \<longrightarrow> sm_st sm1 = sm_st sm \<and> sm_effects sm1 = sm_effects sm
                \<and> (\<forall>now2 wall2 running2. \<exists>sm2. tick_recovery pr now2 wall2 running2 sm1 = Inr sm2
                     \<and> sm_st sm2 = sm_st sm \<and> sm_effects sm2 = sm_effects sm \<and> sm_recovery sm2 = co))"
proof -
  let ?g = "if sm_st sm \<noteq> Connected then sm\<lparr>sm_dwell_guard := None\<rparr> else sm"
  let ?s = "?g\<lparr>sm_pending_token := None, sm_recovery := co, sm_disk := d\<rparr>"
  have act: "active_recovery (sm_st ?s)" "sm_dwell_queue ?s = []" using assms(1,2) by (auto split: if_split)
  show ?thesis
  proof (cases r)
    case (Inl e)
    have t: "tick_recovery pr now wall running sm = Inr ?s"
      using assms(4) Inl by (simp add: tick_recovery_active [OF assms(1,2)] Let_def)
    have "\<exists>sm2. tick_recovery pr now2 wall2 running2 ?s = Inr sm2
        \<and> sm_st sm2 = sm_st sm \<and> sm_effects sm2 = sm_effects sm \<and> sm_recovery sm2 = co" for now2 wall2 running2
      unfolding tick_recovery_active [OF act]
      using given_up_sleeps [OF assms(5,3)] by (simp add: applied_effect_def Let_def)
    with t Inl show ?thesis by simp
  next
    case (Inr a)
    have t: "tick_recovery pr now wall running sm = Inr (applied_effect wall running a ?s)"
      using assms(4) Inr by (simp add: tick_recovery_active [OF assms(1,2)] Let_def)
    have co: "sm_recovery (applied_effect wall running a ?s) = co"
      by (cases a) (auto simp: applied_effect_def giveup_halt_def halt_jvm_def stop_socat_def emit_def
          abort_client_id_task_def Let_def split: sm_state.split)
    have "sm_st (giveup_halt wall running ?s) = WaitingForLaunch
        \<and> (running \<longrightarrow> KillJvm \<in> set (sm_effects (giveup_halt wall running ?s)))"
      using assms(1)
      by (cases "sm_st sm") (simp_all add: giveup_halt_def halt_jvm_def active_recovery_def Let_def)
    with t co Inr show ?thesis by (auto simp: applied_effect_def)
  qed
qed

lemma faulty_giveup:
  assumes "apply_giveup c w m co d = (co', d', sigs, r)" and "co_phase co \<noteq> GivenUp"
    and "faults d = (\<lambda>_. True)" and "crash_at d = None"
  shows "isl r \<and> co_phase co' = GivenUp \<and> co_config co' = co_config co"
proof -
  let ?co = "(enter_phase GivenUp w m co)\<lparr>co_giveup_alert_sent_at := Some (z_second_of_epoch w)\<rparr>"
  have "isl (snd (save c (co_settings_dir ?co) (co_mode ?co) (persisted_of ?co) d))"
    using assms(3,4)
    by (auto simp: save_def atomic_write_durable_def io_bind_def io_fail_def io_prim_def file_create_def
        persisted_of_def enter_phase_def Let_def split: option.split)
  then have "isl r \<and> co' = ?co"
    using assms(1,2) by (auto simp: apply_giveup_def persist_then_def persist_def split: prod.splits sum.splits)
  then show ?thesis by (simp add: enter_phase_def)
qed

theorem failed_halt_is_not_carried_out_witness:
  "\<exists>co sm1. co_phase co = GivenUp
      \<and> tick_recovery pr_example 10800000 (later 10800) True
           ((sm_example WaitingForLogin)\<lparr>sm_recovery := co_example BackoffEvery15Min,
              sm_disk := (healthy_disk (\<lambda>_. None))\<lparr>faults := \<lambda>_. True\<rparr>\<rparr>) = Inr sm1
      \<and> sm_recovery sm1 = co \<and> sm_st sm1 = WaitingForLogin"
proof -
  let ?d = "(healthy_disk (\<lambda>_. None))\<lparr>faults := \<lambda>_. True\<rparr>"
  let ?sm = "(sm_example WaitingForLogin)\<lparr>sm_recovery := co_example BackoffEvery15Min, sm_disk := ?d\<rparr>"
  let ?g = "apply_giveup (pr_codec pr_example) (later 10800) 10800000 (co_example BackoffEvery15Min) ?d"
  obtain co d sigs r where g: "?g = (co, d, sigs, r)" by (cases ?g)
  have t: "coordinator_tick (pr_codec pr_example) (pr_sip pr_example) (later 10800) 10800000
      False 0 (sm_pending_token ?sm) (sm_recovery ?sm) (sm_disk ?sm) = Inr (co, d, sigs, r)"
    using g by (simp add: tick_defs example_defs sm_example_def)
  have f: "isl r" "co_phase co = GivenUp" "\<not> rc_autonomous (co_config co)"
    using faulty_giveup [OF g] by (simp_all add: example_defs healthy_disk_def)
  show ?thesis
    using failed_halt_is_not_carried_out [OF _ _ f(3) t f(2), of True] f
    by (auto simp: sm_example_def active_recovery_def)
qed

section \<open>Returning from the IB-status wait\<close>

text \<open>
  Leaving the IB-status wait promotes without evidence. If the session was interrupted
  while Connected and no status push arrives for more than ten minutes, the next iteration
  declares the system available and goes straight back to Connected, whatever the windows,
  the agent and the JVM say.
\<close>

theorem ib_wait_promotes_on_timeout:
  assumes "sm_st sm = WaitingForIB" and "ib_return_state (sm_ib sm) = Some Connected"
    and "\<not> ib_available (sm_ib sm)" and "ib_last_updated (sm_ib sm) = Some t"
    and "1000 * ib_status_ttl_secs < elapsed_ms (wd_now (it_pre it)) t"
    and "\<not> pc_paused (sm_pause sm)" and "it_outcome it = Completed" "it_async it = []" "it_events it = []"
  shows "\<exists>sm1. loop_iteration pr it sm = Continue sm1 \<and> sm_st sm1 = Connected"
proof -
  let ?ib = "(sm_ib sm)\<lparr>ib_available := True, ib_status := ''available'', ib_reason := []\<rparr>"
  have "pre_transition pr (it_pre it) sm = Inr (sm\<lparr>sm_ib := ?ib, sm_dwell_guard := None, sm_dwell_queue := []\<rparr>)"
    using assms(1,3-5)
    by (cases "sm_dwell_guard sm") (simp_all add: pre_transition_def check_ib_status_ttl_def
        check_ib_system_availability_def tick_recovery_def drain_dwell_idle active_recovery_def Let_def)
  with assms show ?thesis
    by (simp add: loop_iteration_def run_handler_def do_waiting_for_ib_def goto_state_def finish_transition_def
        drain_events_def apply_transition_st Let_def)
qed

theorem ib_wait_promotes_on_timeout_witness:
  "\<exists>sm1. loop_iteration pr_example \<lparr>it_async = [], it_pre = wd_example 600001, it_outcome = Completed,
       it_post = (wd_example 600002)\<lparr>wd_running := False\<rparr>, it_events = []\<rparr>
       ((sm_example WaitingForIB)\<lparr>sm_ib := \<lparr>ib_available = False, ib_status = ''down'', ib_reason = [],
           ib_last_updated = Some 0, ib_return_state = Some Connected\<rparr>\<rparr>) = Continue sm1
     \<and> sm_st sm1 = Connected"
  by (rule ib_wait_promotes_on_timeout [where t = 0])
     (simp_all add: sm_example_def wd_example_def elapsed_ms_def ib_status_ttl_secs_def)

end
