(* ===== verification/Startup.thy ===== *)
theory Startup
  imports Session_Properties
begin

text \<open>
  Process start (\<open>main.rs\<close>, \<open>state_machine/types.rs\<close>, \<open>config.rs\<close>): the recovery
  configuration with its environment overrides, the marker directory, the construction of
  the controller with the booted recovery coordinator, and the entry into the main loop. The
  theorems follow a halt across a restart of the process, and the empty environment
  variables a container passes.
\<close>

section \<open>Recovery configuration\<close>

type_synonym env = "string \<Rightarrow> string option"

record recovery_timing_config =
  rt_enabled :: bool
  rt_autonomous :: bool
  rt_aggressive_phase_max_secs :: nat
  rt_backoff_phase_max_secs :: nat
  rt_backoff_interval_secs :: nat
  rt_min_success_dwell_secs :: nat
  rt_fingerprint_streak_forcing_hitl :: nat
  rt_giveup_callback_valid_hours :: nat
  rt_giveup_alert_resend_interval_hours :: nat

definition default_recovery_timing :: recovery_timing_config where
  "default_recovery_timing = \<lparr>rt_enabled = True, rt_autonomous = False, rt_aggressive_phase_max_secs = 3600,
     rt_backoff_phase_max_secs = 10800, rt_backoff_interval_secs = 900, rt_min_success_dwell_secs = 60,
     rt_fingerprint_streak_forcing_hitl = 8, rt_giveup_callback_valid_hours = 12,
     rt_giveup_alert_resend_interval_hours = 6\<rparr>"

definition env_bool :: "env \<Rightarrow> string \<Rightarrow> bool option" where
  "env_bool env key = map_option (\<lambda>v. to_lowercase v \<in> {''1'', ''true'', ''yes'', ''on''}) (env key)"

definition env_num :: "nat \<Rightarrow> env \<Rightarrow> string \<Rightarrow> nat \<Rightarrow> nat" where
  "env_num mx env key current =
     (case env key of
        None \<Rightarrow> current
      | Some v \<Rightarrow> if trim v = [] then current
                  else (case parse_uint mx v of None \<Rightarrow> current | Some n \<Rightarrow> n))"

definition or_else :: "'a option \<Rightarrow> 'a \<Rightarrow> 'a" where
  "or_else v d = (case v of None \<Rightarrow> d | Some x \<Rightarrow> x)"

definition to_runtime :: "env \<Rightarrow> recovery_timing_config \<Rightarrow> recovery_config" where
  "to_runtime env t = \<lparr>
     rc_autonomous = or_else (env_bool env ''IBCTL_RECOVERY_AUTONOMOUS'') (rt_autonomous t),
     rc_aggressive_phase_max_secs =
       env_num u64_max env ''IBCTL_RECOVERY_AGGRESSIVE_MAX_SECS'' (rt_aggressive_phase_max_secs t),
     rc_backoff_phase_max_secs =
       env_num u64_max env ''IBCTL_RECOVERY_BACKOFF_MAX_SECS'' (rt_backoff_phase_max_secs t),
     rc_backoff_interval_secs =
       env_num u64_max env ''IBCTL_RECOVERY_BACKOFF_INTERVAL_SECS'' (rt_backoff_interval_secs t),
     rc_min_success_dwell_secs =
       env_num u64_max env ''IBCTL_RECOVERY_MIN_SUCCESS_DWELL_SECS'' (rt_min_success_dwell_secs t),
     rc_fingerprint_streak_forcing_hitl =
       env_num u32_max env ''IBCTL_RECOVERY_FINGERPRINT_STREAK'' (rt_fingerprint_streak_forcing_hitl t),
     rc_giveup_callback_valid_hours =
       env_num u32_max env ''IBCTL_RECOVERY_GIVEUP_CALLBACK_VALID_HOURS'' (rt_giveup_callback_valid_hours t),
     rc_giveup_alert_resend_interval_hours =
       env_num u32_max env ''IBCTL_RECOVERY_GIVEUP_ALERT_RESEND_INTERVAL_HOURS''
         (rt_giveup_alert_resend_interval_hours t),
     rc_disabled = or_else (env_bool env ''IBCTL_RECOVERY_DISABLED'') (\<not> rt_enabled t)\<rparr>"

section \<open>Construction\<close>

text \<open>The directory both markers live in, and the cold-restart-equivalent marker in it.\<close>

definition settings_dir_for_marker :: "env \<Rightarrow> string \<Rightarrow> string" where
  "settings_dir_for_marker env settings_path =
     (if settings_path = [] then or_else (env ''TWS_SETTINGS_PATH'') ''/home/ibgateway/Jts'' else settings_path)"

definition equivalent_marker_path :: "string \<Rightarrow> path" where
  "equivalent_marker_path settings_dir = (settings_dir, ''.ibctl-cold-restart-equivalent-today'')"

fun recovery_mode_tag :: "trading_mode \<Rightarrow> string" where
  "recovery_mode_tag Live = ''live''"
| "recovery_mode_tag Paper = ''paper''"
| "recovery_mode_tag Both = ''paper''"

definition ib_new :: ib_system_status where
  "ib_new = \<lparr>ib_available = True, ib_status = ''available'', ib_reason = [], ib_last_updated = None,
     ib_return_state = None\<rparr>"

definition sm_new ::
  "params \<Rightarrow> env \<Rightarrow> sm_config \<Rightarrow> recovery_timing_config \<Rightarrow> path \<Rightarrow> instant \<Rightarrow> zoned \<Rightarrow> disk \<Rightarrow> state_machine" where
  "sm_new pr env cf rt marker now wall d =
     (let tag = recovery_mode_tag (cf_trading_mode cf);
          co = fst (boot (pr_codec pr) (env ''IBCTL_RECOVERY_FORCE_RESET'') (fst marker) tag
                      (to_runtime env rt) now wall d)
      in \<lparr>sm_st = Init, sm_config = cf, sm_socat = False, sm_config_retries = 0,
          sm_pause = \<lparr>pc_paused = False, pc_ceiling = None\<rparr>, sm_ib = ib_new, sm_connected_since = None,
          sm_history = [], sm_cached_client_ids = [], sm_warm_restart_pending = None,
          sm_client_id_task = False, sm_relogin_attempts = 0, sm_connected_window_class = None,
          sm_twofa = \<lparr>tf_device_selected = False, tf_seen = False, tf_gone_at = None,
            tf_retry_not_before = None, tf_retry_waiting_for_screen = False, tf_consecutive_timeouts = 0\<rparr>,
          sm_state_entered_at = now, sm_popup_last_dismissed = None, sm_agent_failures = 0,
          sm_observation = observation_new now, sm_label_drift = (0, 0), sm_revocation = rev_new,
          sm_connection_event_disconnected = False, sm_jvm_restarts = 0, sm_settings_good_marked = False,
          sm_hitl = hitl_cleared, sm_connected_continuously_since = None, sm_probe_failed = False,
          sm_probe_task = False, sm_equiv_path = marker, sm_equiv_pending = False, sm_last_skip = None,
          sm_recovery = co, sm_dwell_guard = None, sm_dwell_queue = [], sm_pending_token = None,
          sm_mode_tag = tag, sm_disk = d, sm_effects = []\<rparr>)"

text \<open>The part of \<open>async_main\<close> that concerns the controller: build it and enter \<open>run\<close>.\<close>

definition start_controller ::
  "params \<Rightarrow> env \<Rightarrow> sm_config \<Rightarrow> recovery_timing_config \<Rightarrow> string \<Rightarrow> instant \<Rightarrow> zoned \<Rightarrow> disk \<Rightarrow> state_machine" where
  "start_controller pr env cf rt settings_path now wall d =
     run_start wall (sm_new pr env cf rt (equivalent_marker_path (settings_dir_for_marker env settings_path))
                       now wall d)"

section \<open>Empty variables\<close>

text \<open>
  A container passes every unset variable as an empty string. For the numeric recovery
  settings that is the same as not setting them, but the two switches read it as false: an
  empty \<open>IBCTL_RECOVERY_DISABLED\<close> re-enables a coordinator that the TOML file disables, and
  an empty \<open>IBCTL_RECOVERY_AUTONOMOUS\<close> takes autonomous mode away.
\<close>

theorem empty_switches_override_toml:
  "to_runtime (\<lambda>_. Some []) t = (to_runtime (\<lambda>_. None) t)\<lparr>rc_autonomous := False, rc_disabled := False\<rparr>
   \<and> rc_disabled (to_runtime (\<lambda>_. None) t) = (\<not> rt_enabled t)
   \<and> rc_autonomous (to_runtime (\<lambda>_. None) t) = rt_autonomous t"
  by (simp add: to_runtime_def env_bool_def env_num_def or_else_def to_lowercase_def trim_def trim_start_def trim_end_def)

section \<open>A refused boot\<close>

text \<open>The launches a controller has asked for.\<close>

fun is_launch :: "effect \<Rightarrow> bool" where
  "is_launch (LaunchJvm h) = True"
| "is_launch e = False"

definition launches :: "state_machine \<Rightarrow> effect list" where
  "launches sm = filter is_launch (sm_effects sm)"

lemma launches_emit [simp]: "\<not> is_launch e \<Longrightarrow> launches (emit e sm) = launches sm"
  by (simp add: launches_def emit_def)

lemma launches_upd [simp]:
  "launches (sm\<lparr>sm_twofa := a\<rparr>) = launches sm" "launches (sm\<lparr>sm_observation := b\<rparr>) = launches sm"
  "launches (sm\<lparr>sm_ib := c\<rparr>) = launches sm" "launches (sm\<lparr>sm_pause := p\<rparr>) = launches sm"
  "launches (sm\<lparr>sm_pending_token := q\<rparr>) = launches sm" "launches (sm\<lparr>sm_socat := b1\<rparr>) = launches sm"
  "launches (sm\<lparr>sm_last_skip := k\<rparr>) = launches sm" "launches (sm\<lparr>sm_dwell_guard := g\<rparr>) = launches sm"
  "launches (sm\<lparr>sm_dwell_queue := l\<rparr>) = launches sm" "launches (sm\<lparr>sm_probe_failed := b2\<rparr>) = launches sm"
  "launches (sm\<lparr>sm_connection_event_disconnected := b3, sm_revocation := rv\<rparr>) = launches sm"
  "launches (sm\<lparr>sm_dwell_guard := g, sm_dwell_queue := l\<rparr>) = launches sm"
  "launches (sm\<lparr>sm_client_id_task := b4\<rparr>) = launches sm" "launches (sm\<lparr>sm_st := s\<rparr>) = launches sm"
  by (simp_all add: launches_def)

lemma launches_fold:
  "(\<And>x s. launches (f x s) = launches s) \<Longrightarrow> launches (fold f xs sm) = launches sm"
  by (induction xs arbitrary: sm) auto

lemma launches_socat [simp]: "launches (stop_socat sm) = launches sm" "launches (start_socat b n m sm) = launches sm"
  by (simp_all add: stop_socat_def start_socat_def Let_def)

lemma launches_event [simp]: "launches (handle_agent_event now e sm) = launches sm"
  by (cases "(now, e, sm)" rule: handle_agent_event.cases)
     (simp_all add: handle_error_dialog_def handle_connection_status_def Let_def)

lemma launches_async [simp]: "launches (async_step e sm) = launches sm"
  by (cases "(e, sm)" rule: async_step.cases) (simp_all split: option.split prod.split bool.split)

lemma launches_save [simp]: "launches (save_tws_settings wd sm) = launches sm"
proof -
  have d: "launches (dismiss_post_save_dialogs wd s) = launches s" for s
    by (simp add: dismiss_post_save_dialogs_def Let_def launches_fold split: option.split)
  show ?thesis by (simp add: save_tws_settings_def d Let_def split: option.split)
qed

lemma launches_interrupt:
  assumes "sm_st sm = WaitingForLaunch" and "\<not> unparks (Interrupted i)"
  shows "launches (handle_interrupt wd i sm) = launches sm"
proof (cases i)
  case (IntCommand c)
  then show ?thesis using assms
    by (cases c) (simp_all add: handle_interrupt_def dispatch_command_def handle_command_def
        send_key_first_def Let_def split: option.split list.split)
next
  case (IntSignal s)
  then show ?thesis using assms by (cases s) (simp_all add: handle_interrupt_def)
next
  case (IntColdRestart s)
  then show ?thesis using assms by (cases s) (simp_all add: handle_interrupt_def is_dormant_def skip_record_def)
next
  case (IntAgentEvent e)
  then show ?thesis by (simp add: handle_interrupt_def)
qed

lemma launches_pre:
  assumes "sm_st sm = WaitingForLaunch" and "pre_transition pr wd sm = Inr sm1"
  shows "launches sm1 = launches sm" "sm_st sm1 = WaitingForLaunch"
  using assms
  by (auto simp: pre_transition_def tick_recovery_def drain_dwell_idle active_recovery_def Let_def
      check_ib_system_availability_def check_ib_status_ttl_def split: option.splits if_splits)

lemma launches_parked_iteration:
  assumes "sm_st sm = WaitingForLaunch" and "\<not> unparks (it_outcome it)"
    and "loop_iteration pr it sm = Continue sm1"
  shows "launches sm1 = launches sm"
proof -
  let ?s = "fold async_step (it_async it) sm"
  have s: "sm_st ?s = WaitingForLaunch" "launches ?s = launches sm"
    using assms(1) by (simp_all add: launches_fold)
  obtain sm2 where p: "pre_transition pr (it_pre it) ?s = Inr sm2" "launches sm2 = launches sm" "sm_st sm2 = WaitingForLaunch"
    using assms(3) launches_pre [OF s(1)] s(2)
    by (cases "pre_transition pr (it_pre it) ?s") (auto simp: loop_iteration_def)
  have d: "launches (drain_events now evs sm2) = launches sm" for now evs
    using p(2) by (simp add: drain_events_def launches_fold)
  show ?thesis
  proof (cases "it_outcome it")
    case (Interrupted i)
    with assms(2,3) p d show ?thesis
      using launches_interrupt [of "drain_events (wd_now (it_post it)) (it_events it) sm2" i "it_post it"]
      by (auto simp: loop_iteration_def finish_interrupt_def Let_def split: if_splits)
  next
    case Completed
    with assms(3) p d show ?thesis
      by (auto simp: loop_iteration_def run_handler_def do_waiting_for_launch_def goto_state_def
          finish_transition_def Let_def split: if_splits)
  qed
qed

interpretation parked_idle:
  loop_progress pr "\<lambda>sm. parked co sm \<and> launches sm = l" "\<lambda>it. \<not> unparks (it_outcome it)" for pr co l
proof unfold_locales
  fix sm :: state_machine and it :: iteration and sm1 :: state_machine
  assume p: "parked co sm \<and> launches sm = l" "\<not> unparks (it_outcome it)"
  then show "\<exists>sm1. loop_iteration pr it sm = Continue sm1" using parked.continues by blast
  assume c: "loop_iteration pr it sm = Continue sm1"
  then show "parked co sm1 \<and> launches sm1 = l"
    using parked.keeps [OF _ p(2) c] launches_parked_iteration [OF _ p(2) c] p(1) by (auto simp: parked_def)
qed

text \<open>
  C15. A refused boot launches nothing. When the markers on disk are damaged but still show a
  halt, the started controller sits in WaitingForLaunch with a given-up coordinator, and as
  long as nobody sends START, RESTART, EXIT or SETSTATE or stops the process, no iteration
  of the main loop asks for a JVM, whatever else happens.
\<close>

theorem refused_boot_stays_down:
  assumes "load (pr_codec pr) (settings_dir_for_marker env settings_path) (recovery_mode_tag (cf_trading_mode cf))
             (read_force_reset_env (env ''IBCTL_RECOVERY_FORCE_RESET'')) d = RefusedGivenUpAutoReset r"
    and "\<forall>it \<in> set its. \<not> unparks (it_outcome it)"
  shows "\<exists>sm1. run_loop pr its (start_controller pr env cf rt settings_path now wall d) = Continue sm1
           \<and> sm_st sm1 = WaitingForLaunch \<and> co_phase (sm_recovery sm1) = GivenUp \<and> launches sm1 = []"
proof -
  let ?sm = "start_controller pr env cf rt settings_path now wall d"
  have st: "sm_st ?sm = WaitingForLaunch" "co_phase (sm_recovery ?sm) = GivenUp" "launches ?sm = []"
    using assms(1)
    by (simp_all add: start_controller_def run_start_def sm_new_def boot_def equivalent_marker_path_def
        launches_def sm_record_def Let_def)
  show ?thesis
    using parked_idle.run_continues [of "sm_recovery ?sm" ?sm "[]" its pr] st assms(2) by (auto simp: parked_def)
qed

text \<open>A disk whose marker is damaged but whose sidecar still says that the process gave up.\<close>

definition refused_disk :: disk where
  "refused_disk = healthy_disk ((\<lambda>_. None)(marker_path ''/jts'' ''paper'' := Some (Readable ''?''),
     sidecar_path ''/jts'' ''paper'' := Some (Readable (phase_as_str GivenUp))))"

theorem refused_boot_stays_down_witness:
  "\<exists>sm1. run_loop pr_example [it_example Completed, it_example (Interrupted (IntCommand CmdResume))]
      (start_controller pr_example (\<lambda>_. None) config_example default_recovery_timing ''/jts'' 0 sunday_nine refused_disk)
      = Continue sm1 \<and> sm_st sm1 = WaitingForLaunch \<and> co_phase (sm_recovery sm1) = GivenUp \<and> launches sm1 = []"
proof -
  have "\<exists>r. load codec_example ''/jts'' ''paper'' False refused_disk = RefusedGivenUpAutoReset r"
    by (simp add: load_def refused_disk_def read_to_string_def codec_example_def classify_corrupt_def
        sidecar_says_given_up_def healthy_disk_def marker_sidecar_distinct trim_no_ws is_ws_def Let_def)
  then obtain r where "load codec_example ''/jts'' ''paper'' False refused_disk = RefusedGivenUpAutoReset r" ..
  then show ?thesis
    by (intro refused_boot_stays_down [where r = r])
       (simp_all add: pr_example_def settings_dir_for_marker_def config_example_def read_force_reset_env_def it_example_def)
qed

section \<open>A recorded halt\<close>

lemma tick_given_up:
  assumes "active_recovery (sm_st sm)" and "sm_st sm \<noteq> Connected" and "sm_dwell_queue sm = []" and "sm_dwell_guard sm = None"
    and "sm_pending_token sm = None" and "co_phase (sm_recovery sm) = GivenUp"
    and "\<not> rc_autonomous (co_config (sm_recovery sm))" and "ib_available (sm_ib sm)"
  shows "pre_transition pr wd sm = Inr sm"
proof -
  have "check_ib_status_ttl (wd_now wd) sm = sm"
    using assms(8) by (simp add: check_ib_status_ttl_def split: option.split)
  moreover have "check_ib_system_availability (wd_wall wd) sm = sm"
    using assms(8) by (simp add: check_ib_system_availability_def)
  moreover have "tick_recovery pr (wd_now wd) (wd_wall wd) (wd_running wd) sm = Inr sm"
    unfolding tick_recovery_active [OF assms(1,3)]
    using assms(2,4,5) given_up_sleeps [OF assms(6,7)] by (simp add: applied_effect_def Let_def)
  ultimately show ?thesis by (simp add: pre_transition_def)
qed

lemma init_to_launching:
  assumes "sm_st sm = Init" and "pc_ceiling (sm_pause sm) = None"
  shows "\<exists>t ob. apply_transition pr now wall running Launching sm
     = (sm_record wall Init Launching sm)\<lparr>sm_state_entered_at := now, sm_agent_failures := 0,
         sm_connected_since := None, sm_connected_continuously_since := None,
         sm_twofa := t, sm_observation := ob, sm_equiv_pending := False, sm_st := Launching\<rparr>"
  using assms
  by (simp add: apply_transition_def at_ceiling_def at_twofa_answered_def at_dwell_def at_connection_def
      at_leave_hitl_def at_entry_def sm_record_def Let_def) blast

text \<open>
  A cleanly recorded halt does not survive a restart of the process. When the marker
  loads as given up and automatic launch is on, the started controller is in Init, not
  parked: its first two iterations check the installation and ask for a JVM, while the
  coordinator stays given up and never objects.
\<close>

theorem recorded_halt_is_relaunched:
  assumes "load (pr_codec pr) (settings_dir_for_marker env settings_path) (recovery_mode_tag (cf_trading_mode cf))
             (read_force_reset_env (env ''IBCTL_RECOVERY_FORCE_RESET'')) d = Loaded st"
    and "ps_phase st = GivenUp" and "cf_auto_launch cf" and "\<not> rc_autonomous (to_runtime env rt)"
    and "\<forall>it \<in> {it1, it2}. it_async it = [] \<and> it_outcome it = Completed \<and> it_events it = []"
    and "wd_tws_path_exists (it_post it1)" and "wd_launch_ok (it_post it2)"
  shows "\<exists>sm2. run_loop pr [it1, it2] (start_controller pr env cf rt settings_path now wall d) = Continue sm2
           \<and> sm_st sm2 = WaitingForAgent \<and> launches sm2 = [LaunchJvm None] \<and> co_phase (sm_recovery sm2) = GivenUp"
proof -
  let ?m = "equivalent_marker_path (settings_dir_for_marker env settings_path)"
  let ?sm = "sm_new pr env cf rt ?m now wall d"
  have boot: "co_phase (sm_recovery ?sm) = GivenUp" "\<not> co_blocked_awaiting_resume (sm_recovery ?sm)"
    "co_config (sm_recovery ?sm) = to_runtime env rt"
    using assms(1,2) by (simp_all add: sm_new_def boot_def equivalent_marker_path_def Let_def)
  have f: "sm_st ?sm = Init" "sm_config ?sm = cf" "sm_pause ?sm = \<lparr>pc_paused = False, pc_ceiling = None\<rparr>"
    "sm_ib ?sm = ib_new" "sm_dwell_queue ?sm = []" "sm_dwell_guard ?sm = None" "sm_pending_token ?sm = None"
    "sm_warm_restart_pending ?sm = None" "sm_effects ?sm = []"
    by (simp_all add: sm_new_def Let_def)
  have start: "start_controller pr env cf rt settings_path now wall d = ?sm"
    using assms(3) f boot by (simp add: start_controller_def run_start_def)
  have p1: "pre_transition pr (it_pre it1) ?sm = Inr ?sm"
    using f boot assms(4) by (intro tick_given_up) (simp_all add: active_recovery_def ib_new_def)
  obtain t ob where a: "apply_transition pr (wd_now (it_post it1)) (wd_wall (it_post it1)) (wd_running (it_post it1)) Launching ?sm
     = (sm_record (wd_wall (it_post it1)) Init Launching ?sm)\<lparr>sm_state_entered_at := wd_now (it_post it1), sm_agent_failures := 0,
         sm_connected_since := None, sm_connected_continuously_since := None,
         sm_twofa := t, sm_observation := ob, sm_equiv_pending := False, sm_st := Launching\<rparr>" (is "_ = ?sm1")
    using init_to_launching [OF f(1), of pr "wd_now (it_post it1)" "wd_wall (it_post it1)" "wd_running (it_post it1)"] f(3)
    by auto
  have i1: "loop_iteration pr it1 ?sm = Continue ?sm1"
    using assms(5,6) p1 a f
    by (simp add: loop_iteration_def run_handler_def do_init_def goto_state_def drain_events_def finish_transition_def)
  have p2: "pre_transition pr (it_pre it2) ?sm1 = Inr ?sm1"
    using f boot assms(4) by (intro tick_given_up) (simp_all add: active_recovery_def ib_new_def sm_record_def)
  let ?sm2 = "emit (LaunchJvm None) ?sm1"
  have h2: "run_handler (it_post it2) ?sm1 = (?sm2, Inr WaitingForAgent)"
    using f assms(7) by (simp add: run_handler_def do_launch_def goto_state_def sm_record_def Let_def)
  obtain sm3 where ap: "sm3 = apply_transition pr (wd_now (it_post it2)) (wd_wall (it_post it2)) (wd_running (it_post it2)) WaitingForAgent ?sm2"
    by blast
  have i2: "loop_iteration pr it2 ?sm1 = Continue sm3"
    using assms(5) p2 h2 ap
    by (simp add: loop_iteration_def drain_events_def finish_transition_def apply_transition_st)
  have "sm_st sm3 = WaitingForAgent" "launches sm3 = [LaunchJvm None]" "sm_recovery sm3 = sm_recovery ?sm"
    using f unfolding ap
    by (simp_all add: launches_def apply_transition_def at_ceiling_def at_twofa_answered_def at_dwell_def at_connection_def
        at_leave_hitl_def at_entry_def sm_record_def emit_def Let_def)
  then show ?thesis using i1 i2 boot by (simp add: start)
qed

definition halted_disk :: disk where
  "halted_disk = healthy_disk ((\<lambda>_. None)(marker_path ''/jts'' ''paper'' := Some (Readable ''G'')))"

theorem recorded_halt_is_relaunched_witness:
  "\<exists>sm2. run_loop pr_example [it_example Completed, it_example Completed]
      (start_controller pr_example (\<lambda>_. None) config_example default_recovery_timing ''/jts'' 0 sunday_nine halted_disk)
      = Continue sm2
    \<and> sm_st sm2 = WaitingForAgent \<and> launches sm2 = [LaunchJvm None] \<and> co_phase (sm_recovery sm2) = GivenUp"
proof (rule recorded_halt_is_relaunched [where st = "state_example GivenUp"])
  show "load (pr_codec pr_example) (settings_dir_for_marker (\<lambda>_. None) ''/jts'')
      (recovery_mode_tag (cf_trading_mode config_example)) (read_force_reset_env None) halted_disk
      = Loaded (state_example GivenUp)"
    by (simp add: load_def halted_disk_def read_to_string_def codec_example_def healthy_disk_def pr_example_def
        settings_dir_for_marker_def config_example_def read_force_reset_env_def state_example_def Let_def)
qed (simp_all add: example_facts config_example_def to_runtime_def env_bool_def or_else_def default_recovery_timing_def
      it_example_def wd_example_def)

end
