(* ===== verification/Dialog_Handlers.thy ===== *)
theory Dialog_Handlers
  imports State_Machine
begin

text \<open>
  The dialog handlers (\<open>handlers/\<close>) and their registry. A handler drives the gateway's user
  interface through the Java agent; what it does is appended to a log, and the agent's
  answers may depend on everything done before. The registry is the fixed list of handlers
  in registration order. The theorems say which clicks need an explicit policy, that
  credentials are entered at most once between resets, and where the fall-through of the
  registry acts on dialogs a handler left for the operator.
\<close>

section \<open>The agent as the handlers see it\<close>

datatype ui_action =
    Click nat string | TypeField nat nat string | TypeBest nat string | PressKey nat string | DumpWindow nat

record ui =
  ui_log :: "ui_action list"
  ui_login_submitted :: bool

text \<open>Answers of the agent after a log of actions; \<open>None\<close> is a failed call.\<close>

record agent =
  ag_yes :: "ui_action list \<Rightarrow> ui_action \<Rightarrow> bool option"
  ag_dump :: "ui_action list \<Rightarrow> nat \<Rightarrow> json option"

definition act :: "agent \<Rightarrow> ui_action \<Rightarrow> ui \<Rightarrow> ui \<times> bool option" where
  "act ag a u = (u\<lparr>ui_log := ui_log u @ [a]\<rparr>, ag_yes ag (ui_log u) a)"

definition dump_window :: "agent \<Rightarrow> nat \<Rightarrow> ui \<Rightarrow> ui \<times> json option" where
  "dump_window ag i u = (u\<lparr>ui_log := ui_log u @ [DumpWindow i]\<rparr>, ag_dump ag (ui_log u) i)"

text \<open>Trying labels in order until one is found; failed calls count as not found.\<close>

fun click_first :: "agent \<Rightarrow> nat \<Rightarrow> string list \<Rightarrow> ui \<Rightarrow> ui \<times> bool" where
  "click_first ag i [] u = (u, False)"
| "click_first ag i (l # ls) u =
     (case act ag (Click i l) u of
        (u1, r) \<Rightarrow> if r = Some True then (u1, True) else click_first ag i ls u1)"

type_synonym handling = "ui \<times> dispatch_result"

definition handled_or :: "dispatch_result \<Rightarrow> ui \<times> bool \<Rightarrow> handling" where
  "handled_or d r = (fst r, if snd r then Handled else d)"

section \<open>Simple dialogs\<close>

definition title_has :: "window_info \<Rightarrow> string \<Rightarrow> bool" where
  "title_has w s = contains_str (to_lowercase (w_title w)) s"

datatype session_action = Primary | Secondary | PrimaryOverride
datatype accept_incoming = Accept | Reject | Manual

definition session_conflict_can :: "window_info \<Rightarrow> bool" where
  "session_conflict_can w \<longleftrightarrow> title_has w ''existing session'' \<or> title_has w ''session conflict''
     \<or> title_has w ''another session''"

definition session_conflict_handle :: "session_action \<Rightarrow> agent \<Rightarrow> window_info \<Rightarrow> ui \<Rightarrow> handling" where
  "session_conflict_handle a ag w u =
     handled_or (HandlerError ''no matching button found'')
       (click_first ag (w_id w) (if a = Secondary then [''Cancel'', ''Exit Application'']
                                 else [''Reconnect This Session'', ''Continue Login'', ''OK'']) u)"

definition relogin_can :: "window_info \<Rightarrow> bool" where
  "relogin_can w \<longleftrightarrow> title_has w ''re-login'' \<or> title_has w ''relogin'' \<or> title_has w ''login is required''"

definition relogin_handle :: "agent \<Rightarrow> window_info \<Rightarrow> ui \<Rightarrow> handling" where
  "relogin_handle ag w u =
     (case act ag (Click (w_id w) ''Cancel'') u of
        (u1, r) \<Rightarrow> if r = Some True then (u1, Handled)
                   else (fst (act ag (Click (w_id w) ''OK'') u1), Handled))"

definition ssl_can :: "window_info \<Rightarrow> bool" where
  "ssl_can w \<longleftrightarrow> title_has w ''ssl'' \<or> title_has w ''encryption''"

definition ssl_handle :: "agent \<Rightarrow> window_info \<Rightarrow> ui \<Rightarrow> handling" where
  "ssl_handle ag w u =
     handled_or (HandlerError ''no matching button'') (click_first ag (w_id w) [''Reconnect using SSL'', ''OK''] u)"

definition tip_can :: "window_info \<Rightarrow> bool" where
  "tip_can w \<longleftrightarrow> title_has w ''tip of the day'' \<or> title_has w ''tips''"

definition tip_handle :: "agent \<Rightarrow> window_info \<Rightarrow> ui \<Rightarrow> handling" where
  "tip_handle ag w u =
     (case act ag (Click (w_id w) ''Close'') u of
        (u1, Some b) \<Rightarrow> (u1, Handled)
      | (u1, None) \<Rightarrow>
          (case act ag (Click (w_id w) ''OK'') u1 of
             (u2, None) \<Rightarrow> (u2, DispatchFailed)
           | (u2, Some b) \<Rightarrow> (u2, Handled)))"

definition accept_can :: "window_info \<Rightarrow> bool" where
  "accept_can w \<longleftrightarrow> title_has w ''accept incoming connection'' \<or> title_has w ''api connection''
     \<or> title_has w ''incoming connection''"

definition accept_handle :: "accept_incoming \<Rightarrow> agent \<Rightarrow> window_info \<Rightarrow> ui \<Rightarrow> handling" where
  "accept_handle a ag w u =
     (if a = Manual then (u, NotApplicable)
      else (case act ag (Click (w_id w) (if a = Reject then ''Reject'' else ''Accept'')) u of
              (u1, None) \<Rightarrow> (u1, DispatchFailed)
            | (u1, Some b) \<Rightarrow> (u1, Handled)))"

definition paper_warning_can :: "window_info \<Rightarrow> bool" where
  "paper_warning_can w \<longleftrightarrow> \<not> title_has w ''configuration''
     \<and> (title_has w ''paper trading'' \<or> title_has w ''non-brokerage'' \<or> title_has w ''warning'')"

definition paper_warning_labels :: "string list" where
  "paper_warning_labels = [''I understand and accept'', ''OK'', ''Yes'', ''Accept'']"

definition paper_warning_handle :: "agent \<Rightarrow> window_info \<Rightarrow> ui \<Rightarrow> handling" where
  "paper_warning_handle ag w u =
     handled_or (HandlerError ''no matching button found'') (click_first ag (w_id w) paper_warning_labels u)"

definition version_can :: "window_info \<Rightarrow> bool" where
  "version_can w \<longleftrightarrow> title_has w ''newer version'' \<or> title_has w ''update available''
     \<or> (title_has w ''version'' \<and> (title_has w ''update'' \<or> title_has w ''upgrade'' \<or> title_has w ''new''))"

text \<open>Here any answer of the agent, found or not, counts as dismissed.\<close>

fun click_any :: "agent \<Rightarrow> nat \<Rightarrow> string list \<Rightarrow> ui \<Rightarrow> ui \<times> bool" where
  "click_any ag i [] u = (u, False)"
| "click_any ag i (l # ls) u =
     (case act ag (Click i l) u of
        (u1, Some b) \<Rightarrow> (u1, True) | (u1, None) \<Rightarrow> click_any ag i ls u1)"

definition version_handle :: "agent \<Rightarrow> window_info \<Rightarrow> ui \<Rightarrow> handling" where
  "version_handle ag w u =
     (case click_any ag (w_id w) [''OK'', ''Close'', ''Dismiss''] u of
        (u1, True) \<Rightarrow> (u1, Handled)
      | (u1, False) \<Rightarrow>
          (case act ag (PressKey (w_id w) ''Escape'') u1 of
             (u2, None) \<Rightarrow> (u2, DispatchFailed) | (u2, Some b) \<Rightarrow> (u2, Handled)))"

definition small_gateway :: "window_info \<Rightarrow> bool" where
  "small_gateway w \<longleftrightarrow> is_gateway_title (w_title w)
     \<and> (case w_bounds w of None \<Rightarrow> False | Some b \<Rightarrow> b_width b < 650 \<and> b_height b < 400)"

definition notification_handle :: "agent \<Rightarrow> window_info \<Rightarrow> ui \<Rightarrow> handling" where
  "notification_handle ag w u = handled_or NotApplicable (click_first ag (w_id w) [''Close'', ''OK''] u)"

section \<open>Order dialogs and the long tail\<close>

datatype crypto_order_decision = CryptoManual | CryptoTransmit | CryptoCancel

record dialog_policy =
  dp_dismiss_password_expiry :: bool
  dp_accept_bid_ask_last_size_update :: bool
  dp_crypto_order_decision :: crypto_order_decision
  dp_allow_blind_trading :: bool
  dp_bypass_order_precautions :: bool

type_synonym getenv = "string \<Rightarrow> string option"

definition env_lower :: "getenv \<Rightarrow> string \<Rightarrow> string option" where
  "env_lower env name =
     (case env name of
        None \<Rightarrow> None
      | Some v \<Rightarrow> let l = to_lowercase (trim v) in if l = [] then None else Some l)"

definition env_yes :: "getenv \<Rightarrow> string \<Rightarrow> bool" where
  "env_yes env name \<longleftrightarrow> env_lower env name \<in> {Some ''yes'', Some ''true'', Some ''1''}"

definition policy_from_env :: "getenv \<Rightarrow> dialog_policy" where
  "policy_from_env env = \<lparr>
     dp_dismiss_password_expiry = env_yes env ''DISMISS_PASSWORD_EXPIRY_WARNING'',
     dp_accept_bid_ask_last_size_update =
       (env_lower env ''ACCEPT_BID_ASK_LAST_SIZE_DISPLAY_UPDATE_NOTIFICATION'' \<in> {Some ''accept'', Some ''defer''}),
     dp_crypto_order_decision =
       (if env_lower env ''CONFIRM_CRYPTO_CURRENCY_ORDERS'' = Some ''transmit'' then CryptoTransmit
        else if env_lower env ''CONFIRM_CRYPTO_CURRENCY_ORDERS'' = Some ''cancel'' then CryptoCancel
        else CryptoManual),
     dp_allow_blind_trading = env_yes env ''ALLOW_BLIND_TRADING'',
     dp_bypass_order_precautions = (env_yes env ''BYPASS_WARNING'' \<or> env_yes env ''BYPASS_ORDER_PRECAUTIONS'')\<rparr>"

definition ibc_needles :: "string list" where
  "ibc_needles = [''confirmation'', ''cryptocurrency order'', ''login'', ''newer version'', ''notice'',
     ''order preview'', ''password notice'', ''restart'', ''warning'']"

definition is_large_gateway_window :: "window_info \<Rightarrow> bool" where
  "is_large_gateway_window w \<longleftrightarrow> is_gateway_title (w_title w)
     \<and> (case w_bounds w of None \<Rightarrow> False | Some b \<Rightarrow> b_width b \<ge> 650 \<and> b_height b \<ge> 400)"

definition ibc_can :: "window_info \<Rightarrow> bool" where
  "ibc_can w \<longleftrightarrow> \<not> title_has w ''configuration'' \<and> \<not> is_large_gateway_window w
     \<and> (small_gateway w \<or> list_ex (title_has w) ibc_needles)"

text \<open>The decision table: a handler name and the buttons to try, in order.\<close>

definition classify_dialog_with_policy :: "string \<Rightarrow> string \<Rightarrow> dialog_policy \<Rightarrow> (string \<times> string list) option" where
  "classify_dialog_with_policy title0 text0 p =
     (let ti = contains_str (to_lowercase title0); tx = contains_str (to_lowercase text0) in
      if tx ''apply the new socket port setting'' then Some (''ApiChangeConfirmationDialogHandler'', [''Yes'', ''OK''])
      else if tx ''trading platform restart automatically'' then Some (''AutoRestartConfirmationDialog'', [''OK''])
      else if (ti ''restart confirmation'' \<or> tx ''auto-restart'' \<or> tx ''auto logoff'') \<and> (tx ''restart'' \<or> tx ''logoff'')
      then Some (''AutoLogoffRestartConfirmationDialog'', [''Yes'', ''OK''])
      else if ti ''newer version'' \<or> tx ''newer version'' then Some (''NewerVersionDialogHandler'', [''OK'', ''No''])
      else if ti ''login failed'' then Some (''LoginFailedDialogHandler'', [''OK''])
      else if ti ''login error'' then Some (''LoginErrorDialogHandler'', [''OK''])
      else if ti ''login'' \<and> tx ''not currently available'' then Some (''NotCurrentlyAvailableDialogHandler'', [''OK''])
      else if tx ''too many failed login attempts'' then Some (''TooManyFailedLoginAttemptsDialogHandler'', [''OK''])
      else if ti ''connection lost'' \<or> tx ''connection lost'' then Some (''ConnectionLostDialogHandler'', [''OK'', ''Reconnect''])
      else if ti ''password notice'' \<and> dp_dismiss_password_expiry p
      then Some (''PasswordExpiryWarningFrameHandler'', [''OK''])
      else if tx ''bid, ask and last size display update'' \<and> dp_accept_bid_ask_last_size_update p
      then Some (''BidAskLastSizeDisplayUpdateDialogHandler'', [''I understand - display market data'', ''OK''])
      else if ti ''cryptocurrency order confirmation''
      then (case dp_crypto_order_decision p of
              CryptoTransmit \<Rightarrow> Some (''CryptoOrderConfirmationDialogHandler'', [''Transmit''])
            | CryptoCancel \<Rightarrow> Some (''CryptoOrderConfirmationDialogHandler'', [''Cancel''])
            | CryptoManual \<Rightarrow> None)
      else if (ti ''order preview'' \<or> tx ''order preview'') \<and> \<not> tx ''blind trading'' \<and> dp_bypass_order_precautions p
      then Some (''OrderPreviewDialogHandler'', [''Transmit'', ''Submit'', ''OK''])
      else if (ti ''precaution'' \<or> tx ''precautionary setting'' \<or> tx ''order precaution'') \<and> dp_bypass_order_precautions p
      then Some (''ApiPrecautionWarningDialog'', [''Override and Transmit'', ''Transmit'', ''Yes'', ''OK''])
      else if (ti ''order preview'' \<or> tx ''blind trading'') \<and> tx ''blind trading'' \<and> dp_allow_blind_trading p
      then Some (''BlindTradingWarningDialogHandler'', [''Override and Transmit'', ''Yes''])
      else if ti ''api client needs write access'' \<or> tx ''api write access'' \<or> tx ''read-only api''
      then Some (''ReadOnlyApiWarningDialog'', [''Yes'', ''OK'', ''Close''])
      else if tx ''login handoff'' \<or> tx ''trading login handoff'' then Some (''TradingLoginHandoffDialogHandler'', [''OK''])
      else None)"

function (sequential) nonblank_strings :: "json \<Rightarrow> string list" where
  "nonblank_strings (JStr s) = (if trim s \<noteq> [] then [s] else [])"
| "nonblank_strings (JArr vs) = concat (map nonblank_strings vs)"
| "nonblank_strings (JObj kvs) = concat (map (\<lambda>kv. nonblank_strings (snd kv)) kvs)"
| "nonblank_strings _ = []"
  by pat_completeness auto
termination
  by (relation "measure size") (auto simp: json_size_obj json_size_arr)

fun join_lines :: "string list \<Rightarrow> string" where
  "join_lines [] = []"
| "join_lines [x] = x"
| "join_lines (x # y # zs) = x @ [CHR 0x0A] @ join_lines (y # zs)"

definition dialog_text_blob :: "window_info \<Rightarrow> json \<Rightarrow> string" where
  "dialog_text_blob w c = join_lines (w_title w # nonblank_strings c)"

definition ibc_handle :: "dialog_policy \<Rightarrow> agent \<Rightarrow> window_info \<Rightarrow> ui \<Rightarrow> handling" where
  "ibc_handle p ag w u =
     (case dump_window ag (w_id w) u of
        (u1, d) \<Rightarrow>
          (case classify_dialog_with_policy (w_title w)
                  (dialog_text_blob w (case d of None \<Rightarrow> JNull | Some c \<Rightarrow> c)) p of
             None \<Rightarrow> (u1, NotApplicable)
           | Some (name, buttons) \<Rightarrow>
               handled_or (HandlerError (name @ '' matched but no expected button was found''))
                 (click_first ag (w_id w) buttons u1)))"

section \<open>Credentials and codes\<close>

record login_config =
  lc_username :: string
  lc_password :: string
  lc_trading_mode :: trading_mode

definition login_can :: "ui \<Rightarrow> window_info \<Rightarrow> bool" where
  "login_can u w \<longleftrightarrow> \<not> ui_login_submitted u \<and> title_has w ''login''"

definition expected_button :: "trading_mode \<Rightarrow> string" where
  "expected_button m = (if m = Paper then ''Paper Log In'' else ''Log In'')"

definition has_button :: "string \<Rightarrow> json \<Rightarrow> bool" where
  "has_button b c =
     (case get_array ''buttons'' c of
        None \<Rightarrow> False
      | Some bs \<Rightarrow> list_ex (\<lambda>j. Option.bind (json_get ''text'' j) as_str = Some b) bs)"

text \<open>Up to five looks at the window until the button of the chosen mode is there.\<close>

fun verify_mode :: "nat \<Rightarrow> agent \<Rightarrow> nat \<Rightarrow> string \<Rightarrow> ui \<Rightarrow> ui" where
  "verify_mode 0 ag i b u = u"
| "verify_mode (Suc n) ag i b u =
     (case dump_window ag i u of
        (u1, d) \<Rightarrow> if (case d of None \<Rightarrow> False | Some c \<Rightarrow> has_button b c) then u1 else verify_mode n ag i b u1)"

definition login_prepare :: "login_config \<Rightarrow> agent \<Rightarrow> window_info \<Rightarrow> ui \<Rightarrow> ui" where
  "login_prepare lc ag w u =
     (let u1 = fst (act ag (Click (w_id w) ''IB API'') u);
          u2 = fst (act ag (Click (w_id w) (if lc_trading_mode lc = Paper then ''Paper Trading'' else ''Live Trading'')) u1)
      in verify_mode 5 ag (w_id w) (expected_button (lc_trading_mode lc)) u2)"

definition login_handle :: "login_config \<Rightarrow> agent \<Rightarrow> window_info \<Rightarrow> ui \<Rightarrow> handling" where
  "login_handle lc ag w u =
     (case act ag (TypeField (w_id w) 0 (lc_username lc)) (login_prepare lc ag w u) of
        (u1, None) \<Rightarrow> (u1, DispatchFailed)
      | (u1, Some False) \<Rightarrow> (u1, HandlerError ''Username field not found or not writable'')
      | (u1, Some True) \<Rightarrow>
          (case act ag (TypeField (w_id w) 1 (lc_password lc)) u1 of
             (u2, None) \<Rightarrow> (u2, DispatchFailed)
           | (u2, Some False) \<Rightarrow> (u2, HandlerError ''Password field not found or not writable'')
           | (u2, Some True) \<Rightarrow>
               (case click_first ag (w_id w)
                       (if lc_trading_mode lc = Paper then [''Paper Log In'', ''Log In''] else [''Log In'', ''Paper Log In'']) u2 of
                  (u3, False) \<Rightarrow> (u3, HandlerError ''No login button found'')
                | (u3, True) \<Rightarrow> (u3\<lparr>ui_login_submitted := True\<rparr>, Handled))))"

text \<open>
  The code handler: what the optional OCR check says, and the generated code (\<open>None\<close> when
  the secret, the clock or the generator fails).
\<close>

datatype ocr_outcome = OcrOff | OcrMatched | OcrUnmatched | OcrSkipped | OcrFailed

record totp_env =
  te_ocr :: ocr_outcome
  te_ocr_strict :: bool
  te_code :: "string option"

definition totp_handle :: "totp_env \<Rightarrow> agent \<Rightarrow> window_info \<Rightarrow> ui \<Rightarrow> handling" where
  "totp_handle te ag w u =
     (if te_ocr_strict te \<and> te_ocr te = OcrUnmatched
      then (u, HandlerError (''OCR did not recognize expected 2FA text in '' @ [CHR 0x27] @ w_title w @ [CHR 0x27]))
      else if te_ocr_strict te \<and> te_ocr te = OcrFailed
      then (u, HandlerError ''strict OCR verification failed'')
      else (case te_code te of
              None \<Rightarrow> (u, DispatchFailed)
            | Some code \<Rightarrow>
                (case act ag (TypeBest (w_id w) code) u of
                   (u1, None) \<Rightarrow> (u1, DispatchFailed)
                 | (u1, Some False) \<Rightarrow> (u1, HandlerError ''2FA code field not found or not writable'')
                 | (u1, Some True) \<Rightarrow>
                     (case click_first ag (w_id w) [''OK'', ''Verify'', ''Submit'', ''Continue'', ''Next''] u1 of
                        (u2, True) \<Rightarrow> (u2, Handled)
                      | (u2, False) \<Rightarrow>
                          (case act ag (PressKey (w_id w) ''Enter'') u2 of
                             (u3, None) \<Rightarrow> (u3, DispatchFailed) | (u3, Some b) \<Rightarrow> (u3, Handled))))))"

section \<open>The registry\<close>

datatype handler =
    LoginHandler | TotpEntryHandler | SessionConflictHandler | ReloginHandler | SslReconnectHandler
  | TipOfDayHandler | IbcCompatibilityDialogHandler | AcceptConnectionHandler | PaperWarningHandler
  | VersionNoticeHandler | GatewayNotificationHandler

fun handler_name :: "handler \<Rightarrow> string" where
  "handler_name LoginHandler = ''LoginHandler''"
| "handler_name TotpEntryHandler = ''TotpEntryHandler''"
| "handler_name SessionConflictHandler = ''SessionConflictHandler''"
| "handler_name ReloginHandler = ''ReloginHandler''"
| "handler_name SslReconnectHandler = ''SslReconnectHandler''"
| "handler_name TipOfDayHandler = ''TipOfDayHandler''"
| "handler_name IbcCompatibilityDialogHandler = ''IbcCompatibilityDialogHandler''"
| "handler_name AcceptConnectionHandler = ''AcceptConnectionHandler''"
| "handler_name PaperWarningHandler = ''PaperWarningHandler''"
| "handler_name VersionNoticeHandler = ''VersionNoticeHandler''"
| "handler_name GatewayNotificationHandler = ''GatewayNotificationHandler''"

definition with_defaults :: "handler list" where
  "with_defaults = [LoginHandler, TotpEntryHandler, SessionConflictHandler, ReloginHandler,
     SslReconnectHandler, TipOfDayHandler, IbcCompatibilityDialogHandler, AcceptConnectionHandler,
     PaperWarningHandler, VersionNoticeHandler, GatewayNotificationHandler]"

record handler_env =
  he_login :: login_config
  he_totp :: totp_env
  he_session :: session_action
  he_accept :: accept_incoming
  he_policy :: dialog_policy

fun can_handle :: "handler \<Rightarrow> ui \<Rightarrow> window_info \<Rightarrow> bool" where
  "can_handle LoginHandler u w = login_can u w"
| "can_handle TotpEntryHandler u w = is_twofa_title (w_title w)"
| "can_handle SessionConflictHandler u w = session_conflict_can w"
| "can_handle ReloginHandler u w = relogin_can w"
| "can_handle SslReconnectHandler u w = ssl_can w"
| "can_handle TipOfDayHandler u w = tip_can w"
| "can_handle IbcCompatibilityDialogHandler u w = ibc_can w"
| "can_handle AcceptConnectionHandler u w = accept_can w"
| "can_handle PaperWarningHandler u w = paper_warning_can w"
| "can_handle VersionNoticeHandler u w = version_can w"
| "can_handle GatewayNotificationHandler u w = small_gateway w"

fun handle :: "handler \<Rightarrow> handler_env \<Rightarrow> agent \<Rightarrow> window_info \<Rightarrow> ui \<Rightarrow> handling" where
  "handle LoginHandler he = login_handle (he_login he)"
| "handle TotpEntryHandler he = totp_handle (he_totp he)"
| "handle SessionConflictHandler he = session_conflict_handle (he_session he)"
| "handle ReloginHandler he = relogin_handle"
| "handle SslReconnectHandler he = ssl_handle"
| "handle TipOfDayHandler he = tip_handle"
| "handle IbcCompatibilityDialogHandler he = ibc_handle (he_policy he)"
| "handle AcceptConnectionHandler he = accept_handle (he_accept he)"
| "handle PaperWarningHandler he = paper_warning_handle"
| "handle VersionNoticeHandler he = version_handle"
| "handle GatewayNotificationHandler he = notification_handle"

fun dispatch_from :: "handler list \<Rightarrow> handler_env \<Rightarrow> agent \<Rightarrow> window_info \<Rightarrow> ui \<Rightarrow> ui \<times> dispatch_result option" where
  "dispatch_from [] he ag w u = (u, None)"
| "dispatch_from (h # hs) he ag w u =
     (if can_handle h u w
      then (case handle h he ag w u of
              (u1, NotApplicable) \<Rightarrow> dispatch_from hs he ag w u1
            | (u1, r) \<Rightarrow> (u1, Some r))
      else dispatch_from hs he ag w u)"

definition dispatch :: "handler_env \<Rightarrow> agent \<Rightarrow> window_info \<Rightarrow> ui \<Rightarrow> ui \<times> dispatch_result option" where
  "dispatch = dispatch_from with_defaults"

definition dispatch_named :: "string \<Rightarrow> handler_env \<Rightarrow> agent \<Rightarrow> window_info \<Rightarrow> ui \<Rightarrow> ui \<times> dispatch_result option" where
  "dispatch_named name he ag w u =
     (case find (\<lambda>h. handler_name h = name) with_defaults of
        None \<Rightarrow> (u, None)
      | Some h \<Rightarrow> (case handle h he ag w u of (u1, r) \<Rightarrow> (u1, Some r)))"

definition registry_reset :: "ui \<Rightarrow> ui" where
  "registry_reset u = u\<lparr>ui_login_submitted := False\<rparr>"

section \<open>What a handler can do\<close>

text \<open>
  \<open>does ok u v\<close>: between \<open>u\<close> and \<open>v\<close> only actions satisfying \<open>ok\<close> were taken, and each is
  recorded.
\<close>

definition does :: "(ui_action \<Rightarrow> bool) \<Rightarrow> ui \<Rightarrow> ui \<Rightarrow> bool" where
  "does ok u v \<longleftrightarrow> (\<exists>as. ui_log v = ui_log u @ as \<and> list_all ok as)"

lemma does_refl [simp, intro]: "does ok u u"
  unfolding does_def by (rule exI [of _ "[]"]) simp

lemma does_trans [trans]: "does ok u v \<Longrightarrow> does ok v w \<Longrightarrow> does ok u w"
  unfolding does_def by (metis append.assoc list_all_append)

lemma does_weaken: "does p u v \<Longrightarrow> (\<And>a. p a \<Longrightarrow> q a) \<Longrightarrow> does q u v"
  unfolding does_def by (metis list_all_iff)

lemma act_does: "ok a \<Longrightarrow> does ok u (fst (act ag a u))"
  unfolding does_def act_def by (rule exI [of _ "[a]"]) simp

lemma act_does_eq: "act ag a u = (v, r) \<Longrightarrow> ok a \<Longrightarrow> does ok u v"
  using act_does [of ok a u ag] by simp

lemma act_flag [simp]: "ui_login_submitted (fst (act ag a u)) = ui_login_submitted u"
  by (simp add: act_def)

lemma act_flag_eq: "act ag a u = (v, r) \<Longrightarrow> ui_login_submitted v = ui_login_submitted u"
  using act_flag [of ag a u] by simp

lemma dump_does: "ok (DumpWindow i) \<Longrightarrow> does ok u (fst (dump_window ag i u))"
  unfolding does_def dump_window_def by (rule exI [of _ "[DumpWindow i]"]) simp

lemma dump_flag [simp]: "ui_login_submitted (fst (dump_window ag i u)) = ui_login_submitted u"
  by (simp add: dump_window_def)

lemma click_first_does:
  "(\<And>l. l \<in> set ls \<Longrightarrow> ok (Click i l)) \<Longrightarrow> does ok u (fst (click_first ag i ls u))"
proof (induction ls arbitrary: u)
  case (Cons l ls)
  obtain v r where v: "act ag (Click i l) u = (v, r)" by fastforce
  have "does ok u v" using v Cons.prems by (auto intro: act_does_eq)
  moreover have "does ok v (fst (click_first ag i ls v))" using Cons by auto
  ultimately show ?case using v by (auto intro: does_trans)
qed simp

lemma click_first_flag [simp]:
  "ui_login_submitted (fst (click_first ag i ls u)) = ui_login_submitted u"
  by (induction ls arbitrary: u) (auto simp: act_flag_eq split: prod.splits)

lemma click_any_does:
  "(\<And>l. l \<in> set ls \<Longrightarrow> ok (Click i l)) \<Longrightarrow> does ok u (fst (click_any ag i ls u))"
proof (induction ls arbitrary: u)
  case (Cons l ls)
  obtain v r where v: "act ag (Click i l) u = (v, r)" by fastforce
  have "does ok u v" using v Cons.prems by (auto intro: act_does_eq)
  moreover have "does ok v (fst (click_any ag i ls v))" using Cons by auto
  ultimately show ?case using v by (auto intro: does_trans split: option.splits)
qed simp

lemma click_any_flag [simp]:
  "ui_login_submitted (fst (click_any ag i ls u)) = ui_login_submitted u"
  by (induction ls arbitrary: u) (auto simp: act_flag_eq split: prod.splits option.splits)

declare click_first.simps [simp del] click_any.simps [simp del]

lemma handled_or_fst [simp]: "fst (handled_or d r) = fst r"
  by (simp add: handled_or_def)

text \<open>The actions of a handler that presses buttons of one window and enters nothing.\<close>

fun presses :: "string set \<Rightarrow> nat \<Rightarrow> ui_action \<Rightarrow> bool" where
  "presses ls i (Click j l) \<longleftrightarrow> j = i \<and> l \<in> ls"
| "presses ls i (PressKey j k) \<longleftrightarrow> j = i"
| "presses ls i (DumpWindow j) \<longleftrightarrow> j = i"
| "presses ls i _ \<longleftrightarrow> False"

definition enters_text :: "ui_action \<Rightarrow> bool" where
  "enters_text a \<longleftrightarrow> (case a of TypeField i f s \<Rightarrow> True | TypeBest i s \<Rightarrow> True | _ \<Rightarrow> False)"

lemma presses_no_text: "presses ls i a \<Longrightarrow> \<not> enters_text a"
  by (cases a) (auto simp: enters_text_def)

text \<open>
  The contract of the handlers that dismiss a dialog: they touch only the window they were
  given, press only buttons of a fixed set, enter no text and leave the login flag alone.
\<close>

locale dismissing_handler =
  fixes h :: "agent \<Rightarrow> window_info \<Rightarrow> ui \<Rightarrow> handling"
    and labels :: "string set"
  assumes only_presses: "does (presses labels (w_id w)) u (fst (h ag w u))"
    and keeps_flag: "ui_login_submitted (fst (h ag w u)) = ui_login_submitted u"
begin

lemma enters_nothing: "does (\<lambda>a. \<not> enters_text a) u (fst (h ag w u))"
  using only_presses presses_no_text by (rule does_weaken)

lemma avoids_label: "l \<notin> labels \<Longrightarrow> does (\<lambda>a. \<forall>i. a \<noteq> Click i l) u (fst (h ag w u))"
  using only_presses by (rule does_weaken) auto

end

interpretation session_conflict: dismissing_handler "session_conflict_handle a"
  "{''Cancel'', ''Exit Application'', ''Reconnect This Session'', ''Continue Login'', ''OK''}"
  by unfold_locales (auto simp: session_conflict_handle_def intro!: click_first_does)

interpretation ssl: dismissing_handler ssl_handle "{''Reconnect using SSL'', ''OK''}"
  by unfold_locales (auto simp: ssl_handle_def intro!: click_first_does)

interpretation paper_warning: dismissing_handler paper_warning_handle "set paper_warning_labels"
  by unfold_locales (auto simp: paper_warning_handle_def intro!: click_first_does)

interpretation notification: dismissing_handler notification_handle "{''Close'', ''OK''}"
  by unfold_locales (auto simp: notification_handle_def intro!: click_first_does)

interpretation accept: dismissing_handler "accept_handle a" "{''Accept'', ''Reject''}"
  by unfold_locales
    (auto simp: accept_handle_def split: prod.splits option.splits
       dest: act_flag_eq intro!: act_does_eq)

lemma relogin_fst:
  "fst (relogin_handle ag w u) = fst (click_first ag (w_id w) [''Cancel'', ''OK''] u)"
  by (auto simp: relogin_handle_def click_first.simps split: prod.splits)

interpretation relogin: dismissing_handler relogin_handle "{''Cancel'', ''OK''}"
  by unfold_locales (auto simp: relogin_fst intro!: click_first_does)

lemma tip_fst: "fst (tip_handle ag w u) = fst (click_any ag (w_id w) [''Close'', ''OK''] u)"
  by (auto simp: tip_handle_def click_any.simps split: prod.splits option.splits)

interpretation tip: dismissing_handler tip_handle "{''Close'', ''OK''}"
  by unfold_locales (auto simp: tip_fst intro!: click_any_does)

lemma version_fst:
  "fst (version_handle ag w u) =
     (case click_any ag (w_id w) [''OK'', ''Close'', ''Dismiss''] u of
        (u1, b) \<Rightarrow> if b then u1 else fst (act ag (PressKey (w_id w) ''Escape'') u1))"
  by (auto simp: version_handle_def split: prod.splits option.splits bool.splits)

interpretation version: dismissing_handler version_handle "{''OK'', ''Close'', ''Dismiss''}"
proof
  fix w :: window_info and u ag
  let ?c = "click_any ag (w_id w) [''OK'', ''Close'', ''Dismiss''] u"
  let ?ok = "presses {''OK'', ''Close'', ''Dismiss''} (w_id w)"
  have "does ?ok u (fst ?c)" by (rule click_any_does) auto
  then show "does ?ok u (fst (version_handle ag w u))"
    by (auto simp: version_fst split: prod.splits elim!: does_trans intro!: act_does)
  show "ui_login_submitted (fst (version_handle ag w u)) = ui_login_submitted u"
    using click_any_flag [of ag "w_id w" "[''OK'', ''Close'', ''Dismiss'']" u]
    by (auto simp: version_fst simp del: click_any_flag split: prod.splits)
qed

section \<open>The other handlers\<close>

definition order_labels :: "dialog_policy \<Rightarrow> string set" where
  "order_labels p =
     (if dp_bypass_order_precautions p then {''Transmit'', ''Override and Transmit''} else {})
     \<union> (if dp_allow_blind_trading p then {''Override and Transmit''} else {})
     \<union> (if dp_crypto_order_decision p = CryptoTransmit then {''Transmit''} else {})"

definition ibc_labels :: "string set" where
  "ibc_labels = {''Yes'', ''OK'', ''No'', ''Reconnect'', ''I understand - display market data'', ''Cancel'',
     ''Submit'', ''Close''}"

definition buttons_in :: "string set \<Rightarrow> (string \<times> string list) option \<Rightarrow> bool" where
  "buttons_in S r \<longleftrightarrow> (case r of None \<Rightarrow> True | Some (n, bs) \<Rightarrow> set bs \<subseteq> S)"

lemma buttons_in_simps: "buttons_in S None" "buttons_in S (Some (n, bs)) \<longleftrightarrow> set bs \<subseteq> S"
  by (simp_all add: buttons_in_def)

lemma buttons_in_if:
  "(c \<Longrightarrow> buttons_in S x) \<Longrightarrow> buttons_in S y \<Longrightarrow> buttons_in S (if c then x else y)"
  by simp

lemma buttons_in_crypto:
  "(d = CryptoManual \<Longrightarrow> buttons_in S x) \<Longrightarrow> (d = CryptoTransmit \<Longrightarrow> buttons_in S y) \<Longrightarrow>
   (d = CryptoCancel \<Longrightarrow> buttons_in S z) \<Longrightarrow>
   buttons_in S (case d of CryptoManual \<Rightarrow> x | CryptoTransmit \<Rightarrow> y | CryptoCancel \<Rightarrow> z)"
  by (cases d) simp_all

lemma classify_buttons:
  "buttons_in (ibc_labels \<union> order_labels p) (classify_dialog_with_policy ti tx p)"
  unfolding classify_dialog_with_policy_def Let_def
  by (intro buttons_in_if buttons_in_crypto;
      simp add: buttons_in_simps ibc_labels_def order_labels_def)

lemma classify_labels:
  assumes "classify_dialog_with_policy ti tx p = Some (n, bs)" and "b \<in> set bs"
  shows "b \<in> ibc_labels \<union> order_labels p"
  using assms classify_buttons [of p ti tx] by (auto simp: buttons_in_simps)

lemma ibc_presses: "does (presses (ibc_labels \<union> order_labels p) (w_id w)) u (fst (ibc_handle p ag w u))"
proof -
  obtain u1 d where d: "dump_window ag (w_id w) u = (u1, d)" by fastforce
  let ?ok = "presses (ibc_labels \<union> order_labels p) (w_id w)"
  have "does ?ok u u1" using dump_does [of ?ok "w_id w" u ag] d by simp
  moreover have "does ?ok u1 (fst (click_first ag (w_id w) bs u1))"
    if "classify_dialog_with_policy ti tx p = Some (n, bs)" for ti tx n bs
    by (rule click_first_does) (simp add: classify_labels [OF that, simplified])
  ultimately show ?thesis
    by (auto simp: ibc_handle_def d split: option.split elim!: does_trans)
qed

lemma ibc_flag: "ui_login_submitted (fst (ibc_handle p ag w u)) = ui_login_submitted u"
  using dump_flag [of ag "w_id w" u] by (auto simp: ibc_handle_def simp del: dump_flag split: prod.split option.split)

interpretation ibc: dismissing_handler "ibc_handle p" "ibc_labels \<union> order_labels p"
  by unfold_locales (rule ibc_presses ibc_flag)+

text \<open>The credentials handler: its two fields, and the buttons of the login window.\<close>

definition login_labels :: "string set" where
  "login_labels = {''IB API'', ''Paper Trading'', ''Live Trading'', ''Paper Log In'', ''Log In''}"

definition login_action :: "login_config \<Rightarrow> nat \<Rightarrow> ui_action \<Rightarrow> bool" where
  "login_action lc i a \<longleftrightarrow> presses login_labels i a
     \<or> a \<in> {TypeField i 0 (lc_username lc), TypeField i 1 (lc_password lc)}"

lemma login_action_simps [simp]:
  "login_action lc i (Click j l) \<longleftrightarrow> j = i \<and> l \<in> login_labels"
  "login_action lc i (DumpWindow j) \<longleftrightarrow> j = i"
  "login_action lc i (TypeField j f s) \<longleftrightarrow> j = i \<and> (f = 0 \<and> s = lc_username lc \<or> f = 1 \<and> s = lc_password lc)"
  by (auto simp: login_action_def)

lemma verify_mode_does: "ok (DumpWindow i) \<Longrightarrow> does ok u (fst (verify_mode n ag i b u, ()))"
proof (induction n arbitrary: u)
  case (Suc n)
  obtain v d where v: "dump_window ag i u = (v, d)" by fastforce
  have "does ok u v" using dump_does [of ok i u ag, OF Suc.prems] v by simp
  then show ?case using Suc.IH [OF Suc.prems, of v] v by (auto intro: does_trans)
qed simp

lemma login_prepare_does: "does (login_action lc (w_id w)) u (login_prepare lc ag w u)"
proof -
  let ?ok = "login_action lc (w_id w)"
  let ?u1 = "fst (act ag (Click (w_id w) ''IB API'') u)"
  let ?m = "if lc_trading_mode lc = Paper then ''Paper Trading'' else ''Live Trading''"
  let ?u2 = "fst (act ag (Click (w_id w) ?m) ?u1)"
  have "does ?ok u ?u1" by (rule act_does) (simp add: login_labels_def)
  also have "does ?ok ?u1 ?u2" by (rule act_does) (simp add: login_labels_def)
  also have "does ?ok ?u2 (login_prepare lc ag w u)"
    using verify_mode_does [of ?ok] by (simp add: login_prepare_def)
  finally show ?thesis .
qed

lemma login_does: "does (login_action lc (w_id w)) u (fst (login_handle lc ag w u))"
proof -
  let ?ok = "login_action lc (w_id w)" and ?p = "login_prepare lc ag w u"
  let ?ls = "if lc_trading_mode lc = Paper then [''Paper Log In'', ''Log In''] else [''Log In'', ''Paper Log In'']"
  obtain u1 r1 where a1: "act ag (TypeField (w_id w) 0 (lc_username lc)) ?p = (u1, r1)" by fastforce
  obtain u2 r2 where a2: "act ag (TypeField (w_id w) 1 (lc_password lc)) u1 = (u2, r2)" by fastforce
  obtain u3 r3 where a3: "click_first ag (w_id w) ?ls u2 = (u3, r3)" by fastforce
  have "does ?ok u ?p" by (rule login_prepare_does)
  also have "does ?ok ?p u1" using a1 by (rule act_does_eq) simp
  finally have 1: "does ?ok u u1" .
  also have "does ?ok u1 u2" using a2 by (rule act_does_eq) simp
  finally have 2: "does ?ok u u2" .
  have "does ?ok u2 (fst (click_first ag (w_id w) ?ls u2))"
    by (rule click_first_does) (simp add: login_labels_def split: if_split_asm, blast+)
  then have "does ?ok u2 u3" using a3 by simp
  with 2 have 3: "does ?ok u u3" by (rule does_trans)
  then have "does ?ok u (u3\<lparr>ui_login_submitted := True\<rparr>)" by (simp add: does_def)
  with 1 2 3 show ?thesis
    unfolding login_handle_def a1 a2 a3 prod.case by (simp split: option.split bool.split)
qed

definition totp_action :: "totp_env \<Rightarrow> nat \<Rightarrow> ui_action \<Rightarrow> bool" where
  "totp_action te i a \<longleftrightarrow> presses {''OK'', ''Verify'', ''Submit'', ''Continue'', ''Next''} i a
     \<or> (\<exists>c. te_code te = Some c \<and> a = TypeBest i c)"

lemma totp_keeps: "does (totp_action te (w_id w)) u (fst (totp_handle te ag w u))
    \<and> ui_login_submitted (fst (totp_handle te ag w u)) = ui_login_submitted u"
proof (cases "te_code te")
  case (Some c)
  let ?ok = "totp_action te (w_id w)" and ?ls = "[''OK'', ''Verify'', ''Submit'', ''Continue'', ''Next'']"
  obtain u1 r1 where a1: "act ag (TypeBest (w_id w) c) u = (u1, r1)" by fastforce
  obtain u2 r2 where a2: "click_first ag (w_id w) ?ls u1 = (u2, r2)" by fastforce
  obtain u3 r3 where a3: "act ag (PressKey (w_id w) ''Enter'') u2 = (u3, r3)" by fastforce
  have 1: "does ?ok u u1" using a1 by (rule act_does_eq) (simp add: totp_action_def Some)
  also have "does ?ok u1 u2"
    using click_first_does [of ?ls ?ok "w_id w" u1 ag] a2 by (auto simp: totp_action_def)
  finally have 2: "does ?ok u u2" .
  also have "does ?ok u2 u3" using a3 by (rule act_does_eq) (simp add: totp_action_def)
  finally have 3: "does ?ok u u3" .
  have "ui_login_submitted u1 = ui_login_submitted u" "ui_login_submitted u2 = ui_login_submitted u1"
    "ui_login_submitted u3 = ui_login_submitted u2"
    using act_flag_eq [OF a1] click_first_flag [of ag "w_id w" ?ls u1] a2 act_flag_eq [OF a3] by simp_all
  with 1 2 3 show ?thesis
    by (auto simp: totp_handle_def Some a1 a2 a3 split: option.split bool.split)
qed (simp add: totp_handle_def)

section \<open>The registry\<close>

lemma dispatch_from_does:
  assumes "\<And>h v. h \<in> set hs \<Longrightarrow> can_handle h v w \<Longrightarrow> does ok v (fst (handle h he ag w v))"
  shows "does ok u (fst (dispatch_from hs he ag w u))"
  using assms
proof (induction hs arbitrary: u)
  case (Cons h hs)
  obtain v r where v: "handle h he ag w u = (v, r)" by fastforce
  have rest: "does ok x (fst (dispatch_from hs he ag w x))" for x using Cons by simp
  have "does ok u v" if "can_handle h u w" using Cons.prems [of h u] that v by simp
  then show ?case using v rest [of u] does_trans [OF _ rest [of v]]
    by (auto split: dispatch_result.split)
qed simp

lemma dispatch_from_kept:
  assumes "\<And>h v. h \<in> set hs \<Longrightarrow> P v \<Longrightarrow> can_handle h v w \<Longrightarrow> P (fst (handle h he ag w v))" and "P u"
  shows "P (fst (dispatch_from hs he ag w u))"
  using assms
proof (induction hs arbitrary: u)
  case (Cons h hs)
  obtain v r where v: "handle h he ag w u = (v, r)" by fastforce
  then have "P v" if "can_handle h u w" using Cons.prems(1) [of h u] that \<open>P u\<close> by simp
  then show ?case using Cons v by (auto split: dispatch_result.split)
qed simp

text \<open>Every action the registry takes on a window, by what it is.\<close>

definition safe_labels :: "string set" where
  "safe_labels = login_labels \<union> ibc_labels \<union> set paper_warning_labels
     \<union> {''Verify'', ''Continue'', ''Next'', ''Exit Application'', ''Reconnect This Session'', ''Continue Login'',
        ''Reconnect using SSL'', ''Accept'', ''Reject'', ''Dismiss''}"

fun registry_action :: "handler_env \<Rightarrow> window_info \<Rightarrow> ui_action \<Rightarrow> bool" where
  "registry_action he w (Click i l) \<longleftrightarrow> i = w_id w \<and> l \<in> safe_labels \<union> order_labels (he_policy he)"
| "registry_action he w (TypeField i f s) \<longleftrightarrow> i = w_id w \<and> title_has w ''login''
     \<and> (f = 0 \<and> s = lc_username (he_login he) \<or> f = 1 \<and> s = lc_password (he_login he))"
| "registry_action he w (TypeBest i s) \<longleftrightarrow> i = w_id w \<and> is_twofa_title (w_title w) \<and> te_code (he_totp he) = Some s"
| "registry_action he w (PressKey i k) \<longleftrightarrow> i = w_id w"
| "registry_action he w (DumpWindow i) \<longleftrightarrow> i = w_id w"

lemma presses_registry:
  "presses ls (w_id w) a \<Longrightarrow> ls \<subseteq> safe_labels \<union> order_labels (he_policy he) \<Longrightarrow> registry_action he w a"
  by (cases a) auto

lemma login_registry:
  assumes "login_action (he_login he) (w_id w) a" and "title_has w ''login''"
  shows "registry_action he w a"
  using assms presses_registry [of login_labels w a he]
  by (auto simp: login_action_def safe_labels_def)

lemma totp_registry:
  assumes "totp_action (he_totp he) (w_id w) a" and "is_twofa_title (w_title w)"
  shows "registry_action he w a"
  using assms presses_registry [of "{''OK'', ''Verify'', ''Submit'', ''Continue'', ''Next''}" w a he]
  by (auto simp: totp_action_def safe_labels_def ibc_labels_def)

context dismissing_handler
begin

lemma registry:
  "labels \<subseteq> safe_labels \<union> order_labels (he_policy he) \<Longrightarrow> does (registry_action he w) u (fst (h ag w u))"
  by (rule does_weaken [OF only_presses]) (rule presses_registry)

end

lemma handle_does:
  assumes "can_handle h u w"
  shows "does (registry_action he w) u (fst (handle h he ag w u))"
proof (cases h)
  case LoginHandler
  then have "title_has w ''login''" using assms by (simp add: login_can_def)
  then show ?thesis using LoginHandler does_weaken [OF login_does login_registry] by simp
next
  case TotpEntryHandler
  then show ?thesis using assms does_weaken [OF conjunct1 [OF totp_keeps] totp_registry] by simp
qed (auto simp: safe_labels_def ibc_labels_def intro!: session_conflict.registry relogin.registry
       ssl.registry tip.registry ibc.registry accept.registry paper_warning.registry
       version.registry notification.registry)

lemma handle_flag:
  "h \<noteq> LoginHandler \<Longrightarrow> ui_login_submitted (fst (handle h he ag w u)) = ui_login_submitted u"
  by (cases h) (simp_all add: totp_keeps session_conflict.keeps_flag relogin.keeps_flag ssl.keeps_flag
    tip.keeps_flag ibc.keeps_flag accept.keeps_flag paper_warning.keeps_flag version.keeps_flag
    notification.keeps_flag)

lemma handle_no_credentials:
  assumes "h \<noteq> LoginHandler"
  shows "does (\<lambda>a. \<forall>i f s. a \<noteq> TypeField i f s) u (fst (handle h he ag w u))"
proof -
  have quiet: "does (\<lambda>a. \<forall>i f s. a \<noteq> TypeField i f s) u v" if "does (\<lambda>a. \<not> enters_text a) u v" for v
    using that by (rule does_weaken) (auto simp: enters_text_def)
  have "does (\<lambda>a. \<forall>i f s. a \<noteq> TypeField i f s) u (fst (totp_handle te ag w u))" for te
    by (rule does_weaken [OF conjunct1 [OF totp_keeps]]) (auto simp: totp_action_def)
  with assms show ?thesis
    by (cases h) (simp_all add: quiet session_conflict.enters_nothing relogin.enters_nothing ssl.enters_nothing
      tip.enters_nothing ibc.enters_nothing accept.enters_nothing paper_warning.enters_nothing
      version.enters_nothing notification.enters_nothing)
qed

lemma dispatch_does: "does (registry_action he w) u (fst (dispatch he ag w u))"
  unfolding dispatch_def by (rule dispatch_from_does) (rule handle_does)

text \<open>A pass of the registry over several windows, as the handlers of the controller make it.\<close>

definition dispatch_windows :: "handler_env \<Rightarrow> agent \<Rightarrow> window_info list \<Rightarrow> ui \<Rightarrow> ui" where
  "dispatch_windows he ag ws u = fold (\<lambda>w u. fst (dispatch he ag w u)) ws u"

lemma dispatch_windows_simps [simp]:
  "dispatch_windows he ag [] u = u"
  "dispatch_windows he ag (w # ws) u = dispatch_windows he ag ws (fst (dispatch he ag w u))"
  by (simp_all add: dispatch_windows_def)

lemma dispatch_windows_does:
  assumes "\<And>w v. w \<in> set ws \<Longrightarrow> P v \<Longrightarrow> does ok v (fst (dispatch he ag w v)) \<and> P (fst (dispatch he ag w v))"
    and "P u"
  shows "does ok u (dispatch_windows he ag ws u)"
  using assms
proof (induction ws arbitrary: u)
  case (Cons w ws)
  let ?v = "fst (dispatch he ag w u)"
  have v: "does ok u ?v" "P ?v" using Cons.prems(1) [of w u] \<open>P u\<close> by simp_all
  have "does ok ?v (dispatch_windows he ag ws ?v)" by (rule Cons.IH) (use Cons.prems v in auto)
  with v show ?case by (auto intro: does_trans)
qed simp

lemma submitted_dispatch:
  assumes "ui_login_submitted u"
  shows "does (\<lambda>a. \<forall>i f s. a \<noteq> TypeField i f s) u (fst (dispatch he ag w u))
    \<and> ui_login_submitted (fst (dispatch he ag w u))"
proof -
  let ?P = "\<lambda>v. ui_login_submitted v \<and> does (\<lambda>a. \<forall>i f s. a \<noteq> TypeField i f s) u v"
  have "?P (fst (dispatch_from with_defaults he ag w u))"
  proof (rule dispatch_from_kept)
    fix h v assume v: "?P v" and "can_handle h v w"
    then have h: "h \<noteq> LoginHandler" by (auto simp: login_can_def)
    show "?P (fst (handle h he ag w v))"
      using v handle_flag [OF h] does_trans [OF _ handle_no_credentials [OF h]] by auto
  qed (use assms in simp)
  then show ?thesis by (simp add: dispatch_def)
qed

lemma registry_does:
  "does (\<lambda>a. list_ex (\<lambda>w. registry_action he w a) ws) u (dispatch_windows he ag ws u)"
  by (rule dispatch_windows_does [where P = "\<lambda>_. True"])
     (auto intro: does_weaken [OF dispatch_does] simp: list_ex_iff)

section \<open>Properties\<close>


lemma order_label_policy:
  assumes "l \<in> safe_labels \<union> order_labels p" and "l \<in> {''Transmit'', ''Override and Transmit''}"
  shows "l \<in> order_labels p"
  using assms by (auto simp: safe_labels_def login_labels_def ibc_labels_def paper_warning_labels_def)

text \<open>
  Order transmission stays manual unless the environment enables it: if any pass of the
  registry over any windows, with any agent, presses a button that transmits an order, then one of
  the three switches is on, and blind trading or the bypass for overriding a warning.
\<close>

theorem transmit_needs_policy:
  assumes "he_policy he = policy_from_env env"
    and "ui_log u = []"
    and "Click i l \<in> set (ui_log (dispatch_windows he ag ws u))"
    and "l \<in> {''Transmit'', ''Override and Transmit''}"
  shows "env_yes env ''BYPASS_WARNING'' \<or> env_yes env ''BYPASS_ORDER_PRECAUTIONS''
    \<or> (if l = ''Transmit'' then env_lower env ''CONFIRM_CRYPTO_CURRENCY_ORDERS'' = Some ''transmit''
       else env_yes env ''ALLOW_BLIND_TRADING'')"
proof -
  have "list_ex (\<lambda>w. registry_action he w (Click i l)) ws"
    using assms(2,3) registry_does [of he ws u ag] by (auto simp: does_def list_all_iff)
  then have "l \<in> order_labels (policy_from_env env)"
    using assms(1,4) order_label_policy by (auto simp: list_ex_iff)
  with assms(4) show ?thesis
    by (auto simp: order_labels_def policy_from_env_def split: if_split_asm)
qed

text \<open>A run with the bypass switch on that presses the transmitting button.\<close>

definition demo_env :: "(string \<times> string) list \<Rightarrow> handler_env" where
  "demo_env kvs = \<lparr>he_login = \<lparr>lc_username = ''user'', lc_password = ''secret'', lc_trading_mode = Live\<rparr>,
     he_totp = \<lparr>te_ocr = OcrOff, te_ocr_strict = False, te_code = None\<rparr>,
     he_session = Primary, he_accept = Accept, he_policy = policy_from_env (map_of kvs)\<rparr>"

definition demo_agent :: "string list \<Rightarrow> string \<Rightarrow> agent" where
  "demo_agent bs t = \<lparr>ag_yes = (\<lambda>log a. case a of Click i l \<Rightarrow> Some (l \<in> set bs) | _ \<Rightarrow> Some True),
     ag_dump = (\<lambda>log i. Some (JStr t))\<rparr>"

lemma demo_agent_simps [simp]:
  "ag_dump (demo_agent bs t) log i = Some (JStr t)"
  "ag_yes (demo_agent bs t) log (Click i l) = Some (l \<in> set bs)"
  by (simp_all add: demo_agent_def)

definition demo_dialog :: "string \<Rightarrow> window_info" where
  "demo_dialog t = \<lparr>w_id = 7, w_title = t, w_class = ''dialog'', w_bounds = None, w_visible = True\<rparr>"

lemma demo_click:
  "Click 7 ''Transmit'' \<in> set (ui_log (dispatch_windows (demo_env [(''BYPASS_WARNING'', ''yes'')])
     (demo_agent [''Transmit''] ''Order preview'') [demo_dialog ''Order Preview''] \<lparr>ui_log = [], ui_login_submitted = True\<rparr>))"
  by code_simp

theorem transmit_needs_policy_witness:
  "env_yes (map_of [(''BYPASS_WARNING'', ''yes'')]) ''BYPASS_WARNING''
     \<or> env_yes (map_of [(''BYPASS_WARNING'', ''yes'')]) ''BYPASS_ORDER_PRECAUTIONS''
     \<or> env_lower (map_of [(''BYPASS_WARNING'', ''yes'')]) ''CONFIRM_CRYPTO_CURRENCY_ORDERS'' = Some ''transmit''"
proof -
  have "he_policy (demo_env [(''BYPASS_WARNING'', ''yes'')]) = policy_from_env (map_of [(''BYPASS_WARNING'', ''yes'')])"
    by (simp add: demo_env_def)
  from transmit_needs_policy [OF this _ demo_click] show ?thesis by simp
qed

text \<open>
  Fall-through. When the compatibility handler finds no enabled action for a dialog whose title
  says "warning", that is, the dialog is one the operator is to decide, the registry goes on to the
  paper-trading handler, which matches every such title and presses "OK".
\<close>

theorem declined_warning_is_confirmed:
  assumes "title_has w ''warning''" and "\<not> title_has w ''configuration''" and "\<not> is_large_gateway_window w"
    and "\<not> list_ex (\<lambda>h. can_handle h u w)
          [LoginHandler, TotpEntryHandler, SessionConflictHandler, ReloginHandler, SslReconnectHandler,
           TipOfDayHandler, AcceptConnectionHandler]"
    and "ag_dump ag (ui_log u) (w_id w) = Some c"
    and "classify_dialog_with_policy (w_title w) (dialog_text_blob w c) (he_policy he) = None"
    and "ag_yes ag (ui_log u @ [DumpWindow (w_id w)]) (Click (w_id w) ''I understand and accept'') = Some False"
    and "ag_yes ag (ui_log u @ [DumpWindow (w_id w), Click (w_id w) ''I understand and accept'']) (Click (w_id w) ''OK'') = Some True"
  shows "dispatch he ag w u =
    (u\<lparr>ui_log := ui_log u @ [DumpWindow (w_id w), Click (w_id w) ''I understand and accept'', Click (w_id w) ''OK'']\<rparr>,
     Some Handled)"
proof -
  have "ibc_can w" using assms(1-3) by (simp add: ibc_can_def ibc_needles_def)
  moreover have "paper_warning_can w" using assms(1,2) by (simp add: paper_warning_can_def)
  moreover have "\<not> can_handle AcceptConnectionHandler u w" using assms(4) by simp
  ultimately show ?thesis using assms(4-8)
    by (simp add: dispatch_def with_defaults_def ibc_handle_def dump_window_def paper_warning_handle_def
      paper_warning_labels_def click_first.simps act_def handled_or_def)
qed

lemma demo_declined:
  "title_has (demo_dialog ''Order Precaution Warning'') ''warning''"
  "\<not> title_has (demo_dialog ''Order Precaution Warning'') ''configuration''"
  "\<not> is_large_gateway_window (demo_dialog ''Order Precaution Warning'')"
  "\<not> list_ex (\<lambda>h. can_handle h \<lparr>ui_log = [], ui_login_submitted = True\<rparr> (demo_dialog ''Order Precaution Warning''))
     [LoginHandler, TotpEntryHandler, SessionConflictHandler, ReloginHandler, SslReconnectHandler,
      TipOfDayHandler, AcceptConnectionHandler]"
  "classify_dialog_with_policy ''Order Precaution Warning''
     (dialog_text_blob (demo_dialog ''Order Precaution Warning'') (JStr ''Size exceeds the limit'')) (policy_from_env (map_of [])) = None"
  by code_simp+

theorem declined_warning_is_confirmed_witness:
  "dispatch (demo_env []) (demo_agent [''OK''] ''Size exceeds the limit'') (demo_dialog ''Order Precaution Warning'')
     \<lparr>ui_log = [], ui_login_submitted = True\<rparr>
   = (\<lparr>ui_log = [DumpWindow 7, Click 7 ''I understand and accept'', Click 7 ''OK''], ui_login_submitted = True\<rparr>, Some Handled)"
proof -
  let ?w = "demo_dialog ''Order Precaution Warning''" and ?u = "\<lparr>ui_log = [], ui_login_submitted = True\<rparr>"
  let ?ag = "demo_agent [''OK''] ''Size exceeds the limit''"
  have id: "w_id ?w = 7" "w_title ?w = ''Order Precaution Warning''" by (simp_all add: demo_dialog_def)
  have p: "he_policy (demo_env []) = policy_from_env (map_of [])" by (simp add: demo_env_def)
  show ?thesis
    using declined_warning_is_confirmed [OF demo_declined(1-4), where ag = ?ag and he = "demo_env []", unfolded id p]
      demo_declined(5) by simp
qed

text \<open>
  A warning that mentions both a precaution and blind trading is overridden and transmitted when
  only the precautions are bypassed, although blind trading has not been allowed.
\<close>

theorem bypass_transmits_blind_trading:
  assumes "contains_str (to_lowercase text0) ''blind trading''" and "contains_str (to_lowercase text0) ''order precaution''"
    and "\<not> dp_allow_blind_trading p" and "dp_bypass_order_precautions p"
    and "classify_dialog_with_policy title0 text0 (p\<lparr>dp_bypass_order_precautions := False\<rparr>) = None"
    and "\<not> contains_str (to_lowercase title0) ''cryptocurrency order confirmation''"
  shows "classify_dialog_with_policy title0 text0 p =
    Some (''ApiPrecautionWarningDialog'', [''Override and Transmit'', ''Transmit'', ''Yes'', ''OK''])"
  using assms unfolding classify_dialog_with_policy_def Let_def
  by (simp split: if_split_asm) blast

lemma demo_blind:
  "contains_str (to_lowercase ''Order Precaution: blind trading'') ''blind trading''"
  "contains_str (to_lowercase ''Order Precaution: blind trading'') ''order precaution''"
  "\<not> dp_allow_blind_trading (policy_from_env (map_of [(''BYPASS_WARNING'', ''yes'')]))"
  "dp_bypass_order_precautions (policy_from_env (map_of [(''BYPASS_WARNING'', ''yes'')]))"
  "classify_dialog_with_policy ''Order Preview'' ''Order Precaution: blind trading''
     ((policy_from_env (map_of [(''BYPASS_WARNING'', ''yes'')]))\<lparr>dp_bypass_order_precautions := False\<rparr>) = None"
  "\<not> contains_str (to_lowercase ''Order Preview'') ''cryptocurrency order confirmation''"
  by code_simp+

theorem bypass_transmits_blind_trading_witness:
  "classify_dialog_with_policy ''Order Preview'' ''Order Precaution: blind trading''
     (policy_from_env (map_of [(''BYPASS_WARNING'', ''yes'')])) =
   Some (''ApiPrecautionWarningDialog'', [''Override and Transmit'', ''Transmit'', ''Yes'', ''OK''])"
  by (rule bypass_transmits_blind_trading [OF demo_blind])

text \<open>
  A click the agent could not place counts as dismissed: when the agent answers that there is no
  "OK" button, the version notice is reported as handled and no other button is tried.
\<close>

lemma version_notice_missing_button:
  "ag_yes ag (ui_log u) (Click (w_id w) ''OK'') = Some False \<Longrightarrow>
   version_handle ag w u = (u\<lparr>ui_log := ui_log u @ [Click (w_id w) ''OK'']\<rparr>, Handled)"
  by (simp add: version_handle_def click_any.simps act_def)


end
