(* ===== verification/Totp.thy ===== *)
theory Totp
  imports Ibctl_Prelude
begin

text \<open>
  One-time passwords (\<open>totp.rs\<close>) and the clock they are made from (\<open>time_sync.rs\<close>): the
  base32 decoder, SHA-1 and HMAC-SHA1 on machine words, the code generator of the built-in
  provider, the guard around the edge of a 30-second window, and the bounded median of the NTP
  samples. The lemmas give the decoder's arithmetic meaning, the lengths that make every index
  of the generator valid, and the validity of a generated code under clock error. The
  \<open>oathtool\<close> provider is another program: its answers are arguments. The exchange with an NTP
  server is an argument here and is modelled in \<open>Clock_Sampling\<close>.
\<close>

unbundle bit_operations_syntax

type_synonym u8 = "8 word"
type_synonym u32 = "32 word"
type_synonym u64 = "64 word"

datatype totp_error = ExecutionFailed string | OathtoolFailed string | InvalidSecret string

section \<open>Base32\<close>

text \<open>The running state of the decoder.\<close>

record base32_state =
  b32_bits :: u32
  b32_count :: nat
  b32_out :: "u8 list"
  b32_padding :: bool

definition is_ascii_whitespace :: "char \<Rightarrow> bool" where
  "is_ascii_whitespace c \<longleftrightarrow> of_char c \<in> {9, 10, 12, 13, 32 :: nat}"

definition base32_value :: "char \<Rightarrow> nat option" where
  "base32_value c =
     (let n = of_char (to_upper_char c) :: nat in
      if 65 \<le> n \<and> n \<le> 90 then Some (n - 65)
      else if 50 \<le> n \<and> n \<le> 55 then Some (n - 50 + 26)
      else None)"

text \<open>The inner loop: full bytes move from the accumulator to the output.\<close>

function (sequential) push_bytes :: "u32 \<Rightarrow> nat \<Rightarrow> u8 list \<Rightarrow> u32 \<times> nat \<times> u8 list" where
  "push_bytes bits n out =
     (if n \<ge> 8
      then push_bytes (bits AND (push_bit (n - 8) 1 - 1)) (n - 8)
             (out @ [ucast (drop_bit (n - 8) bits AND 0xff)])
      else (bits, n, out))"
  by pat_completeness auto
termination
  by (relation "measure (\<lambda>(bits, n, out). n)") auto

declare push_bytes.simps [simp del]

definition decode_char :: "char \<Rightarrow> base32_state \<Rightarrow> totp_error + base32_state" where
  "decode_char c st =
     (if is_ascii_whitespace c \<or> c = CHR ''-'' then Inr st
      else if c = CHR ''='' then Inr (st\<lparr>b32_padding := True\<rparr>)
      else if b32_padding st then Inl (InvalidSecret ''non-padding data found after base32 padding'')
      else (case base32_value c of
              None \<Rightarrow> Inl (InvalidSecret (''unexpected character '' @ [CHR 0x27, c, CHR 0x27]))
            | Some v \<Rightarrow>
                (case push_bytes (push_bit 5 (b32_bits st) OR of_nat v) (b32_count st + 5) (b32_out st) of
                   (bits, n, out) \<Rightarrow> Inr (st\<lparr>b32_bits := bits, b32_count := n, b32_out := out\<rparr>))))"

fun decode_chars :: "string \<Rightarrow> base32_state \<Rightarrow> totp_error + base32_state" where
  "decode_chars [] st = Inr st"
| "decode_chars (c # cs) st = and_then (decode_char c st) (decode_chars cs)"

definition decode_base32 :: "string \<Rightarrow> totp_error + u8 list" where
  "decode_base32 secret =
     and_then (decode_chars secret \<lparr>b32_bits = 0, b32_count = 0, b32_out = [], b32_padding = False\<rparr>)
       (\<lambda>st. if b32_out st = [] then Inl (InvalidSecret ''secret is empty'') else Inr (b32_out st))"

section \<open>SHA-1 and HMAC\<close>

definition to_be_bytes32 :: "u32 \<Rightarrow> u8 list" where
  "to_be_bytes32 w = map (\<lambda>i. ucast (drop_bit (8 * i) w)) [3, 2, 1, 0]"

definition to_be_bytes64 :: "u64 \<Rightarrow> u8 list" where
  "to_be_bytes64 w = map (\<lambda>i. ucast (drop_bit (8 * i) w)) [7, 6, 5, 4, 3, 2, 1, 0]"

definition from_be_bytes32 :: "u8 \<Rightarrow> u8 \<Rightarrow> u8 \<Rightarrow> u8 \<Rightarrow> u32" where
  "from_be_bytes32 a b c d =
     push_bit 24 (ucast a) OR push_bit 16 (ucast b) OR push_bit 8 (ucast c) OR ucast d"

text \<open>The padding loop, which appends zero bytes until the length is right.\<close>

definition zeros_missing :: "nat \<Rightarrow> nat" where
  "zeros_missing n = (if n mod 64 \<le> 56 then 56 - n mod 64 else 120 - n mod 64)"

lemma zeros_missing_Suc: "n mod 64 \<noteq> 56 \<Longrightarrow> zeros_missing n = Suc (zeros_missing (Suc n))"
  by (auto simp: zeros_missing_def mod_Suc)

function (sequential) pad_zeros :: "u8 list \<Rightarrow> u8 list" where
  "pad_zeros msg = (if length msg mod 64 \<noteq> 56 then pad_zeros (msg @ [0]) else msg)"
  by pat_completeness auto
termination
  by (relation "measure (\<lambda>msg. zeros_missing (length msg))") (auto simp: zeros_missing_Suc)

declare pad_zeros.simps [simp del]

definition sha1_message :: "u8 list \<Rightarrow> u8 list" where
  "sha1_message input = pad_zeros (input @ [0x80]) @ to_be_bytes64 (of_nat (length input) * 8)"

text \<open>The first sixteen words of the schedule, and the extension to eighty.\<close>

fun read_words :: "u8 list \<Rightarrow> u32 list" where
  "read_words (a # b # c # d # bs) = from_be_bytes32 a b c d # read_words bs"
| "read_words _ = []"

fun extend_schedule :: "nat \<Rightarrow> u32 list \<Rightarrow> u32 list" where
  "extend_schedule 0 w = w"
| "extend_schedule (Suc n) w =
     (let i = length w in
      extend_schedule n
        (w @ [word_rotl 1 (w ! (i - 3) XOR w ! (i - 8) XOR w ! (i - 14) XOR w ! (i - 16))]))"

definition schedule :: "u8 list \<Rightarrow> u32 list" where
  "schedule chunk = extend_schedule 64 (read_words chunk)"

type_synonym sha1_state = "u32 \<times> u32 \<times> u32 \<times> u32 \<times> u32"

definition sha1_fk :: "nat \<Rightarrow> u32 \<Rightarrow> u32 \<Rightarrow> u32 \<Rightarrow> u32 \<times> u32" where
  "sha1_fk i b c d =
     (if i \<le> 19 then ((b AND c) OR (NOT b AND d), 0x5a827999)
      else if i \<le> 39 then (b XOR c XOR d, 0x6ed9eba1)
      else if i \<le> 59 then ((b AND c) OR (b AND d) OR (c AND d), 0x8f1bbcdc)
      else (b XOR c XOR d, 0xca62c1d6))"

definition sha1_round :: "nat \<times> u32 \<Rightarrow> sha1_state \<Rightarrow> sha1_state" where
  "sha1_round iw s =
     (case s of (a, b, c, d, e) \<Rightarrow>
        case sha1_fk (fst iw) b c d of (f, k) \<Rightarrow>
          (word_rotl 5 a + f + e + k + snd iw, a, word_rotl 30 b, c, d))"

definition sha1_chunk :: "u8 list \<Rightarrow> sha1_state \<Rightarrow> sha1_state" where
  "sha1_chunk chunk h =
     (case (h, fold sha1_round (enumerate 0 (schedule chunk)) h) of
        ((h0, h1, h2, h3, h4), (a, b, c, d, e)) \<Rightarrow> (h0 + a, h1 + b, h2 + c, h3 + d, h4 + e))"

function (sequential) chunks_exact :: "u8 list \<Rightarrow> u8 list list" where
  "chunks_exact msg = (if length msg < 64 then [] else take 64 msg # chunks_exact (drop 64 msg))"
  by pat_completeness auto
termination
  by (relation "measure length") auto

declare chunks_exact.simps [simp del]

definition sha1_init :: sha1_state where
  "sha1_init = (0x67452301, 0xefcdab89, 0x98badcfe, 0x10325476, 0xc3d2e1f0)"

definition sha1 :: "u8 list \<Rightarrow> u8 list" where
  "sha1 input =
     (case fold sha1_chunk (chunks_exact (sha1_message input)) sha1_init of
        (h0, h1, h2, h3, h4) \<Rightarrow> concat (map to_be_bytes32 [h0, h1, h2, h3, h4]))"

definition key_block :: "u8 list \<Rightarrow> u8 list" where
  "key_block key =
     (let k = if length key > 64 then sha1 key else key in k @ replicate (64 - length k) 0)"

definition hmac_sha1 :: "u8 list \<Rightarrow> u8 list \<Rightarrow> u8 list" where
  "hmac_sha1 key message =
     (let outer_pad = map (\<lambda>k. 0x5c XOR k) (key_block key);
          inner_pad = map (\<lambda>k. 0x36 XOR k) (key_block key)
      in sha1 (outer_pad @ sha1 (inner_pad @ message)))"

section \<open>Code generation\<close>

definition pad_width :: "nat \<Rightarrow> nat \<Rightarrow> string" where
  "pad_width width n = replicate (width - length (show_nat n)) (CHR ''0'') @ show_nat n"

text \<open>Indexing an array panics out of range.\<close>

definition index_byte :: "u8 list \<Rightarrow> nat \<Rightarrow> u8 rust" where
  "index_byte bs i = (if i < length bs then Inr (bs ! i) else Inl IndexOutOfBounds)"

definition truncate_digest :: "u8 list \<Rightarrow> u32 rust" where
  "truncate_digest digest =
     and_then (index_byte digest 19) (\<lambda>last.
       let offset = unat (last AND 0x0f) in
       and_then (index_byte digest offset) (\<lambda>b0.
       and_then (index_byte digest (offset + 1)) (\<lambda>b1.
       and_then (index_byte digest (offset + 2)) (\<lambda>b2.
       and_then (index_byte digest (offset + 3)) (\<lambda>b3.
         Inr (push_bit 24 (ucast b0 AND 0x7f) OR push_bit 16 (ucast b1) OR push_bit 8 (ucast b2) OR ucast b3))))))"

definition generate_totp_at :: "string \<Rightarrow> u64 \<Rightarrow> u64 \<Rightarrow> nat \<Rightarrow> (totp_error + string) rust" where
  "generate_totp_at secret timestamp step_seconds digits =
     (if step_seconds = 0 then Inr (Inl (InvalidSecret ''TOTP time step must be greater than zero''))
      else if \<not> (6 \<le> digits \<and> digits \<le> 8)
      then Inr (Inl (InvalidSecret ''TOTP digit count must be between 6 and 8''))
      else (case decode_base32 secret of
              Inl e \<Rightarrow> Inr (Inl e)
            | Inr key \<Rightarrow>
                and_then (truncate_digest (hmac_sha1 key (to_be_bytes64 (timestamp div step_seconds))))
                  (\<lambda>binary. Inr (Inr (pad_width digits (unat (binary mod 10 ^ digits)))))))"

text \<open>The guard around the edge of a window: seconds to sleep before generating.\<close>

definition safe_window_wait :: "u64 \<Rightarrow> nat" where
  "safe_window_wait now =
     (let position = unat (now mod 30) in
      if position \<ge> 27 then 32 - position else if position < 2 then 2 - position else 0)"

text \<open>
  A provider generates with the built-in routine, or runs \<open>oathtool\<close> (an argument). The code the
  second-factor handler types: none when the secret is not set, when the clock cannot be read or
  when the provider fails.
\<close>

datatype totp_provider = Oathtool | Builtin

definition generate_at ::
  "totp_provider \<Rightarrow> (string \<Rightarrow> u64 \<Rightarrow> totp_error + string) \<Rightarrow> string \<Rightarrow> u64 \<Rightarrow> (totp_error + string) rust" where
  "generate_at provider oathtool secret timestamp =
     (case provider of
        Oathtool \<Rightarrow> Inr (oathtool secret timestamp)
      | Builtin \<Rightarrow> generate_totp_at secret timestamp 30 6)"

definition handler_code ::
  "totp_provider \<Rightarrow> (string \<Rightarrow> u64 \<Rightarrow> totp_error + string) \<Rightarrow> string option \<Rightarrow> u64 option \<Rightarrow> string option" where
  "handler_code provider oathtool secret corrected =
     (case (secret, corrected) of
        (Some s, Some t) \<Rightarrow> (case generate_at provider oathtool s t of Inr (Inr code) \<Rightarrow> Some code | _ \<Rightarrow> None)
      | _ \<Rightarrow> None)"

section \<open>The clock\<close>

definition max_accepted_offset_ms :: int where "max_accepted_offset_ms = 120000"

record time_sync =
  ts_offset_ms :: int
  ts_last_verified :: int

definition corrected_unix_seconds :: "time_sync \<Rightarrow> int \<Rightarrow> u64" where
  "corrected_unix_seconds ts local_ms = of_int (max (local_ms + ts_offset_ms ts) 0) div 1000"

text \<open>The NTP exchange with a server is an argument: an offset, or no answer.\<close>

definition verify_servers :: "(string \<Rightarrow> int option) \<Rightarrow> string list \<Rightarrow> (int \<times> nat) option" where
  "verify_servers sample_ntp servers =
     (let offsets = sort (filter (\<lambda>x. \<bar>x\<bar> \<le> max_accepted_offset_ms) (List.map_filter sample_ntp servers)) in
      if offsets = [] then None else Some (offsets ! (length offsets div 2), length offsets))"

definition default_servers :: "string list" where
  "default_servers = [''time.cloudflare.com:123'', ''time.google.com:123'', ''pool.ntp.org:123'']"

definition ntp_servers :: "string option \<Rightarrow> string list" where
  "ntp_servers var =
     (case var of
        None \<Rightarrow> default_servers
      | Some v \<Rightarrow>
          let items = filter (\<lambda>s. s \<noteq> []) (map trim (split_on (CHR '','') v)) in
          if items = [] then default_servers else items)"

text \<open>One verification; without a usable sample the earlier offset is retained.\<close>

definition verify_now :: "string option \<Rightarrow> (string \<Rightarrow> int option) \<Rightarrow> int \<Rightarrow> time_sync \<Rightarrow> time_sync" where
  "verify_now var sample_ntp now_secs ts =
     (case verify_servers sample_ntp (ntp_servers var) of
        None \<Rightarrow> ts
      | Some (x, n) \<Rightarrow> ts\<lparr>ts_offset_ms := x, ts_last_verified := now_secs\<rparr>)"

section \<open>Reading a number in base 32 and base 256\<close>

definition base_val :: "nat \<Rightarrow> nat list \<Rightarrow> nat" where
  "base_val b = foldl (\<lambda>n x. n * b + x) 0"

lemma base_val_simps [simp]: "base_val b [] = 0" "base_val b (xs @ [x]) = base_val b xs * b + x"
  by (simp_all add: base_val_def)

lemma base_val_bound: "list_all (\<lambda>x. x < b) xs \<Longrightarrow> base_val b xs < b ^ length xs"
proof (induction xs rule: rev_induct)
  case (snoc x xs)
  then have "base_val b xs * b + x < Suc (base_val b xs) * b" by simp
  also have "\<dots> \<le> b ^ length xs * b" using snoc by (intro mult_le_mono1) simp
  finally show ?case by (simp add: mult.commute)
qed simp

lemma base_val_inj:
  "length xs = length ys \<Longrightarrow> list_all (\<lambda>x. x < b) xs \<Longrightarrow> list_all (\<lambda>x. x < b) ys \<Longrightarrow>
   base_val b xs = base_val b ys \<Longrightarrow> xs = ys"
proof (induction xs arbitrary: ys rule: rev_induct)
  case (snoc x xs)
  from snoc.prems(1) obtain zs z where ys: "ys = zs @ [z]" by (cases ys rule: rev_cases) auto
  have e: "base_val b xs * b + x = base_val b zs * b + z" and "x < b" "z < b"
    using snoc.prems ys by auto
  have "x = (base_val b xs * b + x) mod b" using \<open>x < b\<close> by simp
  also have "\<dots> = z" unfolding e using \<open>z < b\<close> by simp
  finally have "x = z" .
  then show ?case using snoc e \<open>x < b\<close> by (simp add: ys)
qed simp

section \<open>The decoder\<close>

lemma u8_less: "unat (w :: u8) < 256"
  by (rule less_le_trans [OF unsigned_less]) simp

lemma u32_less: "unat (w :: u32) < 4294967296"
  by (rule less_le_trans [OF unsigned_less]) simp

lemma unat_shift_or:
  assumes "unat bits < 256" and "v < 32"
  shows "unat (push_bit 5 bits OR of_nat v :: u32) = unat bits * 32 + v"
proof -
  have "take_bit 5 (of_nat v :: u32) = of_nat v"
    using assms(2) by (simp add: take_bit_of_nat take_bit_nat_eq_self)
  then have "\<not> bit (of_nat v :: u32) n" if "n \<ge> 5" for n
    using that by (metis bit_take_bit_iff not_le)
  then have "push_bit 5 bits OR of_nat v = push_bit 5 bits + (of_nat v :: u32)"
    by (intro disjunctive_add [symmetric]) (auto simp: bit_push_bit_iff not_le)
  also have "\<dots> = of_nat (unat bits * 32 + v)" by (simp add: push_bit_eq_mult)
  finally have "unat (push_bit 5 bits OR of_nat v :: u32) = (unat bits * 32 + v) mod 2 ^ 32"
    using unat_of_nat [where 'a = 32, of "unat bits * 32 + v"] by simp
  then show ?thesis using assms by simp
qed

lemma push_bytes_value:
  assumes "unat b < 2 ^ n" and "n < 13"
  shows "push_bytes b n out =
    (if n < 8 then (b, n, out)
     else (of_nat (unat b mod 2 ^ (n - 8)), n - 8, out @ [of_nat (unat b div 2 ^ (n - 8))]))"
proof (cases "n < 8")
  case False
  let ?k = "n - 8"
  have "b AND (push_bit ?k 1 - 1) = take_bit ?k b"
    by (simp add: take_bit_eq_mask mask_eq_exp_minus_1)
  also have "\<dots> = of_nat (unat b mod 2 ^ ?k)"
  proof (rule word_unat_eq_iff [THEN iffD2])
    have "unat b mod 2 ^ ?k < 2 ^ 32" by (rule le_less_trans [OF mod_less_eq_dividend]) (use u32_less [of b] in simp)
    then have "unat (of_nat (unat b mod 2 ^ ?k) :: u32) = unat b mod 2 ^ ?k"
      by (subst unat_of_nat) simp
    then show "unat (take_bit ?k b) = unat (of_nat (unat b mod 2 ^ ?k) :: u32)"
      by (simp add: unsigned_take_bit_eq flip: take_bit_eq_mod)
  qed
  finally have rest: "b AND (push_bit ?k 1 - 1) = of_nat (unat b mod 2 ^ ?k)" .
  have "drop_bit ?k b AND 0xff = take_bit 8 (drop_bit ?k b)"
    by (simp add: take_bit_eq_mask mask_eq_exp_minus_1)
  then have "unat (ucast (drop_bit ?k b AND 0xff) :: u8) = take_bit 8 (drop_bit ?k (unat b))"
    using u32_less [of b]
    by (simp only: unsigned_ucast_eq unsigned_take_bit_eq unsigned_drop_bit_eq) (simp add: take_bit_nat_eq_self)
  also have "\<dots> = unat (of_nat (unat b div 2 ^ ?k) :: u8)"
    by (subst unat_of_nat) (simp add: take_bit_eq_mod drop_bit_eq_div)
  finally have "(ucast (drop_bit ?k b AND 0xff) :: u8) = of_nat (unat b div 2 ^ ?k)"
    by (rule word_unat_eq_iff [THEN iffD2])
  with rest False assms(2) show ?thesis
    by (subst push_bytes.simps) (simp add: push_bytes.simps)
qed (simp add: push_bytes.simps)

text \<open>
  What the decoder has read: the value of the digits so far is the output followed by the bits
  not yet written.
\<close>

definition decoded :: "nat list \<Rightarrow> base32_state \<Rightarrow> bool" where
  "decoded vs st \<longleftrightarrow>
     base_val 256 (map unat (b32_out st)) * 2 ^ b32_count st + unat (b32_bits st) = base_val 32 vs
     \<and> 8 * length (b32_out st) + b32_count st = 5 * length vs
     \<and> b32_count st < 8 \<and> unat (b32_bits st) < 2 ^ b32_count st"

lemma base32_value_lt: "base32_value c = Some v \<Longrightarrow> v < 32"
  by (auto simp: base32_value_def Let_def split: if_split_asm)

lemma base32_value_not_skipped:
  "base32_value c = Some v \<Longrightarrow> \<not> is_ascii_whitespace c \<and> c \<noteq> CHR ''-'' \<and> c \<noteq> CHR ''=''"
  by (auto simp: base32_value_def is_ascii_whitespace_def to_upper_char_def Let_def split: if_split_asm)

lemma decode_char_decoded:
  assumes "decoded vs st" and "base32_value c = Some v" and "\<not> b32_padding st"
  shows "\<exists>st'. decode_char c st = Inr st' \<and> decoded (vs @ [v]) st' \<and> \<not> b32_padding st'"
proof -
  let ?n = "b32_count st" and ?b = "unat (b32_bits st)" and ?O = "base_val 256 (map unat (b32_out st))"
  let ?w = "push_bit 5 (b32_bits st) OR of_nat v :: u32"
  have v: "v < 32" using assms(2) by (rule base32_value_lt)
  have n: "?n < 8" and b: "?b < 2 ^ ?n" and val: "?O * 2 ^ ?n + ?b = base_val 32 vs"
    and len: "8 * length (b32_out st) + ?n = 5 * length vs"
    using assms(1) by (auto simp: decoded_def)
  have "(2::nat) ^ ?n \<le> 2 ^ 7" using n by (intro power_increasing) auto
  with b have "?b < 256" by simp
  then have w: "unat ?w = ?b * 32 + v" using v by (rule unat_shift_or)
  have "?b * 32 + v < Suc ?b * 32" using v by simp
  also have "\<dots> \<le> 2 ^ ?n * 32" using b by (intro mult_le_mono1) simp
  also have "\<dots> = 2 ^ (?n + 5)" by (simp add: power_add)
  finally have w_lt: "unat ?w < 2 ^ (?n + 5)" using w by simp
  have new: "?O * 2 ^ (?n + 5) + unat ?w = base_val 32 (vs @ [v])"
    using val w by (simp add: power_add algebra_simps flip: val)
  obtain bits m out where p: "push_bytes ?w (?n + 5) (b32_out st) = (bits, m, out)"
    using prod_cases3 by blast
  have "decoded (vs @ [v]) (st\<lparr>b32_bits := bits, b32_count := m, b32_out := out\<rparr>)"
  proof (cases "?n + 5 < 8")
    case True
    then show ?thesis using p push_bytes_value [OF w_lt] n new len w_lt by (auto simp: decoded_def)
  next
    case False
    define k where "k = ?n - 3"
    have k: "?n + 5 = k + 8" "k < 5" using n False by (auto simp: k_def)
    let ?q = "unat ?w div 2 ^ k" and ?r = "unat ?w mod 2 ^ k"
    have q: "?q < 256"
      using w_lt unfolding k(1) power_add by (simp add: less_mult_imp_div_less mult.commute)
    have r: "?r < 2 ^ k" by simp
    also have "(2::nat) ^ k \<le> 2 ^ 5" using k by (intro power_increasing) auto
    finally have r32: "?r < 2 ^ 32" by simp
    have out: "out = b32_out st @ [of_nat ?q]" "m = k" "bits = of_nat ?r"
      using p push_bytes_value [OF w_lt] n False k by auto
    have ub: "unat (of_nat ?q :: u8) = ?q" using q by (subst unat_of_nat) simp
    have ur: "unat bits = ?r" unfolding out using r32 by (subst unat_of_nat) simp
    have "(?O * 256 + ?q) * 2 ^ k + ?r = ?O * (2 ^ k * 256) + (?q * 2 ^ k + ?r)"
      by (simp add: algebra_simps)
    also have "\<dots> = ?O * 2 ^ (?n + 5) + unat ?w"
      unfolding div_mult_mod_eq k(1) power_add by simp
    also have "\<dots> = base_val 32 (vs @ [v])" by (rule new)
    finally show ?thesis using len k r ub ur out by (simp add: decoded_def)
  qed
  then show ?thesis using assms base32_value_not_skipped [OF assms(2)] p
    by (auto simp: decode_char_def)
qed

lemma decode_chars_append:
  "decode_chars (a @ b) st = and_then (decode_chars a st) (decode_chars b)"
proof (induction a arbitrary: st)
  case (Cons c a)
  then show ?case by (cases "decode_char c st") simp_all
qed simp

lemma decode_chars_decoded:
  assumes "decoded vs st" and "map base32_value cs = map Some us" and "\<not> b32_padding st"
  shows "\<exists>st'. decode_chars cs st = Inr st' \<and> decoded (vs @ us) st' \<and> \<not> b32_padding st'"
  using assms
proof (induction us arbitrary: cs vs st)
  case (Cons u us)
  then obtain c ds where cs: "cs = c # ds" "base32_value c = Some u" "map base32_value ds = map Some us"
    by (cases cs) auto
  from decode_char_decoded [OF Cons.prems(1) cs(2) Cons.prems(3)] obtain st1 where
    st1: "decode_char c st = Inr st1" "decoded (vs @ [u]) st1" "\<not> b32_padding st1" by blast
  from Cons.IH [OF st1(2) cs(3) st1(3)] show ?case using cs(1) st1(1) by auto
qed simp

lemma decode_chars_padding:
  "\<exists>st'. decode_chars (replicate n (CHR ''='')) st = Inr st' \<and> b32_out st' = b32_out st"
proof (induction n arbitrary: st)
  case (Suc n)
  have "decode_char (CHR ''='') st = Inr (st\<lparr>b32_padding := True\<rparr>)"
    by (simp add: decode_char_def is_ascii_whitespace_def)
  then show ?case using Suc [of "st\<lparr>b32_padding := True\<rparr>"] by simp
qed simp

definition significant :: "string \<Rightarrow> string" where
  "significant s = filter (\<lambda>c. \<not> is_ascii_whitespace c \<and> c \<noteq> CHR ''-'') s"

lemma decode_chars_significant: "decode_chars (significant s) st = decode_chars s st"
proof (induction s arbitrary: st)
  case (Cons c s)
  show ?case
  proof (cases "is_ascii_whitespace c \<or> c = CHR ''-''")
    case True
    then have "decode_char c st = Inr st" by (simp add: decode_char_def)
    with True Cons show ?thesis by (auto simp: significant_def)
  next
    case False
    then have "significant (c # s) = c # significant s" by (simp add: significant_def)
    then show ?thesis using Cons by (cases "decode_char c st") simp_all
  qed
qed (simp add: significant_def)

section \<open>The encoder as the decoder's specification\<close>

fun base32_digits :: "nat \<Rightarrow> nat \<Rightarrow> nat list" where
  "base32_digits 0 x = []"
| "base32_digits (Suc m) x = base32_digits m (x div 32) @ [x mod 32]"

definition base32_char :: "nat \<Rightarrow> char" where
  "base32_char v = char_of (if v < 26 then 65 + v else 24 + v)"

text \<open>RFC 4648 base32 without the final padding characters.\<close>

definition encode_base32 :: "u8 list \<Rightarrow> string" where
  "encode_base32 bs =
     (let n = 8 * length bs; m = (n + 4) div 5
      in map base32_char (base32_digits m (base_val 256 (map unat bs) * 2 ^ (5 * m - n))))"

lemma base32_digits_numeral [simp]:
  "base32_digits (numeral k) x = base32_digits (pred_numeral k) (x div 32) @ [x mod 32]"
  using base32_digits.simps(2) [of "pred_numeral k" x] by (simp only: numeral_eq_Suc [of k, symmetric])

lemma base32_digits_lt: "list_all (\<lambda>v. v < 32) (base32_digits m x)"
  by (induction m arbitrary: x) auto

lemma base32_digits_length [simp]: "length (base32_digits m x) = m"
  by (induction m arbitrary: x) auto

lemma base32_digits_val: "x < 32 ^ m \<Longrightarrow> base_val 32 (base32_digits m x) = x"
proof (induction m arbitrary: x)
  case (Suc m)
  then have "x div 32 < 32 ^ m" by (simp add: less_mult_imp_div_less mult.commute)
  with Suc.IH show ?case by simp
qed simp

lemma base32_value_char:
  assumes "v < 32"
  shows "to_upper_char c = base32_char v \<Longrightarrow> base32_value c = Some v"
proof -
  have "of_char (base32_char v) = (if v < 26 then 65 + v else 24 + v)"
    using assms by (simp add: base32_char_def)
  then show "to_upper_char c = base32_char v \<Longrightarrow> base32_value c = Some v"
    using assms by (auto simp: base32_value_def Let_def)
qed

lemma to_upper_padding:
  assumes "to_upper_char c = CHR ''=''"
  shows "c = CHR ''=''"
proof (rule ccontr)
  assume "c \<noteq> CHR ''=''"
  with assms have *: "97 \<le> (of_char c :: nat)" "of_char c \<le> (122 :: nat)" "char_of (of_char c - 32 :: nat) = CHR ''=''"
    by (auto simp: to_upper_char_def Let_def split: if_split_asm)
  have "(of_char (char_of (of_char c - 32 :: nat)) :: nat) = of_char (CHR ''='')" by (simp only: *(3))
  then have "(of_char c - 32) mod 256 = (61 :: nat)" by (simp only: of_char_of) simp
  with *(1,2) show False by simp
qed

lemma upper_values:
  "list_all (\<lambda>v. v < 32) vs \<Longrightarrow> map to_upper_char cs = map base32_char vs \<Longrightarrow> map base32_value cs = map Some vs"
proof (induction vs arbitrary: cs)
  case (Cons v vs)
  then obtain c ds where "cs = c # ds" by (cases cs) auto
  with Cons show ?case by (simp add: base32_value_char)
qed simp

lemma bytes_val_bound: "base_val 256 (map unat (bs :: u8 list)) < 256 ^ length bs"
proof -
  have "list_all (\<lambda>x. x < 256) (map unat bs)"
    by (auto simp: list_all_iff u8_less)
  from base_val_bound [OF this] show ?thesis by simp
qed

lemma bytes_val_inj:
  assumes "length as = length bs" and "base_val 256 (map unat as) = base_val 256 (map unat (bs :: u8 list))"
  shows "as = bs"
proof -
  have lt: "list_all (\<lambda>x. x < 256) (map unat cs)" for cs :: "u8 list"
    by (auto simp: list_all_iff u8_less)
  have "map unat as = map unat bs" using assms by (intro base_val_inj [OF _ lt lt]) simp_all
  then show ?thesis by (rule map_injective) (simp add: inj_on_def word_unat_eq_iff)
qed

text \<open>A state that has read the digits of an encoded message holds the message.\<close>

lemma decoded_message:
  fixes bs :: "u8 list"
  defines "n \<equiv> 8 * length bs"
  defines "m \<equiv> (n + 4) div 5"
  assumes "decoded (base32_digits m (base_val 256 (map unat bs) * 2 ^ (5 * m - n))) st"
  shows "b32_out st = bs"
proof -
  let ?V = "base_val 256 (map unat bs)" and ?O = "base_val 256 (map unat (b32_out st))"
  define e where "e = 5 * m - n"
  have m: "5 * m = n + e" "e < 5" unfolding e_def m_def by auto
  have "?V < 2 ^ n" using bytes_val_bound [of bs] by (simp add: n_def power_mult)
  then have "?V * 2 ^ e < 2 ^ n * 2 ^ e" by simp
  also have "\<dots> = 32 ^ m" unfolding power_add [symmetric] m(1) [symmetric] by (simp add: power_mult)
  finally have val: "?O * 2 ^ b32_count st + unat (b32_bits st) = ?V * 2 ^ e"
    using assms base32_digits_val unfolding decoded_def e_def by auto
  have len: "8 * length (b32_out st) + b32_count st = 8 * length bs + e" and "b32_count st < 8"
    and r: "unat (b32_bits st) < 2 ^ b32_count st"
    using assms m by (auto simp: decoded_def n_def)
  then have l: "length (b32_out st) = length bs" and c: "b32_count st = e" using m(2) by presburger+
  have "?O = (?O * 2 ^ e + unat (b32_bits st)) div 2 ^ e" using r c by simp
  also have "\<dots> = ?V" using val c by simp
  finally show ?thesis using l by (intro bytes_val_inj) simp_all
qed

section \<open>Properties of the decoder\<close>

text \<open>
  Round trip of the secret: whatever spacing, hyphens, letter case and trailing padding the secret
  is written with, decoding the base32 form of a non-empty key gives back exactly that key. The
  32-bit accumulator never loses a bit.
\<close>

theorem base32_roundtrip:
  assumes "bs \<noteq> []"
    and "map to_upper_char (significant s) = encode_base32 bs @ replicate k (CHR ''='')"
  shows "decode_base32 s = Inr bs"
proof -
  let ?n = "8 * length bs" let ?m = "(?n + 4) div 5"
  let ?ds = "base32_digits ?m (base_val 256 (map unat bs) * 2 ^ (5 * ?m - ?n))"
  let ?st = "\<lparr>b32_bits = 0, b32_count = 0, b32_out = [], b32_padding = False\<rparr>"
  from assms(2) obtain a p where s: "significant s = a @ p" "map to_upper_char a = map base32_char ?ds"
      "map to_upper_char p = replicate k (CHR ''='')"
    unfolding encode_base32_def Let_def by (auto simp: map_eq_append_conv)
  have p: "p = replicate k (CHR ''='')"
  proof (rule replicate_eqI)
    show "length p = k" using arg_cong [OF s(3), of length] by simp
    show "c = CHR ''=''" if "c \<in> set p" for c
      using that s(3) by (metis imageI in_set_replicate list.set_map to_upper_padding)
  qed
  have "decoded [] ?st" by (simp add: decoded_def)
  from decode_chars_decoded [OF this upper_values [OF base32_digits_lt s(2)]] obtain st1 where
    st1: "decode_chars a ?st = Inr st1" "decoded ?ds st1" by auto
  from decode_chars_padding [of k st1] p obtain st2 where
    st2: "decode_chars p st1 = Inr st2" "b32_out st2 = b32_out st1" by auto
  have "decode_chars s ?st = Inr st2"
    unfolding decode_chars_significant [of s, symmetric] s(1) decode_chars_append st1(1) using st2 by simp
  moreover have "b32_out st2 = bs" using decoded_message [OF st1(2)] st2(2) by simp
  ultimately show ?thesis using assms(1) by (simp add: decode_base32_def)
qed

lemma demo_encoding: "encode_base32 [0x48, 0x65] = ''JBSQ''"
  by (simp add: encode_base32_def base_val_def base32_char_def char_of_def bit_0)

theorem base32_roundtrip_witness: "decode_base32 ''jb-s q===='' = Inr [0x48, 0x65]"
proof (rule base32_roundtrip [where k = 4])
  show "map to_upper_char (significant ''jb-s q===='') = encode_base32 [0x48, 0x65] @ replicate 4 (CHR ''='')"
    unfolding demo_encoding by code_simp
qed simp

section \<open>Digests\<close>

text \<open>
  The contract HMAC relies on: a hash with digests of a fixed length that is shorter than a
  block. A key of any length then fills exactly one block.
\<close>

locale fixed_hash =
  fixes H :: "u8 list \<Rightarrow> u8 list"
    and block digest :: nat
  assumes digest_length: "length (H msg) = digest"
    and digest_fits: "digest \<le> block"
begin

lemma block_filled:
  "length (let k = if length key > block then H key else key in k @ replicate (block - length k) 0) = block"
  using digest_length digest_fits by (simp add: Let_def)

lemma outer_length: "length (H (outer @ H (inner @ msg))) = digest"
  by (rule digest_length)

end

interpretation sha1_hash: fixed_hash sha1 64 20
  by unfold_locales (auto simp: sha1_def to_be_bytes32_def split: prod.split)

lemma key_block_length: "length (key_block key) = 64"
  unfolding key_block_def by (rule sha1_hash.block_filled)

lemma hmac_length: "length (hmac_sha1 key msg) = 20"
  unfolding hmac_sha1_def Let_def by (rule sha1_hash.outer_length)

lemma pad_zeros_eq: "pad_zeros msg = msg @ replicate (zeros_missing (length msg)) 0"
proof (induction msg rule: pad_zeros.induct)
  case (1 msg)
  show ?case
  proof (cases "length msg mod 64 = 56")
    case True
    then show ?thesis by (subst pad_zeros.simps) (simp add: zeros_missing_def)
  next
    case False
    then show ?thesis using 1 zeros_missing_Suc [OF False] by (subst pad_zeros.simps) simp
  qed
qed

lemma zeros_missing_lt: "zeros_missing n < 64"
  by (auto simp: zeros_missing_def)

lemma zeros_missing_mod: "(n + zeros_missing n) mod 64 = 56"
proof (cases "n mod 64 \<le> 56")
  case True
  then show ?thesis unfolding zeros_missing_def by (subst mod_add_left_eq [symmetric]) simp
next
  case False
  then have "n mod 64 + (120 - n mod 64) = 120" by simp
  then show ?thesis using False unfolding zeros_missing_def by (subst mod_add_left_eq [symmetric]) simp
qed

text \<open>
  C33. The padding loop of SHA-1 ends after fewer than 64 iterations for every input: it has
  appended exactly the zero bytes that bring the marked message to 56 modulo 64, and with the
  length field the message is a whole number of blocks, one or two more than the input fills.
\<close>

theorem sha1_padding_terminates:
  "\<exists>n < 64. pad_zeros (input @ [0x80]) = input @ 0x80 # replicate n 0
     \<and> length (sha1_message input) mod 64 = 0
     \<and> length (sha1_message input) = 64 * ((length input + 8) div 64 + 1)"
proof -
  let ?n = "zeros_missing (Suc (length input))"
  have p: "pad_zeros (input @ [0x80]) = input @ 0x80 # replicate ?n 0" by (simp add: pad_zeros_eq)
  have l: "length (sha1_message input) = Suc (length input) + ?n + 8"
    by (simp add: sha1_message_def p to_be_bytes64_def)
  have m: "(Suc (length input) + ?n) mod 64 = 56" by (rule zeros_missing_mod)
  have "length (sha1_message input) mod 64 = ((Suc (length input) + ?n) mod 64 + 8) mod 64"
    unfolding l by (simp add: mod_add_left_eq)
  then have z: "length (sha1_message input) mod 64 = 0" using m by simp
  then obtain q where q: "length (sha1_message input) = 64 * q" by auto
  then have "64 * q = length input + 9 + ?n" using l by simp
  then have "(length input + 8) div 64 = q - 1"
    using zeros_missing_lt [of "Suc (length input)"] by (intro div_nat_eqI) auto
  moreover have "q \<noteq> 0" using q l by auto
  ultimately show ?thesis using p q z zeros_missing_lt [of "Suc (length input)"] by auto
qed

section \<open>Codes\<close>

lemma low_nibble: "unat (b AND 0x0f :: u8) < 16"
proof -
  have "b AND 0x0f = take_bit 4 b" by (simp add: take_bit_eq_mask mask_eq_exp_minus_1)
  then have "unat (b AND 0x0f) = take_bit 4 (unat b)" by (simp only: unsigned_take_bit_eq)
  then show ?thesis using take_bit_nat_less_exp [of 4 "unat b"] by simp
qed

lemma truncate_digest_ok:
  assumes "length digest = 20"
  shows "\<exists>b. truncate_digest digest = Inr b"
  using assms low_nibble [of "digest ! 19"] by (simp add: truncate_digest_def index_byte_def Let_def)

lemma show_nat_length: "n < 10 ^ d \<Longrightarrow> d > 0 \<Longrightarrow> length (show_nat n) \<le> d"
proof (induction n arbitrary: d rule: show_nat.induct)
  case (1 n)
  show ?case
  proof (cases "n < 10")
    case False
    then obtain e where d: "d = Suc e" "e > 0" using 1(2,3) by (cases d; cases "d - 1") auto
    then have "n div 10 < 10 ^ e" using 1(2) by (simp add: less_mult_imp_div_less mult.commute)
    with 1(1) [OF False this d(2)] False d show ?thesis by (subst show_nat.simps) simp
  qed (use 1(3) in \<open>subst show_nat.simps, simp\<close>)
qed

lemma pad_width_digits: "n < 10 ^ d \<Longrightarrow> d > 0 \<Longrightarrow> length (pad_width d n) = d \<and> list_all is_digit (pad_width d n)"
  using show_nat_length [of n d] show_nat_digits [of n]
  by (auto simp: pad_width_def list_all_iff is_digit_def)

lemma code_number_bound:
  assumes "6 \<le> d" and "d \<le> 8"
  shows "unat (b mod 10 ^ d :: u32) < 10 ^ d"
proof -
  have d: "d = 6 \<or> d = 7 \<or> d = 8" using assms by auto
  then have p: "unat (10 ^ d :: u32) = 10 ^ d" by auto
  have "unat (b mod 10 ^ d) = unat b mod 10 ^ d" by (simp only: unat_mod p)
  then show ?thesis by simp
qed

text \<open>
  C32. The built-in generator never panics: the dynamic offset is at most 15 and the digest has 20
  bytes, so every index is in range. With a positive step, six to eight digits and a decodable
  secret it returns a code of exactly that many decimal digits; the three error cases are the
  only others.
\<close>

theorem totp_code_shape:
  "\<exists>r. generate_totp_at secret timestamp step_seconds digits = Inr r \<and>
     (case r of
        Inl e \<Rightarrow> step_seconds = 0 \<or> digits < 6 \<or> digits > 8 \<or> decode_base32 secret = Inl e
      | Inr code \<Rightarrow> step_seconds \<noteq> 0 \<and> length code = digits \<and> digits \<in> {6, 7, 8} \<and> list_all is_digit code
          \<and> (\<exists>key. decode_base32 secret = Inr key))"
proof (cases "step_seconds = 0 \<or> digits < 6 \<or> digits > 8")
  case True
  then show ?thesis by (auto simp: generate_totp_at_def)
next
  case False
  then have d: "digits \<in> {6, 7, 8}" "6 \<le> digits" "digits \<le> 8" "0 < digits" by auto
  show ?thesis
  proof (cases "decode_base32 secret")
    case (Inl e)
    then show ?thesis using False d by (simp add: generate_totp_at_def)
  next
    case (Inr key)
    obtain b where "truncate_digest (hmac_sha1 key (to_be_bytes64 (timestamp div step_seconds))) = Inr b"
      using truncate_digest_ok [OF hmac_length] by blast
    then show ?thesis
      using False d Inr pad_width_digits [OF code_number_bound [OF d(2,3)] d(4)]
      by (simp add: generate_totp_at_def)
  qed
qed

lemma builtin_code_digits:
  assumes "handler_code Builtin oathtool secret corrected = Some code"
  shows "length code = 6 \<and> list_all is_digit code"
proof -
  obtain s t where *: "generate_totp_at s t 30 6 = Inr (Inr code)"
    using assms by (auto simp: handler_code_def generate_at_def split: option.split_asm sum.split_asm)
  then obtain key where "decode_base32 s = Inr key" by (auto simp: generate_totp_at_def split: sum.split_asm)
  with * obtain b :: u32 where "code = pad_width 6 (unat (b mod 10 ^ 6))"
    by (auto simp: generate_totp_at_def and_then_Inr_iff)
  then show ?thesis using pad_width_digits [OF code_number_bound, of 6 b] by simp
qed

section \<open>The window guard\<close>

lemma unat_mod_30: "unat (now mod 30 :: u64) = unat now mod 30"
  by (simp add: unat_mod)

lemma safe_window_position:
  "(unat now + safe_window_wait now) mod 30 \<in> {2..26}" (is ?pos)
  "safe_window_wait now \<le> 5" (is ?wait)
proof -
  define r where "r = unat now mod 30"
  have r: "r < 30" "unat now = 30 * (unat now div 30) + r" by (simp_all add: r_def)
  have w: "safe_window_wait now = (if r \<ge> 27 then 32 - r else if r < 2 then 2 - r else 0)"
    by (simp add: safe_window_wait_def unat_mod_30 r_def)
  then show ?wait using r by auto
  have "(unat now + safe_window_wait now) mod 30 = (r + safe_window_wait now) mod 30"
    unfolding r_def by (simp add: mod_add_left_eq)
  then show ?pos unfolding w using r by auto
qed

lemma same_window:
  assumes "t mod 30 \<in> {2..26}" and "t' \<le> t + 3" and "t \<le> t' + 2"
  shows "t' div 30 = (t :: nat) div 30"
proof -
  define q r where "q = t div 30" and "r = t mod 30"
  have "t = 30 * q + r" by (simp add: q_def r_def)
  with assms have "30 * q \<le> t'" "t' < 30 * Suc q" unfolding r_def [symmetric] by auto
  then show ?thesis unfolding q_def [symmetric] by (intro div_nat_eqI) auto
qed

lemma unat_div_30: "unat (t div 30 :: u64) = unat t div 30"
  by (simp add: unat_div)

text \<open>
  The guard before code generation: it sleeps at most five seconds, and the code generated
  when it ends is the code of every clock from two seconds behind to three seconds ahead, so
  that it stays valid while it is typed and under that much clock error.
\<close>

theorem guarded_code_stays_valid:
  assumes "unat now + safe_window_wait now < 2 ^ 64"
    and "t = now + of_nat (safe_window_wait now)"
    and "unat t' \<le> unat t + 3" and "unat t \<le> unat t' + 2"
  shows "safe_window_wait now \<le> 5 \<and> generate_totp_at secret t' 30 digits = generate_totp_at secret t 30 digits"
proof -
  have "of_nat (unat now + safe_window_wait now) = t" using assms(2) by simp
  then have "unat t = (unat now + safe_window_wait now) mod 2 ^ 64"
    using unat_of_nat [where 'a = 64, of "unat now + safe_window_wait now"] by simp
  then have t: "unat t = unat now + safe_window_wait now" using assms(1) by simp
  have "unat t' div 30 = unat t div 30"
    by (rule same_window [OF _ assms(3,4)]) (use safe_window_position [of now] t in simp)
  then have "t' div 30 = t div 30" by (simp add: word_unat_eq_iff unat_div_30)
  then show ?thesis unfolding generate_totp_at_def by (simp only: safe_window_position(2) simp_thms)
qed

theorem guarded_code_stays_valid_witness:
  "safe_window_wait 58 \<le> 5 \<and> generate_totp_at ''JBSWY3DP'' 65 30 6 = generate_totp_at ''JBSWY3DP'' 62 30 6"
proof -
  have w: "safe_window_wait 58 = 4" by (simp add: safe_window_wait_def)
  show ?thesis
    by (rule guarded_code_stays_valid) (simp_all add: w)
qed

section \<open>The verified clock\<close>

lemma filter_count_split:
  "length (filter P xs) = length (filter P (take k xs)) + length (filter P (drop k xs))"
  by (metis append_take_drop_id filter_append length_append)

lemma sorted_median_majority:
  fixes xs :: "int list"
  assumes "sorted xs" and "xs \<noteq> []" and "length xs < 2 * length (filter (\<lambda>y. lo \<le> y \<and> y \<le> hi) xs)"
  shows "lo \<le> xs ! (length xs div 2) \<and> xs ! (length xs div 2) \<le> hi"
proof (rule ccontr)
  let ?m = "length xs div 2" and ?P = "\<lambda>y. lo \<le> y \<and> y \<le> hi"
  have m: "?m < length xs" using assms(2) by (cases xs) auto
  assume "\<not> (lo \<le> xs ! ?m \<and> xs ! ?m \<le> hi)"
  then consider (below) "xs ! ?m < lo" | (above) "xs ! ?m > hi" by linarith
  then show False
  proof cases
    case below
    have "y < lo" if "y \<in> set (take (Suc ?m) xs)" for y
    proof -
      from that obtain i where "y = xs ! i" "i \<le> ?m" using m by (auto simp: in_set_conv_nth less_Suc_eq_le)
      then show ?thesis using sorted_nth_mono [OF assms(1) _ m] below by force
    qed
    then have "filter ?P (take (Suc ?m) xs) = []" by (force simp: filter_empty_conv)
    then have "length (filter ?P xs) \<le> length xs - Suc ?m"
      using filter_count_split [of ?P xs "Suc ?m"] length_filter_le [of ?P "drop (Suc ?m) xs"] by simp
    with assms(3) show False by linarith
  next
    case above
    have "y > hi" if "y \<in> set (drop ?m xs)" for y
    proof -
      from that obtain i where "y = xs ! (?m + i)" "?m + i < length xs" by (auto simp: in_set_conv_nth)
      then show ?thesis using sorted_nth_mono [OF assms(1), of ?m "?m + i"] above by simp
    qed
    then have "filter ?P (drop ?m xs) = []" by (force simp: filter_empty_conv)
    then have "length (filter ?P xs) \<le> ?m"
      using filter_count_split [of ?P xs ?m] length_filter_le [of ?P "take ?m xs"] by simp
    with assms(3) show False by linarith
  qed
qed

lemma verify_servers_bounded:
  assumes "verify_servers f servers = Some (x, n)"
  shows "\<bar>x\<bar> \<le> max_accepted_offset_ms"
proof -
  let ?os = "sort (filter (\<lambda>x. \<bar>x\<bar> \<le> max_accepted_offset_ms) (List.map_filter f servers))"
  have "?os \<noteq> []" "x = ?os ! (length ?os div 2)"
    using assms by (auto simp: verify_servers_def Let_def split: if_split_asm)
  then have "x \<in> set ?os" by (metis div_less_dividend length_greater_0_conv nth_mem one_less_numeral_iff semiring_norm(76))
  then show ?thesis by simp
qed

text \<open>
  The verified clock offset is robust: when more than half of the accepted NTP samples lie in an
  interval, so does the offset that is applied, whatever the other servers answer. Over any
  sequence of verifications the applied offset never exceeds two minutes either way.
\<close>

theorem clock_offset_robust:
  assumes "verify_servers sample_ntp servers = Some (x, n)"
    and "n < 2 * length (filter (\<lambda>y. lo \<le> y \<and> y \<le> hi)
            (filter (\<lambda>y. \<bar>y\<bar> \<le> max_accepted_offset_ms) (List.map_filter sample_ntp servers)))"
    and "\<bar>ts_offset_ms ts\<bar> \<le> max_accepted_offset_ms"
  shows "lo \<le> x \<and> x \<le> hi
    \<and> \<bar>ts_offset_ms (fold (\<lambda>(var, f, now). verify_now var f now) rounds ts)\<bar> \<le> max_accepted_offset_ms"
proof -
  let ?os = "filter (\<lambda>y. \<bar>y\<bar> \<le> max_accepted_offset_ms) (List.map_filter sample_ntp servers)"
  have x: "sort ?os \<noteq> []" "x = sort ?os ! (length (sort ?os) div 2)" "n = length (sort ?os)"
    using assms(1) by (auto simp: verify_servers_def Let_def split: if_split_asm)
  have "length (filter P (sort ?os)) = length (filter P ?os)" for P
    by (metis filter_sort length_sort)
  then have "lo \<le> x \<and> x \<le> hi"
    using sorted_median_majority [OF sorted_sort x(1), of lo hi] assms(2) unfolding x(2,3) by simp
  moreover have "\<bar>ts_offset_ms (verify_now var f now t)\<bar> \<le> max_accepted_offset_ms"
    if "\<bar>ts_offset_ms t\<bar> \<le> max_accepted_offset_ms" for var f now t
    using that verify_servers_bounded by (auto simp: verify_now_def split: option.split)
  then have "\<bar>ts_offset_ms (fold (\<lambda>(var, f, now). verify_now var f now) rounds ts)\<bar> \<le> max_accepted_offset_ms"
    using assms(3) by (induction rounds arbitrary: ts) auto
  ultimately show ?thesis by blast
qed

definition demo_ntp :: "string \<Rightarrow> int option" where
  "demo_ntp s = map_of [(''a'', 40), (''b'', 90000), (''c'', 55), (''d'', 400000)] s"

theorem clock_offset_robust_witness:
  "verify_servers demo_ntp [''a'', ''b'', ''c'', ''d'', ''e''] = Some (55, 3)
   \<and> (40 :: int) \<le> 55 \<and> (55 :: int) \<le> 60
   \<and> \<bar>ts_offset_ms (fold (\<lambda>(var, f, now). verify_now var f now) [(None, demo_ntp, 5), (Some ''b'', demo_ntp, 9)]
        \<lparr>ts_offset_ms = 0, ts_last_verified = 0\<rparr>)\<bar> \<le> max_accepted_offset_ms"
proof -
  have *: "List.map_filter demo_ntp [''a'', ''b'', ''c'', ''d'', ''e''] = [40, 90000, 55, 400000]"
    by (simp add: map_filter_simps demo_ntp_def)
  have v: "verify_servers demo_ntp [''a'', ''b'', ''c'', ''d'', ''e''] = Some (55, 3)"
    unfolding verify_servers_def * by (simp add: max_accepted_offset_ms_def)
  show ?thesis
    using v clock_offset_robust [OF v, of 40 60 "\<lparr>ts_offset_ms = 0, ts_last_verified = 0\<rparr>"
      "[(None, demo_ntp, 5), (Some ''b'', demo_ntp, 9)]", unfolded *]
    by (simp add: max_accepted_offset_ms_def)
qed

end
