(* ===== verification/Config_Loading.thy ===== *)
theory Config_Loading
  imports Startup Dialog_Handlers Totp
begin

text \<open>
  Configuration (\<open>config.rs\<close>): the sections with their defaults, the environment overrides with
  Docker secret files, validation, and \<open>Config::load\<close> with its three layers. The TOML parser is
  a parameter, and so are the environment and the files. The theorems show what a loaded
  configuration guarantees, that empty variables change nothing, that overriding twice is
  overriding once, and where the second-factor secret does not reach its handler.
\<close>

section \<open>Sections\<close>

datatype gateway_program = GatewayProgram | TwsProgram
datatype log_level = LogDebug | LogInfo | LogWarn | LogError
datatype site_role = PrimarySite | StandbySite

record auth_config =
  au_username :: string
  au_password :: string
  au_trading_mode :: trading_mode
  au_paper_username :: string
  au_paper_password :: string

record backoff_section = twofa_backoff_config +
  bo_callback_valid_hours :: nat
  bo_ntfy_send_retries :: nat
  bo_signing_key :: string

record twofa_section =
  tw_secret_env :: string
  tw_provider :: totp_provider
  tw_timeout_action :: twofa_timeout_action
  tw_timeout_seconds :: nat
  tw_device :: string
  tw_relogin_after_timeout :: bool
  tw_has_secret :: bool
  tw_backoff :: backoff_section

record gateway_section = gateway_config +
  gw_tws_path :: string
  gw_settings_path :: string
  gw_version :: string
  gw_java_heap_mb :: nat
  gw_program :: gateway_program

record session_config =
  se_action :: session_action
  se_accept_incoming :: accept_incoming
  se_cold_restart_time :: string
  se_cold_restart_day :: nat
  se_save_settings_at :: string

record command_server_config =
  cs_enabled :: bool
  cs_port :: nat
  cs_bind_address :: string
  cs_control_from :: "string list"

record logging_config =
  lg_level :: log_level
  lg_dir :: string
  lg_futures_session :: bool
  lg_reopen_hour :: nat

record site_config =
  si_role :: site_role
  si_auto_launch :: bool

text \<open>
  \<open>TimingConfig\<close> is in three parts: the limits the controller reads (\<open>timing_config\<close>), the
  interface delays, and \<open>[timing.recovery]\<close>. The minimum dwell of the last part is the one field
  the controller also reads; \<open>controller_config\<close> copies it.
\<close>

record ui_timing =
  ut_ui_tick_ms :: nat
  ut_agent_tick_ms :: nat
  ut_post_login_delay_ms :: nat
  ut_popup_quiet_secs :: nat
  ut_popup_max_wait_secs :: nat
  ut_login_radio_delay_ms :: nat
  ut_jvm_shutdown_timeout_secs :: nat

record config =
  cg_auth :: auth_config
  cg_twofa :: twofa_section
  cg_gateway :: gateway_section
  cg_session :: session_config
  cg_command_server :: command_server_config
  cg_agent_socket :: string
  cg_logging :: logging_config
  cg_timing :: timing_config
  cg_ui_timing :: ui_timing
  cg_recovery :: recovery_timing_config
  cg_site :: site_config
  cg_kick_active_session :: bool

definition default_twofa :: twofa_section where
  "default_twofa = \<lparr>tw_secret_env = ''TWOFACTOR_CODE'', tw_provider = Builtin, tw_timeout_action = TimeoutRestart,
     tw_timeout_seconds = 180, tw_device = [], tw_relogin_after_timeout = False, tw_has_secret = False,
     tw_backoff = twofa_backoff_config.extend default_backoff
       \<lparr>bo_callback_valid_hours = 12, bo_ntfy_send_retries = 1, bo_signing_key = []\<rparr>\<rparr>"

definition default_gateway :: gateway_section where
  "default_gateway = \<lparr>gw_live_api_port = 4001, gw_paper_api_port = 4002, gw_live_socat_port = 4003,
     gw_paper_socat_port = 4004, gw_tws_path = ''/home/ibgateway/Jts'', gw_settings_path = [], gw_version = [],
     gw_java_heap_mb = 768, gw_program = GatewayProgram\<rparr>"

definition default_auth :: auth_config where [simp]:
  "default_auth = \<lparr>au_username = [], au_password = [], au_trading_mode = Paper, au_paper_username = [],
     au_paper_password = []\<rparr>"

definition default_session :: session_config where [simp]:
  "default_session = \<lparr>se_action = Primary, se_accept_incoming = Accept, se_cold_restart_time = [],
     se_cold_restart_day = 0, se_save_settings_at = []\<rparr>"

definition default_command_server :: command_server_config where [simp]:
  "default_command_server = \<lparr>cs_enabled = False, cs_port = 7462, cs_bind_address = ''0.0.0.0'',
     cs_control_from = [''127.0.0.1'', ''172.0.0.0/8'']\<rparr>"

definition default_agent_socket :: string where [simp]:
  "default_agent_socket = ''/run/ibctl/agent.sock''"

definition default_logging :: logging_config where [simp]:
  "default_logging = \<lparr>lg_level = LogInfo, lg_dir = [], lg_futures_session = False, lg_reopen_hour = 18\<rparr>"

definition default_ui_timing :: ui_timing where [simp]:
  "default_ui_timing = \<lparr>ut_ui_tick_ms = 100, ut_agent_tick_ms = 50, ut_post_login_delay_ms = 1000,
     ut_popup_quiet_secs = 5, ut_popup_max_wait_secs = 30, ut_login_radio_delay_ms = 100,
     ut_jvm_shutdown_timeout_secs = 5\<rparr>"

definition default_site :: site_config where [simp]:
  "default_site = \<lparr>si_role = PrimarySite, si_auto_launch = True\<rparr>"

definition default_config :: config where
  "default_config = \<lparr>cg_auth = default_auth, cg_twofa = default_twofa, cg_gateway = default_gateway,
     cg_session = default_session, cg_command_server = default_command_server,
     cg_agent_socket = default_agent_socket, cg_logging = default_logging, cg_timing = default_timing,
     cg_ui_timing = default_ui_timing, cg_recovery = default_recovery_timing, cg_site = default_site,
     cg_kick_active_session = False\<rparr>"

section \<open>Debug output\<close>

text \<open>
  What a formatter is given: the structure that \<open>debug_struct\<close> builds. The sections with a
  secret print a constant in its place; a clone is the same value.
\<close>

datatype debug_value =
  DebugStruct string "(string \<times> debug_value) list" | DebugStr string | DebugNat nat | DebugNats "nat list"
| DebugBool bool | DebugVariant string

definition redacted :: debug_value where "redacted = DebugStr ''[REDACTED]''"

fun debug_trading_mode :: "trading_mode \<Rightarrow> debug_value" where
  "debug_trading_mode Live = DebugVariant ''Live''"
| "debug_trading_mode Paper = DebugVariant ''Paper''"
| "debug_trading_mode Both = DebugVariant ''Both''"

fun debug_on_timeout :: "twofa_on_timeout \<Rightarrow> debug_value" where
  "debug_on_timeout RestartThenHitl = DebugVariant ''RestartThenHitl''"
| "debug_on_timeout RestartForever = DebugVariant ''RestartForever''"
| "debug_on_timeout HitlImmediately = DebugVariant ''HitlImmediately''"

fun debug_strategy :: "hitl_strategy \<Rightarrow> debug_value" where
  "debug_strategy HitlDisabled = DebugVariant ''Disabled''"
| "debug_strategy HitlPeriodic = DebugVariant ''Periodic''"
| "debug_strategy HitlNtfyCallback = DebugVariant ''NtfyCallback''"
| "debug_strategy HitlBoth = DebugVariant ''Both''"

fun debug_counter_reset :: "counter_reset_scope \<Rightarrow> debug_value" where
  "debug_counter_reset AnyReach = DebugVariant ''AnyReach''"
| "debug_counter_reset Stable = DebugVariant ''Stable''"

definition debug_paper_auth :: "auth_config \<Rightarrow> debug_value" where
  "debug_paper_auth a =
     DebugStruct ''PaperAuthConfig'' [(''username'', DebugStr (au_paper_username a)), (''password'', redacted)]"

definition debug_auth :: "auth_config \<Rightarrow> debug_value" where
  "debug_auth a =
     DebugStruct ''AuthConfig''
       [(''username'', DebugStr (au_username a)), (''password'', redacted),
        (''trading_mode'', debug_trading_mode (au_trading_mode a)), (''paper'', debug_paper_auth a)]"

definition debug_backoff :: "backoff_section \<Rightarrow> debug_value" where
  "debug_backoff b =
     DebugStruct ''TwoFaBackoffConfig''
       [(''max_immediate_attempts'', DebugNat (bo_max_immediate_attempts b)),
        (''on_timeout'', debug_on_timeout (bo_on_timeout b)), (''strategy'', debug_strategy (bo_strategy b)),
        (''intervals_minutes'', DebugNats (bo_intervals_minutes b)),
        (''callback_valid_hours'', DebugNat (bo_callback_valid_hours b)),
        (''counter_reset'', debug_counter_reset (bo_counter_reset b)), (''stable_secs'', DebugNat (bo_stable_secs b)),
        (''cold_restart_preempts_hitl'', DebugBool (bo_cold_restart_preempts_hitl b)),
        (''ntfy_send_retries'', DebugNat (bo_ntfy_send_retries b)), (''ntfy_action_signing_key'', redacted)]"

text \<open>
  The output is a function of the settings without their secrets, and tells any two of them
  apart.
\<close>

lemma debug_auth_iff:
  "debug_auth a = debug_auth b \<longleftrightarrow>
     b = a\<lparr>au_password := au_password b, au_paper_password := au_paper_password b\<rparr>"
proof -
  have "debug_trading_mode m = debug_trading_mode n \<longleftrightarrow> m = n" for m n by (cases m; cases n) simp_all
  then show ?thesis by (cases a; cases b) (auto simp: debug_auth_def debug_paper_auth_def)
qed

lemma debug_backoff_iff: "debug_backoff a = debug_backoff b \<longleftrightarrow> b = a\<lparr>bo_signing_key := bo_signing_key b\<rparr>"
proof -
  have "debug_on_timeout m = debug_on_timeout n \<longleftrightarrow> m = n" for m n by (cases m; cases n) simp_all
  moreover have "debug_strategy m = debug_strategy n \<longleftrightarrow> m = n" for m n by (cases m; cases n) simp_all
  moreover have "debug_counter_reset m = debug_counter_reset n \<longleftrightarrow> m = n" for m n by (cases m; cases n) simp_all
  ultimately show ?thesis by (cases a; cases b) (auto simp: debug_backoff_def)
qed

section \<open>Environment overrides\<close>

definition env_nonempty :: "env \<Rightarrow> string \<Rightarrow> string option" where
  "env_nonempty env var = (case env var of Some v \<Rightarrow> if v = [] then None else Some v | None \<Rightarrow> None)"

text \<open>The direct reads that parse a number and keep the setting when that fails.\<close>

definition env_parse :: "nat \<Rightarrow> env \<Rightarrow> string \<Rightarrow> nat option" where
  "env_parse mx env var = Option.bind (env var) (parse_uint mx)"

definition env_or_file :: "env \<Rightarrow> (string \<Rightarrow> string option) \<Rightarrow> string \<Rightarrow> string option" where
  "env_or_file env read var =
     (case Option.bind (env (var @ ''_FILE'')) read of
        Some contents \<Rightarrow> Some (trim contents)
      | None \<Rightarrow> env_nonempty env var)"

definition keyword :: "(string \<times> 'a) list \<Rightarrow> string \<Rightarrow> 'a option" where
  "keyword table v = map_of table (to_lowercase v)"

definition env_keyword :: "env \<Rightarrow> string \<Rightarrow> (string \<times> 'a) list \<Rightarrow> 'a option" where
  "env_keyword env var table = Option.bind (env_nonempty env var) (keyword table)"

definition is_yes :: "string \<Rightarrow> bool" where
  "is_yes v \<longleftrightarrow> to_lowercase v \<in> {''yes'', ''true'', ''1''}"

definition u16_max :: nat where "u16_max = 65535"

definition override_auth :: "env \<Rightarrow> (string \<Rightarrow> string option) \<Rightarrow> auth_config \<Rightarrow> auth_config" where
  "override_auth env read a = a\<lparr>
     au_username := or_else (env_or_file env read ''TWS_USERID'') (au_username a),
     au_password := or_else (env_or_file env read ''TWS_PASSWORD'') (au_password a),
     au_trading_mode := or_else (Option.bind (env_or_file env read ''TRADING_MODE'')
         (keyword [(''live'', Live), (''paper'', Paper), (''both'', Both)])) (au_trading_mode a),
     au_paper_username := or_else (env_or_file env read ''TWS_USERID_PAPER'') (au_paper_username a),
     au_paper_password := or_else (env_or_file env read ''TWS_PASSWORD_PAPER'') (au_paper_password a)\<rparr>"

definition parse_intervals :: "string \<Rightarrow> nat list option" where
  "parse_intervals v =
     (let parsed = List.map_filter (\<lambda>s. parse_uint u32_max (trim s)) (split_on (CHR '','') v)
      in if parsed = [] then None else Some parsed)"

definition override_backoff :: "env \<Rightarrow> (string \<Rightarrow> string option) \<Rightarrow> backoff_section \<Rightarrow> backoff_section" where
  "override_backoff env read b = b\<lparr>
     bo_max_immediate_attempts := or_else (env_parse u32_max env ''IBCTL_TWOFA_MAX_IMMEDIATE_ATTEMPTS'') (bo_max_immediate_attempts b),
     bo_on_timeout := or_else (env_keyword env ''IBCTL_TWOFA_ON_TIMEOUT''
         [(''restart_then_hitl'', RestartThenHitl), (''restart_forever'', RestartForever), (''hitl_immediately'', HitlImmediately)])
         (bo_on_timeout b),
     bo_strategy := or_else (env_keyword env ''IBCTL_TWOFA_STRATEGY''
         [(''disabled'', HitlDisabled), (''periodic'', HitlPeriodic), (''ntfy_callback'', HitlNtfyCallback), (''both'', HitlBoth)])
         (bo_strategy b),
     bo_intervals_minutes := or_else (Option.bind (env_nonempty env ''IBCTL_TWOFA_INTERVALS_MINUTES'') parse_intervals) (bo_intervals_minutes b),
     bo_callback_valid_hours := or_else (env_parse u32_max env ''IBCTL_TWOFA_CALLBACK_VALID_HOURS'') (bo_callback_valid_hours b),
     bo_counter_reset := or_else (env_keyword env ''IBCTL_TWOFA_COUNTER_RESET'' [(''any_reach'', AnyReach), (''stable'', Stable)]) (bo_counter_reset b),
     bo_stable_secs := or_else (env_parse u64_max env ''IBCTL_TWOFA_STABLE_SECS'') (bo_stable_secs b),
     bo_cold_restart_preempts_hitl := or_else (map_option is_yes (env_nonempty env ''IBCTL_TWOFA_COLD_RESTART_PREEMPTS_HITL'')) (bo_cold_restart_preempts_hitl b),
     bo_ntfy_send_retries := or_else (env_parse u32_max env ''IBCTL_TWOFA_NTFY_SEND_RETRIES'') (bo_ntfy_send_retries b),
     bo_signing_key := or_else (env_or_file env read ''IBCTL_NTFY_ACTION_SIGNING_KEY'') (bo_signing_key b)\<rparr>"

definition override_twofa :: "env \<Rightarrow> (string \<Rightarrow> string option) \<Rightarrow> twofa_section \<Rightarrow> twofa_section" where
  "override_twofa env read t = t\<lparr>
     tw_provider := or_else (env_keyword env ''TOTP_PROVIDER'' [(''oathtool'', Oathtool), (''builtin'', Builtin)]) (tw_provider t),
     tw_timeout_action := or_else (env_keyword env ''TWOFA_TIMEOUT_ACTION'' [(''restart'', TimeoutRestart), (''exit'', TimeoutExit)]) (tw_timeout_action t),
     tw_timeout_seconds := or_else (env_parse u64_max env ''TWOFA_EXIT_INTERVAL'') (tw_timeout_seconds t),
     tw_device := or_else (env_nonempty env ''TWOFA_DEVICE'') (tw_device t),
     tw_relogin_after_timeout := or_else (map_option is_yes (env_nonempty env ''RELOGIN_AFTER_TWOFA_TIMEOUT'')) (tw_relogin_after_timeout t),
     tw_has_secret := (case env_or_file env read (tw_secret_env t) of None \<Rightarrow> False | Some s \<Rightarrow> s \<noteq> []),
     tw_backoff := override_backoff env read (tw_backoff t)\<rparr>"

definition override_gateway :: "env \<Rightarrow> gateway_section \<Rightarrow> gateway_section" where
  "override_gateway env g = g\<lparr>
     gw_tws_path := or_else (env_nonempty env ''TWS_PATH'') (gw_tws_path g),
     gw_settings_path := or_else (env_nonempty env ''TWS_SETTINGS_PATH'') (gw_settings_path g),
     gw_version := or_else (env_nonempty env ''TWS_MAJOR_VRSN'') (gw_version g),
     gw_java_heap_mb := or_else (env_parse u32_max env ''JAVA_HEAP_SIZE'') (gw_java_heap_mb g),
     gw_live_api_port := or_else (env_parse u16_max env ''IBCTL_LIVE_API_PORT'') (gw_live_api_port g),
     gw_paper_api_port := or_else (env_parse u16_max env ''IBCTL_PAPER_API_PORT'') (gw_paper_api_port g),
     gw_live_socat_port := or_else (env_parse u16_max env ''IBCTL_LIVE_SOCAT_PORT'') (gw_live_socat_port g),
     gw_paper_socat_port := or_else (env_parse u16_max env ''IBCTL_PAPER_SOCAT_PORT'') (gw_paper_socat_port g),
     gw_program := or_else (env_keyword env ''GATEWAY_OR_TWS'' [(''gateway'', GatewayProgram), (''tws'', TwsProgram)]) (gw_program g)\<rparr>"

definition parse_below :: "nat \<Rightarrow> string \<Rightarrow> nat option" where
  "parse_below n v = (case parse_uint u8_max v of Some d \<Rightarrow> if d < n then Some d else None | None \<Rightarrow> None)"

definition override_session :: "env \<Rightarrow> session_config \<Rightarrow> session_config" where
  "override_session env s = s\<lparr>
     se_action := or_else (env_keyword env ''IBCTL_SESSION_ACTION''
         [(''primary'', Primary), (''secondary'', Secondary), (''primaryoverride'', PrimaryOverride)]) (se_action s),
     se_accept_incoming := or_else (Option.bind
         (case env_nonempty env ''IBCTL_ACCEPT_INCOMING'' of None \<Rightarrow> env_nonempty env ''TWS_ACCEPT_INCOMING'' | Some v \<Rightarrow> Some v)
         (keyword [(''accept'', Accept), (''reject'', Reject), (''manual'', Manual)])) (se_accept_incoming s),
     se_cold_restart_time := or_else (env_nonempty env ''TWS_COLD_RESTART'') (se_cold_restart_time s),
     se_cold_restart_day := or_else (Option.bind (env_nonempty env ''TWS_COLD_RESTART_DAY'') (parse_below 7)) (se_cold_restart_day s),
     se_save_settings_at := or_else (env_nonempty env ''SAVE_TWS_SETTINGS_AT'') (se_save_settings_at s)\<rparr>"

definition override_command_server :: "env \<Rightarrow> command_server_config \<Rightarrow> command_server_config" where
  "override_command_server env c = c\<lparr>
     cs_enabled := or_else (map_option (\<lambda>v. to_lowercase v \<noteq> ''false'' \<and> v \<noteq> ''0'' \<and> to_lowercase v \<noteq> ''no'')
         (env_nonempty env ''IBCTL_COMMAND_SERVER_ENABLED'')) (cs_enabled c),
     cs_port := or_else (env_parse u16_max env ''IBCTL_COMMAND_PORT'') (cs_port c),
     cs_control_from := or_else (map_option (\<lambda>v. map trim (split_on (CHR '','') v)) (env_nonempty env ''IBCTL_CONTROL_FROM'')) (cs_control_from c)\<rparr>"

definition override_timing :: "env \<Rightarrow> timing_config \<Rightarrow> timing_config" where
  "override_timing env t = t\<lparr>
     ti_login_dialog_timeout_secs := or_else (env_parse u64_max env ''IBCTL_LOGIN_TIMEOUT'') (ti_login_dialog_timeout_secs t),
     ti_restart_delay_secs := or_else (env_parse u64_max env ''IBCTL_RESTART_DELAY'') (ti_restart_delay_secs t),
     ti_relogin_max_attempts := or_else (env_parse u32_max env ''IBCTL_RELOGIN_ATTEMPTS'') (ti_relogin_max_attempts t),
     ti_relogin_failure_action := or_else (env_keyword env ''IBCTL_RELOGIN_FAILURE_ACTION''
         [(''reauth'', FailureReauth), (''restart'', FailureRestart)]) (ti_relogin_failure_action t),
     ti_api_port_probe_interval_secs := or_else (env_parse u64_max env ''IBCTL_API_PORT_PROBE_INTERVAL_SECS'') (ti_api_port_probe_interval_secs t),
     ti_api_port_probe_fails_before_revoke := or_else (env_parse u32_max env ''IBCTL_API_PORT_PROBE_FAILS_BEFORE_REVOKE'')
         (ti_api_port_probe_fails_before_revoke t)\<rparr>"

definition override_logging :: "env \<Rightarrow> logging_config \<Rightarrow> logging_config" where
  "override_logging env l = l\<lparr>
     lg_level := or_else (env_keyword env ''IBCTL_LOG_LEVEL''
         [(''debug'', LogDebug), (''info'', LogInfo), (''warn'', LogWarn), (''warning'', LogWarn), (''error'', LogError)]) (lg_level l),
     lg_dir := or_else (env_nonempty env ''IBCTL_LOG_DIR'') (lg_dir l),
     lg_futures_session := or_else (map_option is_yes (env_nonempty env ''IBCTL_FUTURES_SESSION_LOGGING'')) (lg_futures_session l),
     lg_reopen_hour := or_else (Option.bind (env_nonempty env ''IBCTL_SESSION_REOPEN_HOUR'') (parse_below 24)) (lg_reopen_hour l)\<rparr>"

definition override_site :: "env \<Rightarrow> site_config \<Rightarrow> site_config" where
  "override_site env s = s\<lparr>
     si_role := or_else (env_keyword env ''IBCTL_SITE_ROLE'' [(''primary'', PrimarySite), (''standby'', StandbySite)]) (si_role s),
     si_auto_launch := or_else (map_option is_yes (env_nonempty env ''IBCTL_AUTO_LAUNCH'')) (si_auto_launch s)\<rparr>"

definition apply_env_overrides :: "env \<Rightarrow> (string \<Rightarrow> string option) \<Rightarrow> config \<Rightarrow> config" where
  "apply_env_overrides env read c = c\<lparr>
     cg_auth := override_auth env read (cg_auth c),
     cg_twofa := override_twofa env read (cg_twofa c),
     cg_gateway := override_gateway env (cg_gateway c),
     cg_session := override_session env (cg_session c),
     cg_command_server := override_command_server env (cg_command_server c),
     cg_timing := override_timing env (cg_timing c),
     cg_agent_socket := or_else (env_nonempty env ''IBCTL_AGENT_SOCKET'') (cg_agent_socket c),
     cg_logging := override_logging env (cg_logging c),
     cg_site := override_site env (cg_site c)\<rparr>"

section \<open>Loading\<close>

datatype config_error = ReadFile string | ParseFailed | Missing string

text \<open>Validation; two of the messages have a dash, three bytes in UTF-8.\<close>

definition required_for_both :: string where
  "required_for_both = '' '' @ [CHR 0xE2, CHR 0x80, CHR 0x94] @ '' required for trading_mode=both''"

definition validate :: "config \<Rightarrow> config_error option" where
  "validate c =
     (let a = cg_auth c in
      if au_username a = [] then Some (Missing ''tws_userid (set TWS_USERID env var or tws_userid in TOML)'')
      else if au_password a = [] then Some (Missing ''TWS_PASSWORD or TWS_PASSWORD_FILE env var'')
      else if au_trading_mode a = Both \<and> au_paper_username a = [] then Some (Missing (''paper tws_userid (set TWS_USERID_PAPER env var)'' @ required_for_both))
      else if au_trading_mode a = Both \<and> au_paper_password a = [] then Some (Missing (''TWS_PASSWORD_PAPER or TWS_PASSWORD_PAPER_FILE env var'' @ required_for_both))
      else None)"

definition load_config ::
  "(string \<Rightarrow> config option) \<Rightarrow> (string \<Rightarrow> bool) \<Rightarrow> (string \<Rightarrow> string option) \<Rightarrow> env \<Rightarrow> string option \<Rightarrow> config_error + config" where
  "load_config from_toml exists read env path =
     (let config_path = (case path of Some p \<Rightarrow> p | None \<Rightarrow> or_else (env ''IBCTL_CONFIG'') ''ibctl.toml'') in
      and_then
        (if exists config_path
         then (case read config_path of
                 None \<Rightarrow> Inl (ReadFile config_path)
               | Some contents \<Rightarrow> (case from_toml contents of None \<Rightarrow> Inl ParseFailed | Some c \<Rightarrow> Inr c))
         else if path \<noteq> None then Inl (ReadFile config_path)
         else Inr default_config)
        (\<lambda>c. let c' = apply_env_overrides env read c in
             case validate c' of None \<Rightarrow> Inr c' | Some e \<Rightarrow> Inl e))"

section \<open>Overrides\<close>

lemma or_else_simps [simp]: "or_else None d = d" "or_else (Some x) d = x"
  by (simp_all add: or_else_def)

lemma or_else_idem [simp]: "or_else v (or_else v d) = or_else v d"
  by (cases v) simp_all

text \<open>An environment in which every variable is unset or empty, as a container passes it.\<close>

definition blank_env :: "env \<Rightarrow> bool" where
  "blank_env env \<longleftrightarrow> (\<forall>v. env v = None \<or> env v = Some [])"

lemma blank_nonempty [simp]: "blank_env env \<Longrightarrow> env_nonempty env v = None"
  by (auto simp: blank_env_def env_nonempty_def split: option.split dest: spec [of _ v])

lemma parse_uint_nil [simp]: "parse_uint mx [] = None"
  by (simp add: parse_uint_def parse_digits_def)

lemma blank_parse [simp]: "blank_env env \<Longrightarrow> env_parse mx env v = None"
  unfolding blank_env_def env_parse_def by (cases "env v") (auto dest: spec [of _ v])

lemma blank_keyword [simp]: "blank_env env \<Longrightarrow> env_keyword env v t = None"
  by (simp add: env_keyword_def)

lemma blank_file [simp]:
  assumes "blank_env env" and "read [] = None"
  shows "env_or_file env read v = None"
proof -
  have "Option.bind (env (v @ ''_FILE'')) read = None"
    using assms unfolding blank_env_def by (cases "env (v @ ''_FILE'')") (auto dest: spec [of _ "v @ ''_FILE''"])
  then show ?thesis using assms(1) by (simp add: env_or_file_def)
qed

lemmas override_defs = apply_env_overrides_def override_auth_def override_twofa_def override_backoff_def
  override_gateway_def override_session_def override_command_server_def override_timing_def
  override_logging_def override_site_def

text \<open>
  Overriding is idempotent, and an environment whose variables are all unset or empty leaves
  every setting of the file as it is, apart from recording that no second-factor secret is
  available. (A file with the empty name cannot be read.)
\<close>

theorem overrides_idempotent_and_neutral:
  assumes "blank_env blank" and "read [] = None"
  shows "apply_env_overrides env read (apply_env_overrides env read c) = apply_env_overrides env read c
    \<and> apply_env_overrides blank read c = c\<lparr>cg_twofa := (cg_twofa c)\<lparr>tw_has_secret := False\<rparr>\<rparr>"
proof
  show "apply_env_overrides env read (apply_env_overrides env read c) = apply_env_overrides env read c"
    by (simp add: override_defs)
  show "apply_env_overrides blank read c = c\<lparr>cg_twofa := (cg_twofa c)\<lparr>tw_has_secret := False\<rparr>\<rparr>"
    using assms by (simp add: override_defs)
qed

theorem overrides_idempotent_and_neutral_witness:
  "apply_env_overrides (map_of [(''TWS_USERID'', [])]) (\<lambda>_. None) default_config = default_config"
proof -
  have "blank_env (map_of [(''TWS_USERID'', [])])" by (simp add: blank_env_def)
  from conjunct2 [OF overrides_idempotent_and_neutral [OF this, of "\<lambda>_. None" "\<lambda>_. None" default_config]] show ?thesis
    by (simp add: default_config_def default_twofa_def)
qed

section \<open>What loading guarantees\<close>

definition valid_config :: "config \<Rightarrow> bool" where
  "valid_config c \<longleftrightarrow> au_username (cg_auth c) \<noteq> [] \<and> au_password (cg_auth c) \<noteq> []
     \<and> (au_trading_mode (cg_auth c) = Both \<longrightarrow> au_paper_username (cg_auth c) \<noteq> [] \<and> au_paper_password (cg_auth c) \<noteq> [])"

lemma validate_iff: "validate c = None \<longleftrightarrow> valid_config c"
  by (auto simp: validate_def valid_config_def Let_def)

lemma load_config_Inr:
  assumes "load_config from_toml exists read env path = Inr c"
  shows "\<exists>c0. c = apply_env_overrides env read c0 \<and> valid_config c"
  using assms
  by (auto simp: load_config_def Let_def validate_iff and_then_Inr_iff split: option.split_asm)


definition demo_vars :: env where
  "demo_vars = map_of [(''TWS_USERID'', ''user''), (''TWS_PASSWORD_FILE'', ''/run/secrets/pw''),
     (''TWOFACTOR_CODE_FILE'', ''/run/secrets/totp'')]"

definition demo_read :: "string \<Rightarrow> string option" where
  "demo_read = map_of [(''/run/secrets/pw'', ''secret ''), (''/run/secrets/totp'', ''JBSWY3DP'')]"

definition demo_config :: config where
  "demo_config = apply_env_overrides demo_vars demo_read default_config"

lemma demo_trim: "trim ''secret '' = ''secret''" "trim ''JBSWY3DP'' = ''JBSWY3DP''"
  by code_simp+

lemma demo_auth:
  "au_username (cg_auth demo_config) = ''user''" "au_password (cg_auth demo_config) = ''secret''"
  "au_trading_mode (cg_auth demo_config) = Paper" "tw_secret_env (cg_twofa demo_config) = ''TWOFACTOR_CODE''"
  by (simp_all add: demo_config_def override_defs env_or_file_def env_nonempty_def demo_vars_def demo_read_def
    default_config_def default_twofa_def demo_trim)

lemma demo_loads:
  "load_config (\<lambda>_. None) (\<lambda>_. False) demo_read demo_vars None = Inr demo_config"
proof -
  have "validate demo_config = None" by (simp add: validate_iff valid_config_def demo_auth)
  then show ?thesis by (simp add: load_config_def Let_def demo_config_def)
qed


section \<open>The second-factor secret\<close>

text \<open>
  A second-factor secret given as a Docker secret file is recorded as available, but the handler
  that needs it reads the variable alone: with the secret in a file and the variable unset, the
  loaded configuration says there is a secret, and yet for every provider, clock and agent the
  handler fails without typing anything.
\<close>

theorem secret_file_never_reaches_handler:
  assumes "load_config from_toml exists read env path = Inr c"
    and "env (tw_secret_env (cg_twofa c)) = None"
    and "env (tw_secret_env (cg_twofa c) @ ''_FILE'') = Some file"
    and "read file = Some contents" and "trim contents \<noteq> []"
    and "te = \<lparr>te_ocr = OcrOff, te_ocr_strict = strict,
      te_code = handler_code (tw_provider (cg_twofa c)) oathtool (env (tw_secret_env (cg_twofa c))) corrected\<rparr>"
  shows "tw_has_secret (cg_twofa c) \<and> totp_handle te ag w u = (u, DispatchFailed)"
proof -
  obtain c0 where c: "c = apply_env_overrides env read c0" using load_config_Inr [OF assms(1)] by blast
  then have e: "tw_secret_env (cg_twofa c) = tw_secret_env (cg_twofa c0)" by (simp add: override_defs)
  have "env_or_file env read (tw_secret_env (cg_twofa c0)) = Some (trim contents)"
    using assms(3,4) unfolding e by (simp add: env_or_file_def)
  then have "tw_has_secret (cg_twofa c)" using c assms(5) by (simp add: override_defs)
  moreover have "te_code te = None" using assms(2,6) by (simp add: handler_code_def)
  ultimately show ?thesis using assms(6) by (simp add: totp_handle_def)
qed

theorem secret_file_never_reaches_handler_witness:
  "tw_has_secret (cg_twofa demo_config)
   \<and> totp_handle \<lparr>te_ocr = OcrOff, te_ocr_strict = False,
       te_code = handler_code (tw_provider (cg_twofa demo_config)) (\<lambda>s t. Inr ''123456'') (demo_vars ''TWOFACTOR_CODE'') (Some 62)\<rparr>
       (demo_agent [''OK''] []) (demo_dialog ''Second Factor Authentication'') \<lparr>ui_log = [], ui_login_submitted = True\<rparr>
     = (\<lparr>ui_log = [], ui_login_submitted = True\<rparr>, DispatchFailed)"
proof -
  have "demo_vars (tw_secret_env (cg_twofa demo_config)) = None"
    "demo_vars (tw_secret_env (cg_twofa demo_config) @ ''_FILE'') = Some ''/run/secrets/totp''"
    "demo_read ''/run/secrets/totp'' = Some ''JBSWY3DP''" "trim ''JBSWY3DP'' \<noteq> []"
    by (simp_all add: demo_auth demo_trim demo_vars_def demo_read_def)
  from secret_file_never_reaches_handler [OF demo_loads this refl] show ?thesis by (simp add: demo_auth)
qed

end
