(* ===== verification/Command_Server.thy ===== *)
theory Command_Server
  imports State_Machine
begin

unbundle bit_operations_syntax

text \<open>
  The TCP command server (\<open>command_server.rs\<close>): parsing a command line, the allow-list
  with its CIDR blocks, the localhost rule for privileged commands, and one connection from
  the peer check to the last line written, the subscription stream included. IP addresses
  are words; their textual form and parser are those of the standard library. The theorems
  show that the wire form of every command parses back, that a block admits exactly the
  addresses that agree on its prefix, and which commands a connection may forward.
\<close>

section \<open>Parsing a command line\<close>

datatype query_type = QStatus | QState | QConfig | QLogs nat | QWindows | QSubscribe

datatype parsed_command = Action command | QueryCmd query_type

fun splitn :: "nat \<Rightarrow> char \<Rightarrow> string \<Rightarrow> string list" where
  "splitn 0 d s = []"
| "splitn (Suc 0) d s = [s]"
| "splitn (Suc (Suc n)) d s =
     (case split_once d s of None \<Rightarrow> [s] | Some (a, b) \<Rightarrow> a # splitn (Suc n) d b)"

definition slice_get :: "nat \<Rightarrow> 'a list \<Rightarrow> 'a option" where
  "slice_get i xs = (if i < length xs then Some (xs ! i) else None)"

definition is_control :: "char \<Rightarrow> bool" where
  "is_control c \<longleftrightarrow> (let n = (of_char c :: nat) in n < 32 \<or> (127 \<le> n \<and> n < 160))"

definition quote_char :: char where "quote_char = CHR 0x22"

definition or_empty :: "string option \<Rightarrow> string" where
  "or_empty v = (case v of None \<Rightarrow> [] | Some s \<Rightarrow> s)"

definition parse_pause :: "string \<Rightarrow> command" where
  "parse_pause trimmed =
     (case slice_get 1 (split_whitespace trimmed) of Some name \<Rightarrow> CmdPauseAt name | None \<Rightarrow> CmdPause)"

definition parse_set_state :: "string \<Rightarrow> command option" where
  "parse_set_state trimmed =
     (let name = or_empty (slice_get 1 (split_whitespace trimmed))
      in if name = [] then None else Some (CmdSetState name))"

text \<open>\<open>RESUME_RECONNECT\<close> and \<open>SETRESTART\<close>: everything after the first space, trimmed.\<close>

definition parse_rest :: "(string \<Rightarrow> command) \<Rightarrow> string \<Rightarrow> command option" where
  "parse_rest mk trimmed =
     (let arg = trim (or_empty (slice_get 1 (splitn 2 CHR '' '' trimmed)))
      in if arg = [] then None else Some (mk arg))"

definition ib_statuses :: "string list" where
  "ib_statuses = [''available'', ''unavailable'', ''maintenance'', ''degraded'']"

definition clean_reason :: "string \<Rightarrow> string" where
  "clean_reason raw = take 256 (filter (\<lambda>c. \<not> is_control c) raw)"

definition parse_ib_status :: "string \<Rightarrow> command option" where
  "parse_ib_status trimmed =
     (let parts = splitn 3 CHR '' '' trimmed;
          status = (case slice_get 1 parts of None \<Rightarrow> ''available'' | Some s \<Rightarrow> s);
          raw = (case slice_get 2 parts of None \<Rightarrow> [] | Some s \<Rightarrow> trim_matches (\<lambda>c. c = quote_char) s)
      in if status \<in> set ib_statuses then Some (CmdIbStatus status (clean_reason raw)) else None)"

definition parse_logs :: "string list \<Rightarrow> query_type" where
  "parse_logs args =
     QLogs (case Option.bind (slice_get 0 args) (parse_uint u64_max) of None \<Rightarrow> 100 | Some n \<Rightarrow> n)"

definition parse_keyword :: "string \<Rightarrow> string list \<Rightarrow> string \<Rightarrow> parsed_command option" where
  "parse_keyword k args trimmed =
     (if k = ''STOP'' then Some (Action CmdStop)
      else if k = ''START'' then Some (Action CmdStart)
      else if k = ''RESTART'' then Some (Action CmdRestart)
      else if k = ''RECONNECTDATA'' then Some (Action CmdReconnectData)
      else if k = ''RECONNECTACCOUNT'' then Some (Action CmdReconnectAccount)
      else if k = ''ENABLEAPI'' then Some (Action CmdEnableApi)
      else if k = ''EXIT'' then Some (Action CmdExit)
      else if k = ''RESTARTSOCAT'' then Some (Action CmdRestartSocat)
      else if k = ''SAVESETTINGS'' \<or> k = ''SAVETWSSETTINGS'' then Some (Action CmdSaveSettings)
      else if k = ''PAUSE'' then Some (Action (parse_pause trimmed))
      else if k = ''RESUME'' then Some (Action CmdResume)
      else if k = ''HITL_RESUME'' then Some (Action CmdHitlResume)
      else if k = ''RESUME_RECONNECT'' then map_option Action (parse_rest CmdResumeReconnect trimmed)
      else if k = ''SETSTATE'' then map_option Action (parse_set_state trimmed)
      else if k = ''IBSTATUS'' then map_option Action (parse_ib_status trimmed)
      else if k = ''SETRESTART'' then map_option Action (parse_rest CmdSetRestartTime trimmed)
      else if k = ''STATUS'' then Some (QueryCmd QStatus)
      else if k = ''STATE'' then Some (QueryCmd QState)
      else if k = ''CONFIG'' then Some (QueryCmd QConfig)
      else if k = ''LOGS'' then Some (QueryCmd (parse_logs args))
      else if k = ''WINDOWS'' then Some (QueryCmd QWindows)
      else if k = ''SUBSCRIBE'' then Some (QueryCmd QSubscribe)
      else None)"

definition parse_command :: "string \<Rightarrow> parsed_command option" where
  "parse_command input =
     (let trimmed = trim input
      in case split_whitespace (to_uppercase trimmed) of
           [] \<Rightarrow> None
         | k # args \<Rightarrow> parse_keyword k args trimmed)"

section \<open>Addresses\<close>

datatype ip_addr = V4 "32 word" | V6 "128 word"

text \<open>\<open>Ipv4Addr\<close> and \<open>Ipv6Addr\<close>: octets and 16-bit segments, the most significant first.\<close>

definition digit_string :: "char list" where "digit_string = ''0123456789abcdef''"

fun show_hex :: "nat \<Rightarrow> string" where
  "show_hex n = (if n < 16 then [digit_string ! n] else show_hex (n div 16) @ [digit_string ! (n mod 16)])"

declare show_hex.simps [simp del]

definition octets :: "32 word \<Rightarrow> nat list" where
  "octets w = map (\<lambda>i. unat (drop_bit i w) mod 256) [24, 16, 8, 0]"

definition segments :: "128 word \<Rightarrow> nat list" where
  "segments w = map (\<lambda>i. unat (drop_bit i w) mod 65536) [112, 96, 80, 64, 48, 32, 16, 0]"

fun join_with :: "string \<Rightarrow> string list \<Rightarrow> string" where
  "join_with sep [] = []"
| "join_with sep [x] = x"
| "join_with sep (x # y # zs) = x @ sep @ join_with sep (y # zs)"

definition show_ipv4 :: "32 word \<Rightarrow> string" where
  "show_ipv4 w = join_with ''.'' (map show_nat (octets w))"

text \<open>The first longest run of zero segments: start and length.\<close>

fun longest_zero_run :: "nat list \<Rightarrow> nat \<Rightarrow> nat \<times> nat \<Rightarrow> nat \<times> nat \<Rightarrow> nat \<times> nat" where
  "longest_zero_run [] i cur best = best"
| "longest_zero_run (s # ss) i (start, len) best =
     (if s = 0
      then (let cur = (if len = 0 then (i, 1) else (start, len + 1))
            in longest_zero_run ss (i + 1) cur (if snd cur > snd best then cur else best))
      else longest_zero_run ss (i + 1) (0, 0) best)"

definition show_ipv6 :: "128 word \<Rightarrow> string" where
  "show_ipv6 w =
     (if unat (drop_bit 32 w) = 65535 then ''::ffff:'' @ show_ipv4 (ucast w)
      else (case longest_zero_run (segments w) 0 (0, 0) (0, 0) of
              (start, len) \<Rightarrow>
                if len > 1
                then join_with '':'' (map show_hex (take start (segments w))) @ ''::''
                     @ join_with '':'' (map show_hex (drop (start + len) (segments w)))
                else join_with '':'' (map show_hex (segments w))))"

fun show_ip :: "ip_addr \<Rightarrow> string" where
  "show_ip (V4 w) = show_ipv4 w"
| "show_ip (V6 w) = show_ipv6 w"

text \<open>
  The address parser of \<open>core::net\<close>: each reader returns the value read and the rest of the
  input; \<open>IpAddr::from_str\<close> requires that nothing is left.
\<close>

definition hex_val :: "char \<Rightarrow> nat" where
  "hex_val c = (if is_digit c then digit_val c else (of_char (to_lower_char c) :: nat) - 87)"

definition is_hex :: "char \<Rightarrow> bool" where
  "is_hex c \<longleftrightarrow> is_digit c \<or> (97 \<le> (of_char (to_lower_char c) :: nat) \<and> (of_char (to_lower_char c) :: nat) \<le> 102)"

definition read_octet :: "string \<Rightarrow> (nat \<times> string) option" where
  "read_octet s =
     (let ds = takeWhile is_digit s
      in if ds = [] \<or> length ds > 3 \<or> (hd ds = CHR ''0'' \<and> length ds > 1) \<or> digits_val ds > 255 then None
         else Some (digits_val ds, dropWhile is_digit s))"

definition read_group :: "string \<Rightarrow> (nat \<times> string) option" where
  "read_group s =
     (let ds = takeWhile is_hex s
      in if ds = [] \<or> length ds > 4 then None
         else Some (foldl (\<lambda>acc c. 16 * acc + hex_val c) 0 ds, dropWhile is_hex s))"

fun read_char :: "char \<Rightarrow> string \<Rightarrow> string option" where
  "read_char d [] = None"
| "read_char d (c # cs) = (if c = d then Some cs else None)"

definition read_sep :: "char \<Rightarrow> nat \<Rightarrow> (string \<Rightarrow> ('a \<times> string) option) \<Rightarrow> string \<Rightarrow> ('a \<times> string) option" where
  "read_sep d i rd s = (if i = 0 then rd s else Option.bind (read_char d s) rd)"

fun read_octets :: "nat \<Rightarrow> nat \<Rightarrow> string \<Rightarrow> (nat list \<times> string) option" where
  "read_octets 0 i s = Some ([], s)"
| "read_octets (Suc n) i s =
     (case read_sep CHR ''.'' i read_octet s of
        None \<Rightarrow> None
      | Some (v, r) \<Rightarrow> map_option (\<lambda>(vs, r'). (v # vs, r')) (read_octets n (i + 1) r))"

text \<open>\<open>read_groups\<close>: up to \<open>limit\<close> groups; whether the last two came from an embedded IPv4 address.\<close>

fun read_groups :: "nat \<Rightarrow> nat \<Rightarrow> nat \<Rightarrow> string \<Rightarrow> nat list \<times> bool \<times> string" where
  "read_groups 0 i limit s = ([], False, s)"
| "read_groups (Suc n) i limit s =
     (case (if i + 1 < limit then read_sep CHR '':'' i (read_octets 4 0) s else None) of
        Some (os, r) \<Rightarrow> ([256 * (os ! 0) + os ! 1, 256 * (os ! 2) + os ! 3], True, r)
      | None \<Rightarrow>
          (case read_sep CHR '':'' i read_group s of
             None \<Rightarrow> ([], False, s)
           | Some (g, r) \<Rightarrow> (case read_groups n (i + 1) limit r of (gs, v4, r') \<Rightarrow> (g # gs, v4, r'))))"

definition read_ipv6 :: "string \<Rightarrow> (nat list \<times> string) option" where
  "read_ipv6 s =
     (case read_groups 8 0 8 s of
        (front, v4, r) \<Rightarrow>
          if length front = 8 then Some (front, r)
          else if v4 then None
          else (case Option.bind (read_char CHR '':'' r) (read_char CHR '':'') of
                  None \<Rightarrow> None
                | Some r' \<Rightarrow>
                    (let n = 7 - length front
                     in case read_groups n 0 n r' of
                          (back, v4', r'') \<Rightarrow>
                            Some (front @ replicate (8 - length front - length back) 0 @ back, r''))))"

definition word_of_parts :: "nat \<Rightarrow> nat list \<Rightarrow> nat" where
  "word_of_parts base vs = foldl (\<lambda>acc v. base * acc + v) 0 vs"

definition parse_ip :: "string \<Rightarrow> ip_addr option" where
  "parse_ip s =
     (case read_octets 4 0 s of
        Some (os, r) \<Rightarrow> if r = [] then Some (V4 (of_nat (word_of_parts 256 os))) else None
      | None \<Rightarrow>
          (case read_ipv6 s of
             Some (gs, r) \<Rightarrow> if r = [] then Some (V6 (of_nat (word_of_parts 65536 gs))) else None
           | None \<Rightarrow> None))"

section \<open>Access control\<close>

fun cidr_contains :: "ip_addr \<Rightarrow> nat \<Rightarrow> ip_addr \<Rightarrow> bool" where
  "cidr_contains (V4 net) p (V4 ip) =
     (if p > 32 then False
      else if p = 0 then True
      else (let mask = push_bit (32 - p) (- 1) in (net AND mask) = (ip AND mask)))"
| "cidr_contains (V6 net) p (V6 ip) =
     (if p > 128 then False
      else if p = 0 then True
      else (let mask = push_bit (128 - p) (- 1) in (net AND mask) = (ip AND mask)))"
| "cidr_contains net p ip = False"

fun is_localhost :: "ip_addr \<Rightarrow> bool" where
  "is_localhost (V4 w) = (octets w ! 0 = 127)"
| "is_localhost (V6 w) = (w = 1)"

definition entry_allows :: "ip_addr \<Rightarrow> string \<Rightarrow> bool" where
  "entry_allows addr entry =
     (let allowed = trim entry; addr_str = show_ip addr
      in allowed = ''*''
       \<or> allowed = addr_str
       \<or> (case split_once CHR ''/'' allowed of
            None \<Rightarrow> False
          | Some (net_str, prefix_str) \<Rightarrow>
              (case (parse_ip net_str, parse_uint u32_max prefix_str) of
                 (Some net, Some p) \<Rightarrow> cidr_contains net p addr
               | _ \<Rightarrow> False))
       \<or> (allowed = ''127.0.0.1'' \<and> addr_str = ''::1'')
       \<or> (allowed = ''::1'' \<and> addr_str = ''127.0.0.1''))"

definition is_allowed :: "ip_addr \<Rightarrow> string list \<Rightarrow> bool" where
  "is_allowed addr control_from = list_ex (entry_allows addr) control_from"

fun is_privileged_command :: "command \<Rightarrow> bool" where
  "is_privileged_command (CmdSetState s) = True"
| "is_privileged_command CmdPause = True"
| "is_privileged_command (CmdPauseAt s) = True"
| "is_privileged_command CmdExit = True"
| "is_privileged_command CmdHitlResume = True"
| "is_privileged_command (CmdResumeReconnect t) = True"
| "is_privileged_command c = False"

section \<open>One connection\<close>

record query_snapshot =
  qs_version :: nat
  qs_status_json :: string
  qs_state_json :: string
  qs_config_json :: string

datatype read_outcome = ReadEof | ReadFailed | ReadTimeout | ReadLine string

datatype query_reply = QueryAnswered string | QueryDropped | QueryTimeout | QueryClosed

datatype stream_event = SnapshotChanged query_snapshot | StreamClosed | KeepaliveDue

text \<open>
  What the connection meets: the line it reads, whether the command channel is open, the
  published snapshot, the answer to a slow query, the subscription's wake-ups, and whether
  the n-th line written in the subscription loop reaches the client.
\<close>

record peer_io =
  io_read :: read_outcome
  io_command_open :: bool
  io_snapshot :: query_snapshot
  io_reply :: query_reply
  io_stream :: "stream_event list"
  io_write_ok :: "nat \<Rightarrow> bool"

record connection =
  cn_commands :: "command list"
  cn_queries :: "query_type list"
  cn_out :: "string list"
  cn_failed :: bool

definition newline :: string where "newline = [CHR 0x0A]"

definition reply :: "string list \<Rightarrow> connection" where
  "reply out = \<lparr>cn_commands = [], cn_queries = [], cn_out = out, cn_failed = False\<rparr>"

definition quoted :: "string \<Rightarrow> string" where "quoted s = quote_char # s @ [quote_char]"

definition event_line :: "string \<Rightarrow> query_snapshot \<Rightarrow> string" where
  "event_line kind snap =
     ''{'' @ quoted ''type'' @ '':'' @ quoted kind @ '','' @ quoted ''version'' @ '':'' @ show_nat (qs_version snap)
     @ '','' @ quoted ''status'' @ '':'' @ qs_status_json snap @ ''}'' @ newline"

definition keepalive_line :: string where
  "keepalive_line = ''{'' @ quoted ''type'' @ '':'' @ quoted ''keepalive'' @ ''}'' @ newline"

text \<open>The subscription loop; \<open>n\<close> counts the writes.\<close>

fun stream_loop :: "(nat \<Rightarrow> bool) \<Rightarrow> nat \<Rightarrow> nat \<Rightarrow> stream_event list \<Rightarrow> string list" where
  "stream_loop ok n last_version [] = []"
| "stream_loop ok n last_version (StreamClosed # evs) = []"
| "stream_loop ok n last_version (SnapshotChanged snap # evs) =
     (if qs_version snap = last_version then stream_loop ok n last_version evs
      else event_line ''status'' snap #
             (if ok n then stream_loop ok (n + 1) (qs_version snap) evs else []))"
| "stream_loop ok n last_version (KeepaliveDue # evs) =
     keepalive_line # (if ok n then stream_loop ok (n + 1) last_version evs else [])"

definition run_query :: "peer_io \<Rightarrow> query_type \<Rightarrow> connection" where
  "run_query io q =
     (let snap = io_snapshot io; okline = (\<lambda>s. ''OK '' @ s @ newline);
          slow = \<lparr>cn_commands = [], cn_queries = [q],
                  cn_out = [case io_reply io of
                              QueryAnswered s \<Rightarrow> okline s
                            | QueryDropped \<Rightarrow> ''ERROR query response channel dropped'' @ newline
                            | QueryTimeout \<Rightarrow> ''ERROR query timeout'' @ newline
                            | QueryClosed \<Rightarrow> ''ERROR query channel closed'' @ newline],
                  cn_failed = False\<rparr>
      in case q of
           QStatus \<Rightarrow> reply [okline (qs_status_json snap)]
         | QState \<Rightarrow> reply [okline (qs_state_json snap)]
         | QConfig \<Rightarrow> reply [okline (qs_config_json snap)]
         | QSubscribe \<Rightarrow> reply (event_line ''snapshot'' snap
                                 # stream_loop (io_write_ok io) 0 (qs_version snap) (io_stream io))
         | _ \<Rightarrow> (if io_reply io = QueryClosed then slow\<lparr>cn_queries := []\<rparr> else slow))"

definition run_action :: "ip_addr \<Rightarrow> peer_io \<Rightarrow> string \<Rightarrow> command \<Rightarrow> connection" where
  "run_action peer io trimmed cmd =
     (if is_privileged_command cmd \<and> \<not> is_localhost peer
      then reply [''ERROR privileged command requires localhost'' @ newline]
      else if io_command_open io
      then (reply [''OK '' @ to_uppercase trimmed @ newline])\<lparr>cn_commands := [cmd]\<rparr>
      else reply [''ERROR command channel closed'' @ newline])"

definition handle_connection :: "ip_addr \<Rightarrow> string list \<Rightarrow> peer_io \<Rightarrow> connection" where
  "handle_connection peer control_from io =
     (if \<not> is_allowed peer control_from then reply [''ERROR not authorized'' @ newline]
      else (case io_read io of
              ReadEof \<Rightarrow> reply []
            | ReadFailed \<Rightarrow> (reply [])\<lparr>cn_failed := True\<rparr>
            | ReadTimeout \<Rightarrow> reply []
            | ReadLine line \<Rightarrow>
                (let trimmed = trim line
                 in case parse_command trimmed of
                      Some (Action cmd) \<Rightarrow> run_action peer io trimmed cmd
                    | Some (QueryCmd q) \<Rightarrow> run_query io q
                    | None \<Rightarrow> reply [''ERROR unknown command: '' @ trimmed @ newline])))"


section \<open>CIDR blocks\<close>

lemma mask_eq_iff:
  fixes a b :: "'a::len word"
  shows "(a AND push_bit k (- 1)) = (b AND push_bit k (- 1)) \<longleftrightarrow> drop_bit k a = drop_bit k b"
proof
  assume l: "(a AND push_bit k (- 1)) = (b AND push_bit k (- 1))"
  have "bit (drop_bit k a) n = bit (drop_bit k b) n" for n
  proof -
    have "bit (a AND push_bit k (- 1)) (k + n) = bit (b AND push_bit k (- 1)) (k + n)" using l by simp
    then show ?thesis by (auto simp: bit_simps dest: bit_imp_le_length)
  qed
  then show "drop_bit k a = drop_bit k b" by (simp add: bit_eq_iff)
next
  assume r: "drop_bit k a = drop_bit k b"
  have "bit (a AND push_bit k (- 1)) n = bit (b AND push_bit k (- 1)) n" for n
    using r by (cases "k \<le> n") (auto simp: bit_eq_iff bit_simps dest: spec [of _ "n - k"])
  then show "(a AND push_bit k (- 1)) = (b AND push_bit k (- 1))" by (simp add: bit_eq_iff)
qed

lemma cidr_contains_iff:
  "cidr_contains (V4 net) p (V4 ip) \<longleftrightarrow> p \<le> 32 \<and> drop_bit (32 - p) ip = drop_bit (32 - p) net"
  "cidr_contains (V6 net6) p (V6 ip6) \<longleftrightarrow> p \<le> 128 \<and> drop_bit (128 - p) ip6 = drop_bit (128 - p) net6"
proof -
  have full: "drop_bit 32 w = 0" for w :: "32 word" by (rule bit_eqI) (auto simp: bit_simps dest: bit_imp_le_length)
  have full6: "drop_bit 128 w = 0" for w :: "128 word" by (rule bit_eqI) (auto simp: bit_simps dest: bit_imp_le_length)
  show "cidr_contains (V4 net) p (V4 ip) \<longleftrightarrow> p \<le> 32 \<and> drop_bit (32 - p) ip = drop_bit (32 - p) net"
    unfolding cidr_contains.simps Let_def mask_eq_iff by (auto simp: full)
  show "cidr_contains (V6 net6) p (V6 ip6) \<longleftrightarrow> p \<le> 128 \<and> drop_bit (128 - p) ip6 = drop_bit (128 - p) net6"
    unfolding cidr_contains.simps Let_def mask_eq_iff by (auto simp: full6)
qed

section \<open>Dotted addresses\<close>

lemma show_nat_hd: "n > 0 \<Longrightarrow> hd (show_nat n) \<noteq> CHR ''0''"
proof (induction n rule: show_nat.induct)
  case (1 n)
  have z: "d > 0 \<Longrightarrow> d < 10 \<Longrightarrow> digit_char d \<noteq> CHR ''0''" for d
    using digit_char_code [of d] by auto
  show ?case
  proof (cases "n < 10")
    case True
    then show ?thesis using z "1.prems" by (subst show_nat.simps) simp
  next
    case False
    then show ?thesis using "1.IH" by (subst show_nat.simps) (simp add: div_greater_zero_iff)
  qed
qed

lemma show_nat_len: "n < 1000 \<Longrightarrow> length (show_nat n) \<le> 3"
  by (subst show_nat.simps, subst show_nat.simps, subst show_nat.simps) auto

lemma show_nat_len1: "n < 10 \<Longrightarrow> length (show_nat n) = 1"
  by (subst show_nat.simps) auto

lemma read_octet_show:
  assumes "n < 256" and "rest = [] \<or> \<not> is_digit (hd rest)"
  shows "read_octet (show_nat n @ rest) = Some (n, rest)"
proof -
  have dig: "\<forall>c \<in> set (show_nat n). is_digit c" by (simp add: show_nat_chars)
  have t: "takeWhile is_digit (show_nat n @ rest) = show_nat n" "dropWhile is_digit (show_nat n @ rest) = rest"
    using dig assms(2) by (cases rest; simp add: takeWhile_append2 dropWhile_append2)+
  have z: "\<not> (hd (show_nat n) = CHR ''0'' \<and> length (show_nat n) > 1)"
    using show_nat_hd [of n] show_nat_len1 [of 0] by (cases "n = 0") auto
  show ?thesis
    unfolding read_octet_def t Let_def using z show_nat_len [of n] assms(1) by simp
qed

lemma octets_bounds: "octets w = [a, b, c, d] \<Longrightarrow> a < 256 \<and> b < 256 \<and> c < 256 \<and> d < 256"
  by (auto simp: octets_def)

lemma octets_value:
  "word_of_parts 256 (octets w) = unat w"
proof -
  define x where "x = unat w"
  have lt: "x < 2 ^ 32" using unsigned_less [of w] by (simp add: x_def)
  have s: "x div 65536 = x div 256 div 256" "x div 16777216 = x div 256 div 256 div 256"
    by (simp_all add: div_mult2_eq [symmetric])
  have "x div 256 div 256 div 256 < 256" using lt by (simp add: div_mult2_eq [symmetric] less_mult_imp_div_less)
  then have "256 * (256 * (256 * (x div 16777216 mod 256) + x div 65536 mod 256) + x div 256 mod 256) + x mod 256 = x"
    unfolding s by (metis (no_types) mod_less mult_div_mod_eq)
  moreover have "x div 16777216 mod 256 = x div 16777216" using lt by simp
  moreover have d: "unat (drop_bit i w) = x div 2 ^ i" for i
    unfolding unat_drop_bit_eq x_def by (rule drop_bit_eq_div)
  ultimately show ?thesis unfolding octets_def d x_def [symmetric] by (simp add: word_of_parts_def)
qed

lemma read_octets_show:
  assumes "a < 256" "b < 256" "c < 256" "d < 256"
  shows "read_octets 4 0 (join_with ''.'' (map show_nat [a, b, c, d])) = Some ([a, b, c, d], [])"
proof -
  have dot: "\<not> is_digit CHR ''.''" by (simp add: is_digit_def)
  show ?thesis
    using assms read_octet_show [where rest = "[]"]
    by (simp add: eval_nat_numeral read_sep_def read_octet_show dot)
qed

lemma parse_show_ipv4: "parse_ip (show_ipv4 w) = Some (V4 w)"
proof -
  obtain a b c d where o: "octets w = [a, b, c, d]" by (simp add: octets_def)
  have "read_octets 4 0 (show_ipv4 w) = Some (octets w, [])"
    using read_octets_show octets_bounds [OF o] by (simp add: show_ipv4_def o)
  then show ?thesis using octets_value [of w] by (simp add: parse_ip_def)
qed

lemma show_ipv4_chars: "x \<in> set (show_ipv4 w) \<Longrightarrow> is_digit x \<or> x = CHR ''.''"
  by (auto simp: show_ipv4_def octets_def dest: show_nat_chars)

section \<open>Words of a line\<close>

lemma split_ws_acc_word:
  "\<forall>c \<in> set k. \<not> is_ws c \<Longrightarrow> split_ws_acc (k @ s) acc = split_ws_acc s (rev k @ acc)"
  by (induction k arbitrary: acc) auto

lemma split_ws_word: "k \<noteq> [] \<Longrightarrow> \<forall>c \<in> set k. \<not> is_ws c \<Longrightarrow> split_whitespace k = [k]"
  using split_ws_acc_word [of k "[]" "[]"] by (simp add: split_whitespace_def)

lemma split_ws_cons:
  "k \<noteq> [] \<Longrightarrow> \<forall>c \<in> set k. \<not> is_ws c \<Longrightarrow> split_whitespace (k @ CHR '' '' # r) = k # split_whitespace r"
  using split_ws_acc_word [of k "CHR '' '' # r" "[]"] by (simp add: split_whitespace_def is_ws_def)

lemma trim_id_iff: "s \<noteq> [] \<Longrightarrow> trim s = s \<longleftrightarrow> \<not> is_ws (hd s) \<and> \<not> is_ws (last s)"
proof -
  assume n: "s \<noteq> []"
  have r: "dropWhile is_ws (rev t) = rev t \<longleftrightarrow> t = [] \<or> \<not> is_ws (last t)" for t
    by (auto simp: dropWhile_eq_self_iff hd_rev)
  have len: "length (trim s) \<le> length (dropWhile is_ws s)"
    using length_dropWhile_le [of is_ws "rev (dropWhile is_ws s)"]
    by (simp add: trim_def trim_start_def trim_end_def)
  show ?thesis
  proof
    assume t: "trim s = s"
    with len have "dropWhile is_ws s = s"
      by (metis append_self_conv2 le_antisym length_append length_dropWhile_le takeWhile_dropWhile_id add_cancel_left_left length_0_conv)
    moreover from this t have "rev (dropWhile is_ws (rev s)) = s" by (simp add: trim_def trim_start_def trim_end_def)
    ultimately show "\<not> is_ws (hd s) \<and> \<not> is_ws (last s)"
      using n r [of s] by (metis dropWhile_eq_self_iff rev_rev_ident)
  next
    assume "\<not> is_ws (hd s) \<and> \<not> is_ws (last s)"
    then have "dropWhile is_ws s = s" "dropWhile is_ws (rev s) = rev s"
      using n r [of s] by (auto simp: dropWhile_eq_self_iff)
    then show "trim s = s" by (simp add: trim_def trim_start_def trim_end_def)
  qed
qed

lemma trim_pad:
  assumes "\<forall>c \<in> set a. is_ws c" "\<forall>c \<in> set b. is_ws c" "s \<noteq> []" "trim s = s"
  shows "trim (a @ s @ b) = s"
proof -
  have h: "\<not> is_ws (hd s)" "\<not> is_ws (last s)" using assms(3,4) by (simp_all add: trim_id_iff)
  have "dropWhile is_ws (a @ s @ b) = s @ b"
    using assms(1,3) h by (cases s) (simp_all add: dropWhile_append2)
  moreover have "dropWhile is_ws (rev b @ rev s) = rev s"
  proof -
    have "dropWhile is_ws (rev b @ rev s) = dropWhile is_ws (rev s)"
      by (rule dropWhile_append2) (use assms(2) in simp)
    also have "\<dots> = rev s" using h assms(3) by (simp add: dropWhile_eq_self_iff hd_rev)
    finally show ?thesis .
  qed
  ultimately show ?thesis by (simp add: trim_def trim_start_def trim_end_def)
qed

lemma split_once_word: "d \<notin> set a \<Longrightarrow> split_once d (a @ d # b) = Some (a, b)"
proof -
  assume "d \<notin> set a"
  then have "takeWhile (\<lambda>c. c \<noteq> d) (a @ d # b) = a" "dropWhile (\<lambda>c. c \<noteq> d) (a @ d # b) = d # b"
    by (induction a) auto
  then show ?thesis by (simp add: split_once_def)
qed

lemma split_once_none: "d \<notin> set s \<Longrightarrow> split_once d s = None"
proof -
  assume "d \<notin> set s"
  then have "dropWhile (\<lambda>c. c \<noteq> d) s = []" by (induction s) auto
  then show ?thesis unfolding split_once_def by (simp only: list.case)
qed

lemma char_eq_code: "c = d \<longleftrightarrow> (of_char c :: nat) = of_char d"
  by simp

lemma is_ws_code: "is_ws c \<longleftrightarrow> (of_char c :: nat) \<in> {32, 9, 10, 11, 12, 13}"
proof -
  have v: "(of_char CHR '' '' :: nat) = 32" "(of_char CHR 0x09 :: nat) = 9" "(of_char CHR 0x0A :: nat) = 10"
    "(of_char CHR 0x0B :: nat) = 11" "(of_char CHR 0x0C :: nat) = 12" "(of_char CHR 0x0D :: nat) = 13"
    by simp_all
  show ?thesis unfolding is_ws_def insert_iff empty_iff char_eq_code v ..
qed

lemma upper_ws: "is_ws (to_upper_char c) = is_ws c"
  by (auto simp: to_upper_char_def is_ws_code Let_def)

section \<open>What an allow-list admits\<close>

lemma parse_uint_show: "parse_uint mx (show_nat n) = (if n \<le> mx then Some n else None)"
proof (cases "n \<le> mx")
  case False
  obtain c cs where s: "show_nat n = c # cs" by (cases "show_nat n") auto
  then have "c \<noteq> CHR ''+''" by (metis digit_neq list.set_intros(1) show_nat_chars)
  with False s show ?thesis using digits_val_show_nat [of n] by (simp add: parse_uint_def parse_digits_def)
qed (simp add: parse_show_nat)

lemma entry_block:
  "entry_allows (V4 a) (show_ipv4 net @ ''/'' @ show_nat p) \<longleftrightarrow> p \<le> 32 \<and> drop_bit (32 - p) a = drop_bit (32 - p) net"
proof -
  let ?e = "show_ipv4 net @ CHR ''/'' # show_nat p"
  have slash: "CHR ''/'' \<notin> set (show_ipv4 w)" for w using show_ipv4_chars by (fastforce simp: is_digit_def)
  have "\<forall>c \<in> set ?e. \<not> is_ws c"
    using show_ipv4_chars [of _ net] show_nat_ws_free [of p] by (fastforce simp: is_ws_def is_digit_def)
  then have t: "trim ?e = ?e" by (rule trim_no_ws)
  have s: "split_once CHR ''/'' ?e = Some (show_ipv4 net, show_nat p)" by (rule split_once_word [OF slash])
  have ne: "?e \<noteq> x" if "CHR ''/'' \<notin> set x" for x using that by (metis in_set_conv_decomp)
  have n: "?e \<noteq> ''*''" "?e \<noteq> show_ipv4 a" "?e \<noteq> ''127.0.0.1''" "?e \<noteq> ''::1''"
    by (rule ne, simp add: slash)+
  have "entry_allows (V4 a) ?e \<longleftrightarrow> p \<le> u32_max \<and> cidr_contains (V4 net) p (V4 a)"
    unfolding entry_allows_def Let_def t s using n
    by (auto simp: parse_show_ipv4 parse_uint_show simp del: cidr_contains.simps)
  also have "\<dots> \<longleftrightarrow> p \<le> 32 \<and> drop_bit (32 - p) a = drop_bit (32 - p) net"
    unfolding cidr_contains_iff by (auto simp: u32_max_def)
  finally show ?thesis by simp
qed

text \<open>
  An allow-list block admits exactly its prefix. The entry \<open>net/p\<close>, written with the
  dotted form of any IPv4 network, admits an IPv4 address iff \<open>p\<close> is at most 32 and the
  first \<open>p\<close> bits agree; the mask arithmetic on IPv6 addresses does the same with 128 bits,
  and a block of one family never admits the other. In particular the shipped
  \<open>172.0.0.0/8\<close> admits every address whose first octet is 172.
\<close>

theorem cidr_block_admits:
  "(is_allowed (V4 a) [show_ip (V4 net) @ ''/'' @ show_nat p]
      \<longleftrightarrow> p \<le> 32 \<and> drop_bit (32 - p) a = drop_bit (32 - p) net)
   \<and> (cidr_contains (V6 net6) p (V6 a6) \<longleftrightarrow> p \<le> 128 \<and> drop_bit (128 - p) a6 = drop_bit (128 - p) net6)
   \<and> \<not> cidr_contains (V4 net) p (V6 a6) \<and> \<not> cidr_contains (V6 net6) p (V4 a)
   \<and> is_allowed (V4 a) [''172.0.0.0/8''] = (unat a div 2 ^ 24 = 172)"
proof -
  have o: "octets 0xAC000000 = [172, 0, 0, 0]" by (simp add: octets_def)
  have "''172.0.0.0/8'' = show_ipv4 0xAC000000 @ ''/'' @ show_nat 8"
    by (simp add: show_ipv4_def o show_nat.simps digit_char_def char_of_def bit_0)
  then have "is_allowed (V4 a) [''172.0.0.0/8''] \<longleftrightarrow> drop_bit 24 a = drop_bit 24 0xAC000000"
    using entry_block [of a "0xAC000000" 8] by (simp add: is_allowed_def)
  also have "\<dots> \<longleftrightarrow> unat a div 2 ^ 24 = 172"
  proof -
    have "unat (drop_bit 24 a) = unat a div 2 ^ 24" unfolding unat_drop_bit_eq by (rule drop_bit_eq_div)
    moreover have "drop_bit 24 (0xAC000000 :: 32 word) = 172" by simp
    moreover have "drop_bit 24 a = 172 \<longleftrightarrow> unat (drop_bit 24 a) = unat (172 :: 32 word)"
      by (simp only: word_unat_eq_iff)
    ultimately show ?thesis by simp
  qed
  finally show ?thesis
    using entry_block [of a net p] cidr_contains_iff(2) [of net6 p a6] by (simp add: is_allowed_def)
qed

section \<open>Who may do what\<close>

lemma handle_connection_commands:
  assumes "c \<in> set (cn_commands (handle_connection peer allow io))"
  shows "cn_commands (handle_connection peer allow io) = [c] \<and> is_allowed peer allow
      \<and> (\<exists>line. io_read io = ReadLine line \<and> parse_command (trim line) = Some (Action c))
      \<and> (is_privileged_command c \<longrightarrow> is_localhost peer)"
proof -
  have q: "cn_commands (run_query io q) = []" for q by (simp add: run_query_def reply_def Let_def split: query_type.split)
  have a: "c \<in> set (cn_commands (run_action peer io t cmd)) \<Longrightarrow>
      c = cmd \<and> cn_commands (run_action peer io t cmd) = [cmd] \<and> (is_privileged_command cmd \<longrightarrow> is_localhost peer)" for c t cmd
    by (auto simp: run_action_def reply_def split: if_splits)
  show ?thesis
    using assms
    by (auto simp: handle_connection_def Let_def q reply_def dest: a
        split: if_splits read_outcome.splits option.splits parsed_command.splits)
qed

text \<open>
  C10. A connection forwards at most one command, and only one it may: the peer is on the
  allow-list, the line it sent parses to that command, and a command that is privileged
  (SETSTATE, PAUSE, EXIT, HITL\_RESUME, RESUME\_RECONNECT) comes from a loopback address. A
  peer that is not on the list gets one error line and reaches neither channel, whatever it
  sends.
\<close>

theorem connection_authorized:
  "(\<forall>c \<in> set (cn_commands (handle_connection peer allow io)).
      cn_commands (handle_connection peer allow io) = [c] \<and> is_allowed peer allow
      \<and> (\<exists>line. io_read io = ReadLine line \<and> parse_command (trim line) = Some (Action c))
      \<and> (is_privileged_command c \<longrightarrow> is_localhost peer))
   \<and> (\<not> is_allowed peer allow \<longrightarrow>
        cn_commands (handle_connection peer allow io) = [] \<and> cn_queries (handle_connection peer allow io) = []
        \<and> cn_out (handle_connection peer allow io) = [''ERROR not authorized'' @ newline])"
  using handle_connection_commands [of _ peer allow io] by (auto simp: handle_connection_def reply_def)

definition io_example :: "string \<Rightarrow> peer_io" where
  "io_example line = \<lparr>io_read = ReadLine line, io_command_open = True,
     io_snapshot = \<lparr>qs_version = 1, qs_status_json = ''{}'', qs_state_json = ''{}'', qs_config_json = ''{}''\<rparr>,
     io_reply = QueryTimeout, io_stream = [], io_write_ok = (\<lambda>_. True)\<rparr>"

theorem connection_authorized_witness:
  "cn_commands (handle_connection (V4 0x7F000001) [''*''] (io_example ''exit'')) = [CmdExit]
   \<and> is_localhost (V4 0x7F000001)
   \<and> cn_commands (handle_connection (V4 0xAC110002) [''*''] (io_example ''exit'')) = []"
proof -
  have al: "is_allowed p [''*'']" for p by (simp add: is_allowed_def entry_allows_def trim_def trim_start_def trim_end_def is_ws_def)
  have tr: "trim ''exit'' = ''exit''" by (simp add: trim_def trim_start_def trim_end_def is_ws_def)
  have up: "split_whitespace (to_uppercase ''exit'') = [''EXIT'']" by code_simp
  have pc: "parse_command ''exit'' = Some (Action CmdExit)" by (simp add: parse_command_def tr up parse_keyword_def)
  have rl: "io_read (io_example s) = ReadLine s" "io_command_open (io_example s)" for s by (simp_all add: io_example_def)
  have r: "handle_connection p [''*''] (io_example ''exit'') = run_action p (io_example ''exit'') ''exit'' CmdExit" for p
    by (simp add: handle_connection_def al rl tr pc Let_def)
  have lo: "is_localhost (V4 0x7F000001)" "\<not> is_localhost (V4 0xAC110002)" by (simp_all add: octets_def)
  have one: "cn_commands (handle_connection (V4 0x7F000001) [''*''] (io_example ''exit'')) = [CmdExit]"
    by (simp add: r run_action_def rl lo reply_def del: is_localhost.simps)
  have "CmdExit \<notin> set (cn_commands (handle_connection (V4 0xAC110002) [''*''] (io_example ''exit'')))"
    using connection_authorized [of "V4 0xAC110002" "[''*'']" "io_example ''exit''"] lo
    by (auto simp del: is_localhost.simps)
  moreover have "set (cn_commands (run_action p io t CmdExit)) \<subseteq> {CmdExit}" for p io t
    by (simp add: run_action_def reply_def)
  ultimately have "cn_commands (handle_connection (V4 0xAC110002) [''*''] (io_example ''exit'')) = []"
    unfolding r by (metis empty_set insert_absorb insert_not_empty set_empty subset_singletonD singletonI)
  with one lo show ?thesis by blast
qed

section \<open>Wire forms\<close>

text \<open>How a client writes a command, and the arguments the line format can carry.\<close>

fun wire_form :: "command \<Rightarrow> string" where
  "wire_form CmdStop = ''STOP''" | "wire_form CmdStart = ''START''" | "wire_form CmdRestart = ''RESTART''"
| "wire_form CmdReconnectData = ''RECONNECTDATA''" | "wire_form CmdReconnectAccount = ''RECONNECTACCOUNT''"
| "wire_form CmdEnableApi = ''ENABLEAPI''" | "wire_form CmdExit = ''EXIT''"
| "wire_form CmdRestartSocat = ''RESTARTSOCAT''" | "wire_form CmdPause = ''PAUSE''"
| "wire_form (CmdPauseAt s) = ''PAUSE'' @ CHR '' '' # s" | "wire_form CmdResume = ''RESUME''"
| "wire_form (CmdSetState s) = ''SETSTATE'' @ CHR '' '' # s"
| "wire_form (CmdIbStatus st r) = ''IBSTATUS'' @ CHR '' '' # st @ (if r = [] then [] else CHR '' '' # r)"
| "wire_form (CmdSetRestartTime t) = ''SETRESTART'' @ CHR '' '' # t"
| "wire_form CmdSaveSettings = ''SAVESETTINGS''" | "wire_form CmdHitlResume = ''HITL_RESUME''"
| "wire_form (CmdResumeReconnect t) = ''RESUME_RECONNECT'' @ CHR '' '' # t"

definition is_word :: "string \<Rightarrow> bool" where
  "is_word s \<longleftrightarrow> s \<noteq> [] \<and> list_all (\<lambda>c. \<not> is_ws c) s"

definition is_text :: "string \<Rightarrow> bool" where
  "is_text s \<longleftrightarrow> s \<noteq> [] \<and> trim s = s"

fun carried :: "command \<Rightarrow> bool" where
  "carried (CmdPauseAt s) = is_word s"
| "carried (CmdSetState s) = is_word s"
| "carried (CmdIbStatus st r) =
     (st \<in> set ib_statuses \<and> (r = [] \<or> is_text r)
      \<and> trim_matches (\<lambda>c. c = quote_char) r = r \<and> list_all (\<lambda>c. \<not> is_control c) r \<and> length r \<le> 256)"
| "carried (CmdSetRestartTime t) = is_text t"
| "carried (CmdResumeReconnect t) = is_text t"
| "carried c = True"

lemma upper_words: "list_all (\<lambda>c. \<not> is_ws c) s \<Longrightarrow> \<forall>c \<in> set (to_uppercase s). \<not> is_ws c"
  by (simp add: to_uppercase_def upper_ws list_all_iff)

lemma is_wordD: "is_word s \<Longrightarrow> s \<noteq> [] \<and> (\<forall>c \<in> set s. \<not> is_ws c)"
  by (simp add: is_word_def list_all_iff)

text \<open>A line that starts with an upper-case keyword and goes on after a space.\<close>

lemma parse_with_argument:
  assumes "is_word k" "to_uppercase k = k" "is_text arg"
  shows "parse_command (k @ CHR '' '' # arg) = parse_keyword k (split_whitespace (to_uppercase arg)) (k @ CHR '' '' # arg)"
    and "trim (k @ CHR '' '' # arg) = k @ CHR '' '' # arg"
proof -
  have k: "k \<noteq> []" "\<forall>c \<in> set k. \<not> is_ws c" using assms(1) is_wordD by blast+
  have a: "arg \<noteq> []" "\<not> is_ws (last arg)" using assms(3) by (auto simp: is_text_def trim_id_iff)
  show t: "trim (k @ CHR '' '' # arg) = k @ CHR '' '' # arg" using k a by (subst trim_id_iff) auto
  have "to_uppercase (k @ CHR '' '' # arg) = k @ CHR '' '' # to_uppercase arg"
    using assms(2) by (simp add: to_uppercase_def to_upper_char_def)
  then show "parse_command (k @ CHR '' '' # arg) = parse_keyword k (split_whitespace (to_uppercase arg)) (k @ CHR '' '' # arg)"
    using t k by (simp add: parse_command_def split_ws_cons)
qed

lemma parse_plain:
  assumes "is_word k" "to_uppercase k = k"
  shows "parse_command k = parse_keyword k [] k" and "trim k = k"
proof -
  have k: "k \<noteq> []" "\<forall>c \<in> set k. \<not> is_ws c" using assms(1) is_wordD by blast+
  then show t: "trim k = k" using trim_no_ws by blast
  show "parse_command k = parse_keyword k [] k"
    unfolding parse_command_def Let_def t assms(2) split_ws_word [OF k] by simp
qed

lemma word_is_text: "is_word s \<Longrightarrow> is_text s"
  using trim_no_ws by (auto simp: is_text_def is_word_def list_all_iff)

lemma keyword_arg_eqs:
  "parse_keyword ''PAUSE'' args t = Some (Action (parse_pause t))"
  "parse_keyword ''SETSTATE'' args t = map_option Action (parse_set_state t)"
  "parse_keyword ''RESUME_RECONNECT'' args t = map_option Action (parse_rest CmdResumeReconnect t)"
  "parse_keyword ''SETRESTART'' args t = map_option Action (parse_rest CmdSetRestartTime t)"
  "parse_keyword ''IBSTATUS'' args t = map_option Action (parse_ib_status t)"
  by (simp_all add: parse_keyword_def)

lemma argument_words:
  assumes "is_word k" "is_word s"
  shows "slice_get 1 (split_whitespace (k @ CHR '' '' # s)) = Some s"
  using assms [THEN is_wordD] by (simp add: split_ws_cons split_ws_word slice_get_def)

lemma argument_rest:
  assumes "is_word k" "is_text t"
  shows "parse_rest mk (k @ CHR '' '' # t) = Some (mk t)"
proof -
  have "CHR '' '' \<notin> set k" using is_wordD [OF assms(1)] by (auto simp: is_ws_def)
  then have "splitn 2 CHR '' '' (k @ CHR '' '' # t) = [k, t]"
    by (simp add: eval_nat_numeral split_once_word)
  then show ?thesis using assms(2) by (simp add: parse_rest_def slice_get_def or_empty_def is_text_def)
qed

lemma argument_status:
  assumes "is_word k" "carried (CmdIbStatus st r)"
  shows "parse_ib_status (k @ CHR '' '' # st @ (if r = [] then [] else CHR '' '' # r)) = Some (CmdIbStatus st r)"
proof -
  let ?t = "k @ CHR '' '' # st @ (if r = [] then [] else CHR '' '' # r)"
  have k: "CHR '' '' \<notin> set k" using is_wordD [OF assms(1)] by (auto simp: is_ws_def)
  have st: "CHR '' '' \<notin> set st" "st \<in> set ib_statuses" using assms(2) by (auto simp: ib_statuses_def)
  have none: "split_once CHR '' '' st = None" by (rule split_once_none [OF st(1)])
  have "splitn 3 CHR '' '' ?t = k # st # (if r = [] then [] else [r])"
    using split_once_word [OF k] split_once_word [OF st(1)] none by (simp add: eval_nat_numeral)
  moreover have "clean_reason r = r" using assms(2) by (simp add: clean_reason_def filter_id_conv list_all_iff)
  ultimately show ?thesis
    using assms(2) st(2) by (simp add: parse_ib_status_def slice_get_def clean_reason_def)
qed

lemma status_text: "carried (CmdIbStatus st r) \<Longrightarrow> is_text (st @ (if r = [] then [] else CHR '' '' # r))"
  by (auto simp: is_text_def trim_id_iff ib_statuses_def is_ws_def)

lemma wire_form_parses:
  assumes "carried c"
  shows "parse_command (wire_form c) = Some (Action c) \<and> is_text (wire_form c)"
proof -
  have plain: "parse_command k = parse_keyword k [] k \<and> is_text k" if "is_word k" "to_uppercase k = k" for k
    using parse_plain [OF that] that(1) word_is_text by blast
  have arg: "parse_command (k @ CHR '' '' # t) = parse_keyword k (split_whitespace (to_uppercase t)) (k @ CHR '' '' # t)
      \<and> is_text (k @ CHR '' '' # t)" if "is_word k" "to_uppercase k = k" "is_text t" for k t
    using parse_with_argument [OF that] by (simp add: is_text_def)
  have w: "is_word ''PAUSE''" "is_word ''SETSTATE''" "is_word ''RESUME_RECONNECT''" "is_word ''SETRESTART''" "is_word ''IBSTATUS''"
    and u: "to_uppercase ''PAUSE'' = ''PAUSE''" "to_uppercase ''SETSTATE'' = ''SETSTATE''"
      "to_uppercase ''RESUME_RECONNECT'' = ''RESUME_RECONNECT''" "to_uppercase ''SETRESTART'' = ''SETRESTART''"
      "to_uppercase ''IBSTATUS'' = ''IBSTATUS''"
    by (simp_all add: is_word_def is_ws_def to_uppercase_def to_upper_char_def)
  show ?thesis
  proof (cases c)
    case (CmdPauseAt s)
    then have s: "is_word s" using assms by simp
    show ?thesis
      unfolding CmdPauseAt wire_form.simps
      using arg [OF w(1) u(1) word_is_text [OF s]] argument_words [OF w(1) s]
      by (simp only: keyword_arg_eqs parse_pause_def option.case)
  next
    case (CmdSetState s)
    then have s: "is_word s" using assms by simp
    show ?thesis
      unfolding CmdSetState wire_form.simps
      using arg [OF w(2) u(2) word_is_text [OF s]] argument_words [OF w(2) s] is_wordD [OF s]
      by (simp only: keyword_arg_eqs parse_set_state_def or_empty_def option.case Let_def if_False option.map)
  next
    case (CmdResumeReconnect t)
    then have s: "is_text t" using assms by simp
    show ?thesis
      unfolding CmdResumeReconnect wire_form.simps
      using arg [OF w(3) u(3) s] argument_rest [OF w(3) s] by (simp only: keyword_arg_eqs option.map)
  next
    case (CmdSetRestartTime t)
    then have s: "is_text t" using assms by simp
    show ?thesis
      unfolding CmdSetRestartTime wire_form.simps
      using arg [OF w(4) u(4) s] argument_rest [OF w(4) s] by (simp only: keyword_arg_eqs option.map)
  next
    case (CmdIbStatus st r)
    then have s: "carried (CmdIbStatus st r)" using assms by simp
    show ?thesis
      unfolding CmdIbStatus wire_form.simps
      using arg [OF w(5) u(5) status_text [OF s]] argument_status [OF w(5) s] by (simp only: keyword_arg_eqs option.map)
  qed (use plain in \<open>simp_all add: is_word_def is_ws_def to_uppercase_def to_upper_char_def parse_keyword_def
        parse_pause_def split_whitespace_def slice_get_def\<close>)
qed

text \<open>
  C36. Every command survives the wire: written in its line form, with any blanks or line
  ends around it, a command parses back to itself, provided its arguments fit the format
  (state names are single words, times and tokens are trimmed and not empty, an IB status is
  one of the four known values with a reason of at most 256 characters without control
  characters or quotes at its ends).
\<close>

theorem command_wire_roundtrip:
  assumes "carried c" and "list_all is_ws before" and "list_all is_ws after"
  shows "parse_command (before @ wire_form c @ after) = Some (Action c)"
proof -
  have w: "wire_form c \<noteq> []" "trim (wire_form c) = wire_form c"
    using wire_form_parses [OF assms(1)] by (auto simp: is_text_def)
  have "trim (before @ wire_form c @ after) = wire_form c"
    using trim_pad [OF _ _ w] assms(2,3) by (simp add: list_all_iff)
  then have "parse_command (before @ wire_form c @ after) = parse_command (wire_form c)"
    by (simp add: parse_command_def w)
  then show ?thesis using wire_form_parses [OF assms(1)] by simp
qed

theorem command_wire_roundtrip_witness:
  "parse_command ('' '' @ wire_form (CmdIbStatus ''maintenance'' ''planned work'') @ newline)
     = Some (Action (CmdIbStatus ''maintenance'' ''planned work''))"
  by (rule command_wire_roundtrip)
     (simp_all add: ib_statuses_def is_text_def trim_def trim_start_def trim_end_def trim_matches_def
       quote_char_def is_ws_def is_control_def newline_def)

text \<open>
  The status argument is only found behind a space. A tab is accepted between keyword and
  status, and then every status is read as available.
\<close>

lemma tab_status_reads_available:
  "parse_command (''IBSTATUS'' @ CHR 0x09 # ''maintenance'') = Some (Action (CmdIbStatus ''available'' []))"
  by code_simp

end
