(* ===== verification/Supervisor.thy ===== *)
theory Supervisor
  imports Config_Loading Command_Server "HOL-Library.Char_ord" "HOL-Library.List_Lexorder"
begin

text \<open>
  The JVM supervisor, \<open>supervisor.rs\<close>: where the gateway, its jars and its Java runtime
  are found, the command line the JVM is started with, the scan for orphaned gateways, the
  disabling of the vendor's own launcher, and starting, stopping and polling the child.
  The file system is a lookup on path components with the directory listings in the order
  the operating system gives them; the process table and the outcomes of the system calls
  are arguments. The lemmas show the shape of every command line (the options file can
  set no system property, the token is passed exactly on a warm restart), that the orphan
  scan of a gateway finds every earlier gateway of its directory and spares the tracked
  child, that the launchers are disabled idempotently, and that a detected version has
  its jars.
\<close>

section \<open>Paths and the file system\<close>

text \<open>\<open>Path::join\<close> on the displayed path and \<open>Path::components\<close>.\<close>

definition join_path :: "string \<Rightarrow> string \<Rightarrow> string" where
  "join_path p c =
     (if starts_with c ''/'' then c
      else if p = [] \<or> last p = CHR ''/'' then p @ c
      else p @ ''/'' @ c)"

definition components :: "string \<Rightarrow> string list" where
  "components p =
     (if starts_with p ''/'' then [''/''] else [])
     @ filter (\<lambda>c. c \<noteq> [] \<and> c \<noteq> ''.'') (split_on CHR ''/'' p)"

text \<open>
  A directory holds the names its listing yields, or cannot be listed; a file holds its
  text, or is not readable as UTF-8.
\<close>

datatype fs_entry = DirEntry "string list option" | FileEntry "string option"

type_synonym fs = "string list \<Rightarrow> fs_entry option"

definition path_exists :: "fs \<Rightarrow> string \<Rightarrow> bool" where
  "path_exists f p \<longleftrightarrow> f (components p) \<noteq> None"

definition is_dir :: "fs \<Rightarrow> string \<Rightarrow> bool" where
  "is_dir f p = (case f (components p) of Some (DirEntry ns) \<Rightarrow> True | _ \<Rightarrow> False)"

definition is_file :: "fs \<Rightarrow> string \<Rightarrow> bool" where
  "is_file f p = (case f (components p) of Some (FileEntry c) \<Rightarrow> True | _ \<Rightarrow> False)"

definition read_dir :: "fs \<Rightarrow> string \<Rightarrow> string list option" where
  "read_dir f p = (case f (components p) of Some (DirEntry ns) \<Rightarrow> ns | _ \<Rightarrow> None)"

definition listed :: "fs \<Rightarrow> string \<Rightarrow> string list" where
  "listed f p = (case read_dir f p of None \<Rightarrow> [] | Some ns \<Rightarrow> map (join_path p) ns)"

text \<open>The final component, as \<open>Path::file_name\<close> and \<open>Path::parent\<close> split it off.\<close>

definition file_name :: "string \<Rightarrow> string" where
  "file_name p = (case rev (components p) of [] \<Rightarrow> [] | n # _ \<Rightarrow> n)"

section \<open>Errors, state and commands\<close>

datatype supervisor_error =
    SpawnFailed | NotRunning | NoJars string | VmOptionsFailed string
  | JavaNotFound string | VersionDetectionFailed string

record jvm_info =
  jv_pid :: "nat option"
  jv_alive :: bool
  jv_uptime :: "nat option"
  jv_config_dir :: string
  jv_agent_socket :: string

text \<open>
  The child is the process id it was started with; \<open>tokio\<close> forgets the id once the exit
  status has been collected (\<open>None\<close>).
\<close>

record supervisor =
  su_gateway :: gateway_section
  su_agent_jar :: string
  su_agent_socket :: string
  su_child :: "nat option option"
  su_shutdown_timeout_secs :: nat
  su_launched_at :: "instant option"
  su_settings_path :: string

definition supervisor_new :: "gateway_section \<Rightarrow> string \<Rightarrow> string \<Rightarrow> nat \<Rightarrow> supervisor" where
  "supervisor_new cfg jar sock timeout =
     \<lparr>su_gateway = cfg, su_agent_jar = jar, su_agent_socket = sock, su_child = None,
      su_shutdown_timeout_secs = timeout, su_launched_at = None, su_settings_path = []\<rparr>"

record jvm_command =
  cm_program :: string
  cm_args :: "string list"
  cm_env :: "(string \<times> string) list"

datatype os_signal = SigTerm | SigKill
datatype os_call = KillPid int os_signal | KillGroup nat os_signal | RenameFile string string | Spawn jvm_command

definition module_access_flags :: "string list" where
  "module_access_flags =
     [''--add-opens=java.base/java.util=ALL-UNNAMED'',
      ''--add-opens=java.base/java.util.concurrent=ALL-UNNAMED'',
      ''--add-exports=java.base/sun.util=ALL-UNNAMED'',
      ''--add-exports=java.desktop/com.sun.java.swing.plaf.motif=ALL-UNNAMED'',
      ''--add-opens=java.desktop/java.awt=ALL-UNNAMED'',
      ''--add-opens=java.desktop/java.awt.dnd=ALL-UNNAMED'',
      ''--add-opens=java.desktop/javax.swing=ALL-UNNAMED'',
      ''--add-opens=java.desktop/javax.swing.event=ALL-UNNAMED'',
      ''--add-opens=java.desktop/javax.swing.plaf.basic=ALL-UNNAMED'',
      ''--add-opens=java.desktop/javax.swing.table=ALL-UNNAMED'',
      ''--add-opens=java.desktop/sun.awt=ALL-UNNAMED'',
      ''--add-exports=java.desktop/sun.awt.X11=ALL-UNNAMED'',
      ''--add-exports=java.desktop/sun.swing=ALL-UNNAMED'',
      ''--add-exports=javafx.graphics/com.sun.javafx.application=ALL-UNNAMED'',
      ''--add-opens=jdk.management/com.sun.management.internal=ALL-UNNAMED'']"

definition gateway_main_class :: string where "gateway_main_class = ''ibgateway.GWClient''"
definition tws_main_class :: string where "tws_main_class = ''jclient.LoginFrame''"

definition main_class :: "gateway_program \<Rightarrow> string" where
  "main_class p = (case p of TwsProgram \<Rightarrow> tws_main_class | GatewayProgram \<Rightarrow> gateway_main_class)"

section \<open>Finding the version, the jars, the runtime and the options\<close>

definition detect_version :: "gateway_section \<Rightarrow> fs \<Rightarrow> string \<Rightarrow> supervisor_error + string" where
  "detect_version cfg f tws =
     (if gw_version cfg \<noteq> [] then Inr (gw_version cfg)
      else (let has_jars = (\<lambda>p. is_dir f p \<and> path_exists f (join_path p ''jars''));
                gw = join_path tws ''ibgateway''
            in case find has_jars (if path_exists f gw then listed f gw else []) of
                 Some p \<Rightarrow> Inr (''ibgateway/'' @ file_name p)
               | None \<Rightarrow>
                   (case find (\<lambda>p. has_jars p \<and> file_name p \<noteq> ''ibgateway'') (listed f tws) of
                      Some p \<Rightarrow> Inr (file_name p)
                    | None \<Rightarrow> Inl (VersionDetectionFailed tws))))"

text \<open>\<open>extension() == Some("jar")\<close>: a name that is only the extension has none.\<close>

definition has_jar_extension :: "string \<Rightarrow> bool" where
  "has_jar_extension name \<longleftrightarrow> 4 < length name \<and> starts_with (rev name) (rev ''.jar'')"

definition first_existing :: "fs \<Rightarrow> string list \<Rightarrow> string option" where
  "first_existing f ps = find (path_exists f) ps"

definition option_list :: "'a option \<Rightarrow> 'a list" where
  "option_list x = (case x of None \<Rightarrow> [] | Some v \<Rightarrow> [v])"

text \<open>The candidate directories of a version and the version directory of the jars found.\<close>

definition version_dirs :: "string \<Rightarrow> string \<Rightarrow> string list" where
  "version_dirs tws version = [join_path tws version, join_path (join_path tws ''ibgateway'') version]"

definition classpath_jars :: "fs \<Rightarrow> string \<Rightarrow> string list \<Rightarrow> string list" where
  "classpath_jars f version_dir names =
     sort (map (join_path (join_path version_dir ''jars'')) (filter has_jar_extension names)
       @ option_list (first_existing f [join_path version_dir ''i4jruntime.jar'',
           join_path (join_path version_dir ''.install4j'') ''i4jruntime.jar''])
       @ option_list (first_existing f [''/usr/share/java/java-atk-wrapper.jar'', ''/usr/share/java/jayatk.jar'']))"

definition build_classpath :: "fs \<Rightarrow> string \<Rightarrow> string \<Rightarrow> supervisor_error + string" where
  "build_classpath f tws version =
     (case find (\<lambda>d. path_exists f (join_path d ''jars'')) (version_dirs tws version) of
        None \<Rightarrow> Inl (NoJars (join_with '', '' (map (\<lambda>d. join_path d ''jars'') (version_dirs tws version))))
      | Some d \<Rightarrow>
          (case read_dir f (join_path d ''jars'') of
             None \<Rightarrow> Inl SpawnFailed
           | Some names \<Rightarrow>
               if filter has_jar_extension names = [] then Inl (NoJars (join_path d ''jars''))
               else Inr (join_with '':'' (classpath_jars f d names))))"

text \<open>\<open>str::lines\<close> followed by \<open>trim\<close>: a carriage return before the line feed is trimmed with the rest.\<close>

definition vm_options :: "string \<Rightarrow> string list" where
  "vm_options contents =
     filter (\<lambda>l. \<not> starts_with l ''-D'')
       (filter (\<lambda>l. \<not> starts_with l ''#'')
         (filter (\<lambda>l. l \<noteq> []) (map trim (split_on CHR 0x0A contents))))"

definition read_vmoptions :: "fs \<Rightarrow> string \<Rightarrow> supervisor_error + string list" where
  "read_vmoptions f p =
     (case f (components p) of
        Some (FileEntry (Some contents)) \<Rightarrow> Inr (vm_options contents)
      | _ \<Rightarrow> Inl (VmOptionsFailed p))"

definition launch_vmoptions :: "fs \<Rightarrow> string \<Rightarrow> string \<Rightarrow> supervisor_error + string list" where
  "launch_vmoptions f tws version =
     (case first_existing f (map (\<lambda>d. join_path d ''ibgateway.vmoptions'') (version_dirs tws version)) of
        None \<Rightarrow> Inr []
      | Some p \<Rightarrow> read_vmoptions f p)"

text \<open>The bundled runtimes under \<open>/usr/local/i4j_jres\<close>: of each entry its own, then those one level deeper.\<close>

definition i4j_javas :: "fs \<Rightarrow> string list" where
  "i4j_javas f =
     concat (map (\<lambda>e. map (\<lambda>p. join_path (join_path p ''bin'') ''java'') (e # listed f e))
       (listed f ''/usr/local/i4j_jres''))"

definition find_java :: "getenv \<Rightarrow> fs \<Rightarrow> string \<Rightarrow> string \<Rightarrow> supervisor_error + string" where
  "find_java env f tws version =
     (let from_env =
        (case env ''JAVA_PATH'' of
           None \<Rightarrow> None
         | Some jp \<Rightarrow> if path_exists f (jp @ ''/bin/java'') then Some (jp @ ''/bin/java'')
                      else if path_exists f jp \<and> is_file f jp then Some jp else None)
      in case from_env of
           Some bin \<Rightarrow> Inr bin
         | None \<Rightarrow>
             (case first_existing f
                (map (\<lambda>d. join_path (join_path (join_path d ''jre'') ''bin'') ''java'') (version_dirs tws version)
                 @ (if path_exists f ''/usr/local/i4j_jres'' then i4j_javas f else [])
                 @ [''/usr/bin/java'', ''/usr/local/bin/java'']) of
                Some bin \<Rightarrow> Inr bin
              | None \<Rightarrow> Inl (JavaNotFound ''no java binary found in JAVA_PATH, bundled Gateway/TWS JRE, i4j_jres, or PATH'')))"

definition settings_dir :: "gateway_section \<Rightarrow> string" where
  "settings_dir cfg = (if gw_settings_path cfg = [] then gw_tws_path cfg else gw_settings_path cfg)"

definition find_autorestart_path :: "gateway_section \<Rightarrow> fs \<Rightarrow> string option" where
  "find_autorestart_path cfg f =
     map_option file_name
       (find (\<lambda>p. is_dir f p \<and> path_exists f (join_path p ''autorestart'')) (listed f (settings_dir cfg)))"

section \<open>Orphaned gateways\<close>

text \<open>\<open>i32::from_str\<close>.\<close>

definition parse_i32 :: "string \<Rightarrow> int option" where
  "parse_i32 s =
     (case s of
        [] \<Rightarrow> None
      | c # cs \<Rightarrow>
          if c = CHR ''-'' then map_option (\<lambda>n. - int n) (parse_digits 2147483648 cs)
          else map_option int (parse_uint 2147483647 s))"

text \<open>
  An entry of \<open>/proc\<close>: its name and its command line, when that can be read as text. The
  arguments are separated by NUL bytes. \<open>pid as u32\<close> is the value modulo \<open>2 ^ 32\<close>.
\<close>

type_synonym proc_entry = "string \<times> string option"

definition replace_nul :: "string \<Rightarrow> string" where
  "replace_nul s = map (\<lambda>c. if c = CHR 0x00 then CHR '' '' else c) s"

definition config_dir_marker :: "gateway_section \<Rightarrow> string" where
  "config_dir_marker cfg = ''-DjtsConfigDir='' @ settings_dir cfg"

definition is_orphan :: "supervisor \<Rightarrow> proc_entry \<Rightarrow> int option" where
  "is_orphan su e =
     (case parse_i32 (fst e) of
        None \<Rightarrow> None
      | Some pid \<Rightarrow>
          if Option.bind (su_child su) id = Some (nat (pid mod 2 ^ 32)) then None
          else (case snd e of
                  None \<Rightarrow> None
                | Some cmdline \<Rightarrow>
                    if contains_str (replace_nul cmdline) ''ibgateway.GWClient''
                       \<and> contains_str (replace_nul cmdline) (config_dir_marker (su_gateway su))
                    then Some pid else None))"

definition kill_orphan_gateways :: "supervisor \<Rightarrow> proc_entry list \<Rightarrow> os_call list" where
  "kill_orphan_gateways su procs = map (\<lambda>pid. KillPid pid SigKill) (List.map_filter (is_orphan su) procs)"

section \<open>Disabling the vendor's launcher\<close>

text \<open>
  A rename moves the entry and its name in the listing of the directory; it may fail
  (\<open>ok\<close>), which is only logged.
\<close>

definition listing_rename :: "string \<Rightarrow> string \<Rightarrow> fs_entry option \<Rightarrow> fs_entry option" where
  "listing_rename old new e =
     (case e of
        Some (DirEntry (Some ns)) \<Rightarrow> Some (DirEntry (Some (filter (\<lambda>n. n \<noteq> old) ns @ [new])))
      | _ \<Rightarrow> e)"

definition disabled_name :: string where "disabled_name = ''ibgateway.ibctl-disabled''"

type_synonym renaming = "fs \<times> os_call list"

definition disable_in :: "(string \<Rightarrow> bool) \<Rightarrow> string \<Rightarrow> renaming \<Rightarrow> renaming" where
  "disable_in ok d r =
     (let f = fst r; launcher = join_path d ''ibgateway''; renamed = join_path d disabled_name
      in if path_exists f launcher \<and> is_file f launcher \<and> \<not> path_exists f renamed \<and> ok launcher
         then (f(components d := listing_rename ''ibgateway'' disabled_name (f (components d)),
                 components renamed := f (components launcher),
                 components launcher := None),
               snd r @ [RenameFile launcher renamed])
         else r)"

definition disable_dir :: "(string \<Rightarrow> bool) \<Rightarrow> string \<Rightarrow> renaming \<Rightarrow> renaming" where
  "disable_dir ok q r = (if is_dir (fst r) q then disable_in ok q r else r)"

definition disable_below :: "(string \<Rightarrow> bool) \<Rightarrow> string \<Rightarrow> renaming \<Rightarrow> renaming" where
  "disable_below ok p r =
     (if is_dir (fst r) p
      then (let r1 = disable_in ok p r
            in fold (disable_dir ok) (listed (fst r1) p) r1)
      else r)"

definition disable_install4j_launcher :: "(string \<Rightarrow> bool) \<Rightarrow> string \<Rightarrow> renaming \<Rightarrow> renaming" where
  "disable_install4j_launcher ok tws r =
     disable_in ok tws (fold (disable_below ok) (listed (fst r) tws) r)"

section \<open>The command line\<close>

definition atspi_enabled :: "getenv \<Rightarrow> bool" where
  "atspi_enabled env =
     (case env ''IBCTL_ATSPI_FALLBACK'' of
        None \<Rightarrow> True
      | Some v \<Rightarrow> to_lowercase (trim v) \<notin> {''0'', ''false'', ''no'', ''off'', ''disabled''})"

definition atspi_native_dir :: "fs \<Rightarrow> string option" where
  "atspi_native_dir f =
     find (\<lambda>d. path_exists f (join_path d ''libatk-wrapper.so''))
       [''/usr/lib/x86_64-linux-gnu/jni'', ''/usr/lib/aarch64-linux-gnu/jni'', ''/usr/lib/jni'']"

definition atspi_args :: "getenv \<Rightarrow> fs \<Rightarrow> string \<Rightarrow> string list" where
  "atspi_args env f classpath =
     (if atspi_enabled env
         \<and> (contains_str classpath ''java-atk-wrapper'' \<or> contains_str classpath ''jayatk'')
      then (case atspi_native_dir f of
              None \<Rightarrow> []
            | Some d \<Rightarrow> [''-Djava.library.path='' @ d,
                ''-Djavax.accessibility.assistive_technologies=org.GNOME.Accessibility.AtkWrapper'',
                ''-Djavax.accessibility.screen_magnifier_present=true''])
      else [])"

definition own_properties :: "gateway_section \<Rightarrow> string list" where
  "own_properties cfg =
     [config_dir_marker cfg,
      ''-Dtwslaunch.autoupdate.serviceImpl=com.ib.tws.twslaunch.install4j.Install4jAutoUpdateService'',
      ''-Dchannel=latest'', ''-Djdk.xml.elementAttributeLimit=1000'', ''-Dexe4j.isInstall4j=true'',
      ''-DinstallType=standalone'']"

definition restart_args :: "string option \<Rightarrow> string list" where
  "restart_args token = map (\<lambda>t. ''-Drestart='' @ t) (option_list token)"

definition heap_arg :: "gateway_section \<Rightarrow> string" where
  "heap_arg cfg = ''-Xmx'' @ show_nat (gw_java_heap_mb cfg) @ ''m''"

definition jvm_args :: "supervisor \<Rightarrow> getenv \<Rightarrow> fs \<Rightarrow> string \<Rightarrow> string list \<Rightarrow> string option \<Rightarrow> string list" where
  "jvm_args su env f classpath vm_opts token =
     module_access_flags @ [''-cp'', classpath]
     @ [''-javaagent:'' @ su_agent_jar su @ ''='' @ su_agent_socket su]
     @ vm_opts @ [heap_arg (su_gateway su)]
     @ own_properties (su_gateway su) @ atspi_args env f classpath
     @ restart_args token @ [main_class (gw_program (su_gateway su))]"

definition jvm_env :: "getenv \<Rightarrow> (string \<times> string) list" where
  "jvm_env env = map (\<lambda>t. (''IBCTL_AGENT_TICK_MS'', t)) (option_list (env ''IBCTL_AGENT_TICK_MS''))"

section \<open>Starting, polling and stopping\<close>

text \<open>
  What a launch meets: the environment, the process table, which renames succeed, the
  clock, and the process id of the spawned JVM, or none when spawning fails.
\<close>

record launch_world =
  lw_env :: getenv
  lw_fs :: fs
  lw_procs :: "proc_entry list"
  lw_rename_ok :: "string \<Rightarrow> bool"
  lw_spawn :: "nat option"
  lw_now :: instant

definition launch_plan :: "supervisor \<Rightarrow> getenv \<Rightarrow> fs \<Rightarrow> string option \<Rightarrow> supervisor_error + jvm_command" where
  "launch_plan su env f token =
     (let cfg = su_gateway su; tws = gw_tws_path cfg
      in and_then (detect_version cfg f tws) (\<lambda>version.
         and_then (build_classpath f tws version) (\<lambda>classpath.
         and_then (find_java env f tws version) (\<lambda>java.
         and_then (launch_vmoptions f tws version) (\<lambda>vm_opts.
           Inr \<lparr>cm_program = java, cm_args = jvm_args su env f classpath vm_opts token, cm_env = jvm_env env\<rparr>)))))"

definition launch_with_restart ::
  "launch_world \<Rightarrow> string option \<Rightarrow> supervisor \<Rightarrow> supervisor \<times> fs \<times> os_call list \<times> (supervisor_error + unit)" where
  "launch_with_restart lw token su =
     (let r = disable_install4j_launcher (lw_rename_ok lw) (gw_tws_path (su_gateway su))
                (lw_fs lw, kill_orphan_gateways su (lw_procs lw))
      in case launch_plan su (lw_env lw) (fst r) token of
           Inl e \<Rightarrow> (su, fst r, snd r, Inl e)
         | Inr cmd \<Rightarrow>
             (case lw_spawn lw of
                None \<Rightarrow> (su, fst r, snd r @ [Spawn cmd], Inl SpawnFailed)
              | Some pid \<Rightarrow>
                  (su\<lparr>su_child := Some (Some pid), su_launched_at := Some (lw_now lw),
                      su_settings_path := settings_dir (su_gateway su)\<rparr>,
                   fst r, snd r @ [Spawn cmd], Inr ())))"

definition launch ::
  "launch_world \<Rightarrow> supervisor \<Rightarrow> supervisor \<times> fs \<times> os_call list \<times> (supervisor_error + unit)" where
  "launch lw su = launch_with_restart lw None su"

text \<open>
  The answer of \<open>try_wait\<close>: the process has exited (and is collected), still runs, or
  cannot be asked.
\<close>

datatype wait_answer = HasExited | StillRuns | WaitFailed

definition collected :: "supervisor \<Rightarrow> supervisor" where
  "collected su = su\<lparr>su_child := map_option (\<lambda>_. None) (su_child su)\<rparr>"

definition is_running :: "wait_answer \<Rightarrow> supervisor \<Rightarrow> supervisor \<times> bool" where
  "is_running ans su =
     (case su_child su of
        None \<Rightarrow> (su, False)
      | Some c \<Rightarrow>
          (case ans of
             HasExited \<Rightarrow> (collected su, False)
           | StillRuns \<Rightarrow> (su, True)
           | WaitFailed \<Rightarrow> (su, False)))"

definition jvm_info_of :: "instant \<Rightarrow> wait_answer \<Rightarrow> supervisor \<Rightarrow> supervisor \<times> jvm_info" where
  "jvm_info_of now ans su =
     (let (su1, alive) = is_running ans su
      in (su1, \<lparr>jv_pid = Option.bind (su_child su1) id, jv_alive = alive,
                jv_uptime = map_option (elapsed_secs now) (su_launched_at su1),
                jv_config_dir = su_settings_path su1, jv_agent_socket = su_agent_socket su1\<rparr>))"

text \<open>
  \<open>kill\<close>: the wait within the grace period ends with an exit, an error, or not at all.
  \<open>start_kill\<close> signals the child itself, unless its id is gone.
\<close>

datatype grace_outcome = ExitedInGrace | WaitErrored | GraceElapsed

definition wait_child :: "bool \<Rightarrow> supervisor \<Rightarrow> supervisor \<times> (supervisor_error + unit)" where
  "wait_child ok su =
     (case su_child su of
        None \<Rightarrow> (su, Inl NotRunning)
      | Some c \<Rightarrow> if ok then (collected su, Inr ()) else (su, Inl SpawnFailed))"

definition kill_process_group :: "nat \<Rightarrow> os_signal \<Rightarrow> os_call" where
  "kill_process_group pid sig = KillGroup pid sig"

definition kill_child :: "grace_outcome \<Rightarrow> supervisor \<Rightarrow> supervisor \<times> os_call list \<times> (supervisor_error + unit)" where
  "kill_child grace su =
     (case su_child su of
        None \<Rightarrow> (su, [], Inl NotRunning)
      | Some c \<Rightarrow>
          (let term_calls = map (\<lambda>pid. kill_process_group pid SigTerm) (option_list c);
               kill_calls = map (\<lambda>pid. KillPid (int pid) SigKill) (option_list c)
           in case grace of
                ExitedInGrace \<Rightarrow> (collected su, term_calls, Inr ())
              | WaitErrored \<Rightarrow> (su, term_calls @ kill_calls, Inr ())
              | GraceElapsed \<Rightarrow> (su, term_calls @ kill_calls, Inr ())))"

section \<open>Paths\<close>

definition plain_name :: "string \<Rightarrow> bool" where
  "plain_name n \<longleftrightarrow> n \<noteq> [] \<and> n \<noteq> ''.'' \<and> CHR ''/'' \<notin> set n"

lemma split_on_sep: "split_on d (a @ d # b) = split_on d a @ split_on d b"
  by (induction a) (auto split: list.splits)

lemma starts_with_append_nonempty: "a \<noteq> [] \<Longrightarrow> starts_with (a @ b) [c] = starts_with a [c]"
  by (cases a) simp_all

lemma components_sep: "a \<noteq> [] \<Longrightarrow> plain_name c \<Longrightarrow> components (a @ CHR ''/'' # c) = components a @ [c]"
  unfolding components_def split_on_sep
  by (simp add: starts_with_append_nonempty split_on_none plain_name_def)

lemma components_trailing: "a \<noteq> [] \<Longrightarrow> components (a @ ''/'') = components a"
  unfolding components_def split_on_sep by (simp add: starts_with_append_nonempty)

lemma plain_starts: "plain_name c \<Longrightarrow> \<not> starts_with c ''/''"
  by (cases c) (auto simp: plain_name_def)

lemma components_join [simp]:
  assumes "plain_name c"
  shows "components (join_path p c) = components p @ [c]"
proof (cases "p \<noteq> [] \<and> last p = CHR ''/''")
  case True
  then obtain a where p: "p = a @ ''/''" by (metis append_butlast_last_id)
  show ?thesis
  proof (cases "a = []")
    case True
    with p show ?thesis using assms
      by (auto simp: join_path_def components_def split_on_none plain_name_def starts_with_iff)
  next
    case False
    with p show ?thesis using assms
      by (simp add: join_path_def plain_starts components_sep components_trailing)
  qed
next
  case False
  show ?thesis
  proof (cases "p = []")
    case True
    then show ?thesis using assms
      by (auto simp: join_path_def components_def split_on_none plain_name_def starts_with_iff)
  next
    case nonempty: False
    with False show ?thesis using assms by (simp add: join_path_def plain_starts components_sep)
  qed
qed

lemma plain_names [simp]:
  "plain_name ''ibgateway''" "plain_name disabled_name" "plain_name ''jars''" "plain_name ''autorestart''"
  by (simp_all add: plain_name_def disabled_name_def)

lemma join_absolute: "starts_with p ''/'' \<Longrightarrow> starts_with (join_path p c) ''/''"
  by (cases p) (auto simp: join_path_def)

section \<open>The command line\<close>

lemma vm_options_no_property: "a \<in> set (vm_options s) \<Longrightarrow> \<not> starts_with a ''-D''"
  by (simp add: vm_options_def)

lemma launch_vmoptions_no_property:
  "launch_vmoptions f tws v = Inr opts \<Longrightarrow> a \<in> set opts \<Longrightarrow> \<not> starts_with a ''-D''"
  by (auto simp: launch_vmoptions_def read_vmoptions_def vm_options_no_property
      split: option.splits fs_entry.splits)

lemma set_option_list [simp]: "set (option_list x) = set_option x"
  by (cases x) (simp_all add: option_list_def)

lemma first_existing_in: "first_existing f ps = Some p \<Longrightarrow> p \<in> set ps"
  unfolding first_existing_def by (blast dest: find_SomeD)

lemma version_dirs_absolute: "starts_with tws ''/'' \<Longrightarrow> d \<in> set (version_dirs tws v) \<Longrightarrow> starts_with d ''/''"
  by (auto simp: version_dirs_def join_absolute)

lemma classpath_jars_absolute:
  assumes "starts_with d ''/''" "j \<in> set (classpath_jars f d names)"
  shows "starts_with j ''/''"
  using assms
  by (fastforce simp: classpath_jars_def join_absolute dest!: first_existing_in)

lemma join_with_head: "xs \<noteq> [] \<Longrightarrow> \<exists>rest. join_with sep xs = hd xs @ rest"
  by (cases "(sep, xs)" rule: join_with.cases) auto

lemma build_classpath_absolute:
  assumes "starts_with tws ''/''" "build_classpath f tws v = Inr cp"
  shows "starts_with cp ''/''"
proof -
  obtain d names where d: "d \<in> set (version_dirs tws v)" and ne: "filter has_jar_extension names \<noteq> []"
    and cp: "cp = join_with '':'' (classpath_jars f d names)"
    using assms(2)
    by (auto simp: build_classpath_def split: option.splits if_splits dest!: find_SomeD)
  have "set (classpath_jars f d names) \<noteq> {}" using ne by (auto simp: classpath_jars_def)
  then have ne': "classpath_jars f d names \<noteq> []" by auto
  then have "starts_with (hd (classpath_jars f d names)) ''/''"
    using classpath_jars_absolute version_dirs_absolute [OF assms(1) d] list.set_sel(1) by blast
  then show ?thesis using join_with_head [OF ne', of "'':''"] cp by (auto simp: starts_with_iff)
qed

lemma module_flags_no_property: "list_all (\<lambda>a. \<not> starts_with a ''-D'') module_access_flags"
  by (simp add: module_access_flags_def)

lemma atspi_args_are_properties: "list_all (\<lambda>a. starts_with a ''-Dja'') (atspi_args env f cp)"
  by (simp add: atspi_args_def split: option.split)

lemma list_all_imp: "list_all P xs \<Longrightarrow> (\<And>x. P x \<Longrightarrow> Q x) \<Longrightarrow> list_all Q xs"
  by (simp add: list_all_iff)

lemma starts_with_differ: "starts_with a (p @ x # q) \<Longrightarrow> x \<noteq> y \<Longrightarrow> \<not> starts_with a (p @ y # r)"
  by (auto simp: starts_with_iff)

lemma starts_with_shorter: "starts_with a (p @ q) \<Longrightarrow> starts_with a p"
  by (auto simp: starts_with_iff)

lemma filter_none: "list_all (\<lambda>x. \<not> P x) xs \<Longrightarrow> filter P xs = []"
  by (induction xs) auto

lemma launch_planD:
  assumes "launch_plan su env f token = Inr cmd"
  obtains v cp opts where "build_classpath f (gw_tws_path (su_gateway su)) v = Inr cp"
    "launch_vmoptions f (gw_tws_path (su_gateway su)) v = Inr opts"
    "cm_args cmd = jvm_args su env f cp opts token"
  using assms by (auto simp: launch_plan_def Let_def and_then_Inr_iff)

lemma starts_with_D: "starts_with a (CHR ''-'' # CHR ''D'' # p) \<Longrightarrow> starts_with a ''-D''"
  by (auto simp: starts_with_iff)

lemma filter_no_property:
  "list_all (\<lambda>a. \<not> starts_with a ''-D'') xs \<Longrightarrow> filter (\<lambda>a. starts_with a (CHR ''-'' # CHR ''D'' # p)) xs = []"
  by (rule filter_none) (auto simp: list_all_iff dest: starts_with_D)

lemma filter_atspi_args:
  assumes "\<And>a. starts_with a ''-Dja'' \<Longrightarrow> \<not> P a"
  shows "filter P (atspi_args env f cp) = []"
  by (rule filter_none) (rule list_all_imp [OF atspi_args_are_properties assms])

lemma absolute_no_option: "starts_with cp ''/'' \<Longrightarrow> \<not> starts_with cp (CHR ''-'' # p)"
  by (cases cp) auto

lemmas jvm_arg_defs = jvm_args_def own_properties_def config_dir_marker_def heap_arg_def main_class_def
  gateway_main_class_def tws_main_class_def

lemma restart_only_from_token:
  assumes "list_all (\<lambda>a. \<not> starts_with a ''-D'') opts" "starts_with cp ''/''"
  shows "filter (\<lambda>a. starts_with a ''-Drestart='') (jvm_args su env f cp opts token) = restart_args token"
proof -
  have r: "filter (\<lambda>a. starts_with a ''-Drestart='') (restart_args token) = restart_args token"
    by (cases token) (simp_all add: restart_args_def option_list_def)
  have a: "filter (\<lambda>a. starts_with a ''-Drestart='') (atspi_args env f cp) = []"
    by (rule filter_atspi_args) (auto simp: starts_with_iff)
  show ?thesis unfolding jvm_arg_defs
    using filter_no_property [OF assms(1)] filter_no_property [OF module_flags_no_property]
      absolute_no_option [OF assms(2)]
    by (simp add: r a split: gateway_program.split)
qed

lemma config_dir_set_once:
  assumes "list_all (\<lambda>a. \<not> starts_with a ''-D'') opts" "starts_with cp ''/''"
  shows "filter (\<lambda>a. starts_with a ''-DjtsConfigDir='') (jvm_args su env f cp opts token)
    = [config_dir_marker (su_gateway su)]"
proof -
  have r: "filter (\<lambda>a. starts_with a ''-DjtsConfigDir='') (restart_args token) = []"
    by (cases token) (simp_all add: restart_args_def option_list_def)
  have a: "filter (\<lambda>a. starts_with a ''-DjtsConfigDir='') (atspi_args env f cp) = []"
    by (rule filter_atspi_args) (auto simp: starts_with_iff)
  show ?thesis unfolding jvm_arg_defs
    using filter_no_property [OF assms(1)] filter_no_property [OF module_flags_no_property]
      absolute_no_option [OF assms(2)]
    by (simp add: r a split: gateway_program.split)
qed

lemma properties_are_ours:
  assumes "list_all (\<lambda>a. \<not> starts_with a ''-D'') opts" "starts_with cp ''/''"
  shows "filter (\<lambda>a. starts_with a ''-D'') (jvm_args su env f cp opts token)
    = own_properties (su_gateway su) @ atspi_args env f cp @ restart_args token"
proof -
  have r: "filter (\<lambda>a. starts_with a ''-D'') (restart_args token) = restart_args token"
    by (cases token) (simp_all add: restart_args_def option_list_def)
  have "list_all (\<lambda>a. starts_with a ''-D'') (atspi_args env f cp)"
    by (rule list_all_imp [OF atspi_args_are_properties]) (auto simp: starts_with_iff)
  then have a: "filter (\<lambda>a. starts_with a ''-D'') (atspi_args env f cp) = atspi_args env f cp"
    by (simp add: list_all_iff)
  show ?thesis unfolding jvm_arg_defs
    using filter_no_property [OF assms(1)] filter_no_property [OF module_flags_no_property]
      absolute_no_option [OF assms(2)]
    by (simp add: r a split: gateway_program.split)
qed

lemma heap_option_wins:
  "\<exists>pre post. jvm_args su env f cp opts token = pre @ heap_arg (su_gateway su) # post
     \<and> set opts \<subseteq> set pre \<and> list_all (\<lambda>a. \<not> starts_with a ''-X'') post"
proof (intro exI conjI)
  let ?pre = "module_access_flags @ [''-cp'', cp] @ [''-javaagent:'' @ su_agent_jar su @ ''='' @ su_agent_socket su] @ opts"
  let ?post = "own_properties (su_gateway su) @ atspi_args env f cp @ restart_args token @ [main_class (gw_program (su_gateway su))]"
  show "jvm_args su env f cp opts token = ?pre @ heap_arg (su_gateway su) # ?post"
    by (simp add: jvm_args_def)
  show "set opts \<subseteq> set ?pre" by auto
  have "list_all (\<lambda>a. \<not> starts_with a ''-X'') (atspi_args env f cp)"
    by (rule list_all_imp [OF atspi_args_are_properties]) (auto simp: starts_with_iff)
  moreover have "list_all (\<lambda>a. \<not> starts_with a ''-X'') (restart_args token)"
    by (cases token) (simp_all add: restart_args_def option_list_def)
  ultimately show "list_all (\<lambda>a. \<not> starts_with a ''-X'') ?post"
    by (simp add: own_properties_def config_dir_marker_def main_class_def gateway_main_class_def
        tws_main_class_def split: gateway_program.split)
qed

text \<open>
  C37. Every command line the supervisor starts a JVM with, for an absolute installation
  path: the system properties on it are exactly the supervisor's own (none comes from the
  options file), the configuration directory is set once and to the configured one, the
  restart token is passed exactly on a warm restart, the configured heap size follows
  every option of the file, so that it wins, and the main class of the configured program
  comes last.
\<close>

theorem launched_command_shape:
  assumes plan: "launch_plan su env f token = Inr cmd"
    and abs: "starts_with (gw_tws_path (su_gateway su)) ''/''"
  shows "\<exists>cp opts. filter (\<lambda>a. starts_with a ''-D'') (cm_args cmd)
        = own_properties (su_gateway su) @ atspi_args env f cp @ restart_args token
      \<and> filter (\<lambda>a. starts_with a ''-DjtsConfigDir='') (cm_args cmd) = [config_dir_marker (su_gateway su)]
      \<and> filter (\<lambda>a. starts_with a ''-Drestart='') (cm_args cmd) = restart_args token
      \<and> (\<exists>pre post. cm_args cmd = pre @ heap_arg (su_gateway su) # post \<and> set opts \<subseteq> set pre
            \<and> list_all (\<lambda>a. \<not> starts_with a ''-X'') post)
      \<and> last (cm_args cmd) = main_class (gw_program (su_gateway su))
      \<and> (\<exists>v. launch_vmoptions f (gw_tws_path (su_gateway su)) v = Inr opts)"
proof -
  from plan obtain v cp opts
    where cp: "build_classpath f (gw_tws_path (su_gateway su)) v = Inr cp"
      and opts: "launch_vmoptions f (gw_tws_path (su_gateway su)) v = Inr opts"
      and args: "cm_args cmd = jvm_args su env f cp opts token" by (rule launch_planD)
  have o: "list_all (\<lambda>a. \<not> starts_with a ''-D'') opts"
    using launch_vmoptions_no_property [OF opts] by (simp add: list_all_iff)
  note c = build_classpath_absolute [OF abs cp]
  have "last (cm_args cmd) = main_class (gw_program (su_gateway su))" by (simp add: args jvm_args_def)
  then show ?thesis
    using properties_are_ours [OF o c, folded args] config_dir_set_once [OF o c, folded args]
      restart_only_from_token [OF o c, folded args] heap_option_wins [of su env f cp opts token, folded args] opts
    unfolding args by blast
qed

definition demo_fs :: fs where
  "demo_fs = map_of
     [([''/'', ''opt'', ''Jts''], DirEntry (Some [''ibgateway''])),
      ([''/'', ''opt'', ''Jts'', ''ibgateway''], DirEntry (Some [''10.45''])),
      ([''/'', ''opt'', ''Jts'', ''ibgateway'', ''10.45''], DirEntry (Some [''jars'', ''ibgateway'', ''ibgateway.vmoptions''])),
      ([''/'', ''opt'', ''Jts'', ''ibgateway'', ''10.45'', ''ibgateway''], FileEntry (Some ''exec java'')),
      ([''/'', ''opt'', ''Jts'', ''ibgateway'', ''10.45'', ''ibgateway.vmoptions''],
         FileEntry (Some (''-Xmx4096m'' @ [CHR 0x0A] @ ''-DjtsConfigDir=/elsewhere''))),
      ([''/'', ''opt'', ''Jts'', ''ibgateway'', ''10.45'', ''jars''], DirEntry (Some [''twslaunch.jar'', ''README'', ''jts4launch.jar''])),
      ([''/'', ''usr'', ''bin'', ''java''], FileEntry None)]"

definition demo_supervisor :: supervisor where
  "demo_supervisor = supervisor_new (default_gateway\<lparr>gw_tws_path := ''/opt/Jts'', gw_java_heap_mb := 9\<rparr>)
     ''/agent.jar'' ''/agent.sock'' 20"

lemma demo_plan: "\<exists>cmd. launch_plan demo_supervisor Map.empty demo_fs (Some ''7f'') = Inr cmd"
proof -
  have "\<not> isl (launch_plan demo_supervisor Map.empty demo_fs (Some ''7f''))"
    by code_simp
  then show ?thesis by (cases "launch_plan demo_supervisor Map.empty demo_fs (Some ''7f'')") auto
qed

text \<open>Witness for \<open>launched_command_shape\<close>: an options file that sets the directory and the heap is overruled.\<close>

theorem launched_command_shape_witness:
  "\<exists>cmd. launch_plan demo_supervisor Map.empty demo_fs (Some ''7f'') = Inr cmd
    \<and> filter (\<lambda>a. starts_with a ''-DjtsConfigDir='') (cm_args cmd) = [''-DjtsConfigDir=/opt/Jts'']
    \<and> filter (\<lambda>a. starts_with a ''-Drestart='') (cm_args cmd) = [''-Drestart=7f'']
    \<and> last (cm_args cmd) = ''ibgateway.GWClient''"
proof -
  obtain cmd where cmd: "launch_plan demo_supervisor Map.empty demo_fs (Some ''7f'') = Inr cmd"
    using demo_plan by blast
  have abs: "starts_with (gw_tws_path (su_gateway demo_supervisor)) ''/''"
    by (simp add: demo_supervisor_def supervisor_new_def default_gateway_def)
  have d: "config_dir_marker (su_gateway demo_supervisor) = ''-DjtsConfigDir=/opt/Jts''"
      "main_class (gw_program (su_gateway demo_supervisor)) = ''ibgateway.GWClient''"
      "restart_args (Some ''7f'') = [''-Drestart=7f'']"
    by (simp_all add: demo_supervisor_def supervisor_new_def default_gateway_def config_dir_marker_def
        settings_dir_def main_class_def gateway_main_class_def restart_args_def option_list_def)
  show ?thesis using launched_command_shape [OF cmd abs] cmd unfolding d by blast
qed

section \<open>Orphans\<close>

lemma is_orphan_Some_iff:
  "is_orphan su e = Some pid \<longleftrightarrow> parse_i32 (fst e) = Some pid
     \<and> Option.bind (su_child su) id \<noteq> Some (nat (pid mod 2 ^ 32))
     \<and> (\<exists>cl. snd e = Some cl \<and> contains_str (replace_nul cl) ''ibgateway.GWClient''
          \<and> contains_str (replace_nul cl) (config_dir_marker (su_gateway su)))"
  by (auto simp: is_orphan_def split: option.splits if_splits)

lemma killed_iff:
  "KillPid pid SigKill \<in> set (kill_orphan_gateways su procs) \<longleftrightarrow> (\<exists>e \<in> set procs. is_orphan su e = Some pid)"
  by (force simp: kill_orphan_gateways_def List.map_filter_def image_iff)

text \<open>The command line of a running process as \<open>/proc\<close> shows it.\<close>

definition proc_cmdline :: "jvm_command \<Rightarrow> string" where
  "proc_cmdline cmd = concat (map (\<lambda>a. a @ [CHR 0x00]) (cm_program cmd # cm_args cmd))"

lemma replace_nul_append: "replace_nul (a @ b) = replace_nul a @ replace_nul b"
  by (simp add: replace_nul_def)

lemma replace_nul_id: "CHR 0x00 \<notin> set s \<Longrightarrow> replace_nul s = s"
  by (induction s) (auto simp: replace_nul_def)

lemma contains_strI: "contains_str (u @ p @ v) p"
  by (auto simp: contains_str_iff)

lemma contains_str_mono: "contains_str s p \<Longrightarrow> contains_str (u @ s @ v) p"
  unfolding contains_str_iff by (metis append.assoc)

lemma cmdline_contains:
  assumes "p @ q \<in> set (cm_args cmd)" "CHR 0x00 \<notin> set p"
  shows "contains_str (replace_nul (proc_cmdline cmd)) p"
proof -
  obtain xs ys where "cm_args cmd = xs @ (p @ q) # ys" using assms(1) by (meson split_list)
  then have "proc_cmdline cmd = (cm_program cmd @ [CHR 0x00] @ concat (map (\<lambda>a. a @ [CHR 0x00]) xs)) @ p
      @ (q @ [CHR 0x00] @ concat (map (\<lambda>a. a @ [CHR 0x00]) ys))"
    by (simp add: proc_cmdline_def)
  then obtain u v where "proc_cmdline cmd = u @ p @ v" by blast
  then have "replace_nul (proc_cmdline cmd) = replace_nul u @ p @ replace_nul v"
    by (simp add: replace_nul_append replace_nul_id [OF assms(2)])
  then show ?thesis by (simp add: contains_strI)
qed

lemma parse_i32_show: "n \<le> 2147483647 \<Longrightarrow> parse_i32 (show_nat n) = Some (int n)"
proof -
  assume h: "n \<le> 2147483647"
  obtain c cs where s: "show_nat n = c # cs" by (cases "show_nat n") auto
  then have "c \<noteq> CHR ''-''" by (metis list.set_intros(1) show_nat_minus_free)
  then show ?thesis using parse_show_nat [OF h] s by (simp add: parse_i32_def)
qed

lemma orphan_found:
  assumes plan: "launch_plan old env f token = Inr cmd"
    and gw: "gw_program (su_gateway old) = GatewayProgram"
    and dir: "settings_dir (su_gateway old) = settings_dir (su_gateway su) @ rest"
    and nul: "CHR 0x00 \<notin> set (settings_dir (su_gateway su))"
    and pid: "pid \<le> 2147483647" "su_child su \<noteq> Some (Some pid)"
    and proc: "(show_nat pid, Some (proc_cmdline cmd)) \<in> set procs"
  shows "KillPid (int pid) SigKill \<in> set (kill_orphan_gateways su procs)"
proof -
  from plan obtain v cp opts where args: "cm_args cmd = jvm_args old env f cp opts token"
    by (rule launch_planD)
  have "''ibgateway.GWClient'' @ [] \<in> set (cm_args cmd)"
    by (simp add: args jvm_args_def gw main_class_def gateway_main_class_def)
  then have c1: "contains_str (replace_nul (proc_cmdline cmd)) ''ibgateway.GWClient''"
    by (rule cmdline_contains) simp
  have "config_dir_marker (su_gateway su) @ rest \<in> set (cm_args cmd)"
    by (simp add: args jvm_args_def own_properties_def config_dir_marker_def dir)
  then have c2: "contains_str (replace_nul (proc_cmdline cmd)) (config_dir_marker (su_gateway su))"
    by (rule cmdline_contains) (simp add: config_dir_marker_def nul)
  have "Option.bind (su_child su) id \<noteq> Some pid" using pid(2) by (cases "su_child su") auto
  then have "is_orphan su (show_nat pid, Some (proc_cmdline cmd)) = Some (int pid)"
    unfolding is_orphan_Some_iff using parse_i32_show [OF pid(1)] c1 c2 pid(1) by simp
  then show ?thesis unfolding killed_iff using proc by blast
qed

section \<open>Disabling launchers\<close>

text \<open>
  What disabling does to the file system at the level of path components: launchers in the
  directory \<open>k\<close> are off when there is no launcher file, or a disabled one was there before.
\<close>

definition file_at :: "fs \<Rightarrow> string list \<Rightarrow> bool" where
  "file_at f k = (case f k of Some (FileEntry c) \<Rightarrow> True | _ \<Rightarrow> False)"

definition dir_at :: "fs \<Rightarrow> string list \<Rightarrow> bool" where
  "dir_at f k = (case f k of Some (DirEntry ns) \<Rightarrow> True | _ \<Rightarrow> False)"

definition launcher_off :: "fs \<Rightarrow> string list \<Rightarrow> bool" where
  "launcher_off f k \<longleftrightarrow> (file_at f (k @ [''ibgateway'']) \<longrightarrow> f (k @ [disabled_name]) \<noteq> None)"

definition subdirs :: "fs \<Rightarrow> string \<Rightarrow> string set" where
  "subdirs f p = {q \<in> set (listed f p). is_dir f q}"

lemma is_dir_at: "is_dir f p = dir_at f (components p)"
  by (simp add: is_dir_def dir_at_def)

lemma is_file_at: "is_file f p = file_at f (components p)"
  by (simp add: is_file_def file_at_def)

lemma names_distinct [simp]: "disabled_name \<noteq> ''ibgateway''" "''ibgateway'' \<noteq> disabled_name"
  by (simp_all add: disabled_name_def)

lemma disable_in_cases:
  obtains (kept) "disable_in ok d r = r" "ok (join_path d ''ibgateway'') \<Longrightarrow> launcher_off (fst r) (components d)"
  | (moved) c where "fst r (components d @ [''ibgateway'']) = Some (FileEntry c)"
      "fst r (components d @ [disabled_name]) = None"
      "disable_in ok d r = ((fst r)(components d := listing_rename ''ibgateway'' disabled_name (fst r (components d)),
          components d @ [disabled_name] := Some (FileEntry c), components d @ [''ibgateway''] := None),
        snd r @ [RenameFile (join_path d ''ibgateway'') (join_path d disabled_name)])"
proof (cases "file_at (fst r) (components d @ [''ibgateway'']) \<and> fst r (components d @ [disabled_name]) = None
    \<and> ok (join_path d ''ibgateway'')")
  case True
  then obtain c where c: "fst r (components d @ [''ibgateway'']) = Some (FileEntry c)"
    by (auto simp: file_at_def split: option.splits fs_entry.splits)
  with True show ?thesis
    by (intro moved [OF c]) (simp_all add: disable_in_def Let_def path_exists_def is_file_at)
next
  case False
  have "disable_in ok d r = r"
    using False by (auto simp: disable_in_def Let_def path_exists_def is_file_at)
  then show ?thesis using False by (intro kept) (auto simp: launcher_off_def)
qed

lemma listing_rename_dir: "dir_at (f(k := listing_rename a b (f k))) = dir_at f"
  by (rule ext) (simp add: dir_at_def listing_rename_def split: option.split fs_entry.split)

lemma disable_in_dirs: "is_dir (fst (disable_in ok d r)) q = is_dir (fst r) q"
proof (cases rule: disable_in_cases [of ok d r])
  case (moved c)
  then show ?thesis by (auto simp: is_dir_at dir_at_def listing_rename_def split: option.split fs_entry.split)
qed simp

lemma disable_in_subdirs: "subdirs (fst (disable_in ok d r)) p = subdirs (fst r) p"
proof (cases rule: disable_in_cases [of ok d r])
  case (moved c)
  note dirs = disable_in_dirs [of ok d r]
  have gone: "\<not> is_dir (fst r) (join_path p n)" if "components p = components d" "n = ''ibgateway'' \<or> n = disabled_name" for n
    using that moved(1,2) by (auto simp: is_dir_at dir_at_def)
  show ?thesis
  proof (cases "components p = components d")
    case True
    have "set (listed (fst (disable_in ok d r)) p) - {join_path p ''ibgateway'', join_path p disabled_name}
        = set (listed (fst r) p) - {join_path p ''ibgateway'', join_path p disabled_name}"
      using True
      by (auto simp: moved(3) listed_def read_dir_def listing_rename_def split: option.splits fs_entry.splits)
    then show ?thesis unfolding subdirs_def dirs using gone [OF True] by blast
  next
    case False
    then have "listed (fst (disable_in ok d r)) p = listed (fst r) p"
      using moved(1,2) by (auto simp: moved(3) listed_def read_dir_def)
    then show ?thesis unfolding subdirs_def dirs by simp
  qed
qed simp

lemma disable_in_keeps_off: "launcher_off (fst r) k \<Longrightarrow> launcher_off (fst (disable_in ok d r)) k"
proof (cases rule: disable_in_cases [of ok d r])
  case (moved c)
  moreover assume "launcher_off (fst r) k"
  ultimately show ?thesis
    by (auto simp: launcher_off_def file_at_def listing_rename_def split: option.splits fs_entry.splits)
qed simp

lemma disable_in_off:
  "ok (join_path d ''ibgateway'') \<Longrightarrow> launcher_off (fst (disable_in ok d r)) (components d)"
proof (cases rule: disable_in_cases [of ok d r])
  case (moved c)
  then show ?thesis by (simp add: launcher_off_def)
qed simp

text \<open>What every sequence of these renames preserves.\<close>

fun is_rename :: "os_call \<Rightarrow> bool" where
  "is_rename (RenameFile a b) = True"
| "is_rename c = False"

definition renamed_to :: "renaming \<Rightarrow> renaming \<Rightarrow> bool" where
  "renamed_to r s \<longleftrightarrow>
     (\<forall>q. is_dir (fst s) q = is_dir (fst r) q) \<and> (\<forall>p. subdirs (fst s) p = subdirs (fst r) p)
     \<and> (\<forall>k. launcher_off (fst r) k \<longrightarrow> launcher_off (fst s) k)
     \<and> (\<exists>cs. snd s = snd r @ cs \<and> list_all is_rename cs)"

lemma renamed_to_refl [simp]: "renamed_to r r"
  by (simp add: renamed_to_def)

lemma renamed_to_trans: "renamed_to r s \<Longrightarrow> renamed_to s t \<Longrightarrow> renamed_to r t"
  unfolding renamed_to_def by (metis append.assoc list_all_append)

lemma renamed_to_disable_in: "renamed_to r (disable_in ok d r)"
proof -
  have "\<exists>cs. snd (disable_in ok d r) = snd r @ cs \<and> list_all is_rename cs"
    by (cases rule: disable_in_cases [of ok d r]) auto
  then show ?thesis
    by (simp add: renamed_to_def disable_in_dirs disable_in_subdirs disable_in_keeps_off)
qed

lemma renamed_to_fold:
  assumes "\<And>x r. renamed_to r (g x r)"
  shows "renamed_to r (fold g xs r)"
proof (induction xs arbitrary: r)
  case (Cons x xs)
  show ?case using renamed_to_trans [OF assms Cons.IH] by simp
qed simp

text \<open>A fold establishes at the end whatever one of its steps establishes and renames keep.\<close>

lemma fold_establishes:
  assumes "\<And>x r. renamed_to r (g x r)" "x \<in> set xs"
    and "\<And>s. renamed_to r s \<Longrightarrow> launcher_off (fst (g x s)) k"
  shows "launcher_off (fst (fold g xs r)) k"
proof -
  obtain us vs where xs: "xs = us @ x # vs" using assms(2) by (meson split_list)
  have "launcher_off (fst (g x (fold g us r))) k"
    by (rule assms(3)) (rule renamed_to_fold [OF assms(1)])
  moreover have "renamed_to (g x (fold g us r)) (fold g vs (g x (fold g us r)))"
    by (rule renamed_to_fold [OF assms(1)])
  ultimately show ?thesis by (simp add: xs renamed_to_def)
qed

lemma renamed_to_disable_dir: "renamed_to s (disable_dir ok q s)"
  by (simp add: disable_dir_def renamed_to_disable_in)

lemma disable_below_alt:
  "disable_below ok p r =
     (if is_dir (fst r) p
      then fold (disable_dir ok) (listed (fst (disable_in ok p r)) p) (disable_in ok p r) else r)"
  by (simp add: disable_below_def Let_def)

lemma renamed_to_disable_below: "renamed_to r (disable_below ok p r)"
  unfolding disable_below_alt
  by (auto intro: renamed_to_trans [OF renamed_to_disable_in] renamed_to_fold renamed_to_disable_dir)

lemma renamed_to_launcher: "renamed_to r (disable_install4j_launcher ok tws r)"
  unfolding disable_install4j_launcher_def
  by (rule renamed_to_trans [OF _ renamed_to_disable_in]) (rule renamed_to_fold [OF renamed_to_disable_below])

lemma disable_below_off_child:
  assumes "\<forall>x. ok x" "is_dir (fst r) p"
  shows "launcher_off (fst (disable_below ok p r)) (components p)"
proof -
  have "launcher_off (fst (disable_in ok p r)) (components p)" using assms(1) by (simp add: disable_in_off)
  moreover have "renamed_to (disable_in ok p r) (disable_below ok p r)"
    using assms(2) by (simp add: disable_below_alt renamed_to_fold renamed_to_disable_dir)
  ultimately show ?thesis by (simp add: renamed_to_def)
qed

lemma disable_below_off_grandchild:
  assumes "\<forall>x. ok x" "is_dir (fst r) p" "q \<in> subdirs (fst r) p"
  shows "launcher_off (fst (disable_below ok p r)) (components q)"
proof -
  have q: "q \<in> subdirs (fst (disable_in ok p r)) p" using assms(3) by (simp add: disable_in_subdirs)
  have "launcher_off (fst (fold (disable_dir ok) (listed (fst (disable_in ok p r)) p) (disable_in ok p r))) (components q)"
  proof (rule fold_establishes [OF renamed_to_disable_dir])
    show "q \<in> set (listed (fst (disable_in ok p r)) p)" using q by (simp add: subdirs_def)
    show "launcher_off (fst (disable_dir ok q s)) (components q)" if "renamed_to (disable_in ok p r) s" for s
      using that q assms(1) by (auto simp: disable_dir_def disable_in_off subdirs_def renamed_to_def)
  qed
  then show ?thesis using assms(2) by (simp add: disable_below_alt)
qed

text \<open>The directories the scan covers: the installation path, its directories, and theirs.\<close>

definition scanned_dirs :: "fs \<Rightarrow> string \<Rightarrow> string set" where
  "scanned_dirs f tws = {tws} \<union> subdirs f tws \<union> (\<Union>p \<in> subdirs f tws. subdirs f p)"

lemma disabled_everywhere:
  assumes ok: "\<forall>x. ok x" and d: "d \<in> scanned_dirs (fst r) tws"
  shows "launcher_off (fst (disable_install4j_launcher ok tws r)) (components d)"
proof -
  let ?s = "fold (disable_below ok) (listed (fst r) tws) r"
  have below: "launcher_off (fst ?s) (components q)"
    if p: "p \<in> subdirs (fst r) tws" and q: "q = p \<or> q \<in> subdirs (fst r) p" for p q
  proof (rule fold_establishes [OF renamed_to_disable_below])
    show "p \<in> set (listed (fst r) tws)" using p by (simp add: subdirs_def)
    show "launcher_off (fst (disable_below ok p s)) (components q)" if s: "renamed_to r s" for s
    proof -
      have "is_dir (fst s) p" using s p by (simp add: renamed_to_def subdirs_def)
      moreover have "subdirs (fst s) p = subdirs (fst r) p" using s by (simp add: renamed_to_def)
      ultimately show ?thesis
        using q disable_below_off_child [OF ok] disable_below_off_grandchild [OF ok] by blast
    qed
  qed
  from d consider "d = tws" | p where "p \<in> subdirs (fst r) tws" "d = p \<or> d \<in> subdirs (fst r) p"
    unfolding scanned_dirs_def by blast
  then show ?thesis
  proof cases
    case 1
    then show ?thesis using ok by (simp add: disable_install4j_launcher_def disable_in_off)
  next
    case 2
    then show ?thesis
      using below [OF 2] by (simp add: disable_install4j_launcher_def disable_in_keeps_off)
  qed
qed

lemma disable_in_noop: "launcher_off (fst r) (components d) \<Longrightarrow> disable_in ok d r = r"
  by (cases rule: disable_in_cases [of ok d r]) (auto simp: launcher_off_def file_at_def)

lemma fold_noop: "(\<And>x. x \<in> set xs \<Longrightarrow> g x r = r) \<Longrightarrow> fold g xs r = r"
  by (induction xs) auto

lemma disable_all_noop:
  assumes "\<forall>d \<in> scanned_dirs (fst r) tws. launcher_off (fst r) (components d)"
  shows "disable_install4j_launcher ok tws r = r"
proof -
  have "disable_below ok p r = r" if p: "p \<in> set (listed (fst r) tws)" for p
  proof (cases "is_dir (fst r) p")
    case True
    then have sub: "p \<in> subdirs (fst r) tws" using p by (simp add: subdirs_def)
    then have n: "disable_in ok p r = r" using assms by (intro disable_in_noop) (auto simp: scanned_dirs_def)
    have "disable_dir ok q r = r" if "q \<in> set (listed (fst r) p)" for q
      using that sub assms by (auto simp: disable_dir_def scanned_dirs_def subdirs_def intro!: disable_in_noop)
    then show ?thesis using True by (simp add: disable_below_alt n fold_noop)
  qed (simp add: disable_below_alt)
  then have "fold (disable_below ok) (listed (fst r) tws) r = r" by (rule fold_noop)
  then show ?thesis
    unfolding disable_install4j_launcher_def using assms by (simp add: disable_in_noop scanned_dirs_def)
qed

text \<open>
  When the renames succeed, no directory the scan covers is left with an enabled
  vendor launcher unless a disabled copy was already in it, every call made is a rename,
  and a second scan, as the next launch makes it, changes nothing.
\<close>

theorem launchers_disabled:
  assumes ok: "\<forall>x. ok x"
  shows "(\<forall>d \<in> scanned_dirs f tws. is_file (fst (disable_install4j_launcher ok tws (f, []))) (join_path d ''ibgateway'')
          \<longrightarrow> path_exists (fst (disable_install4j_launcher ok tws (f, []))) (join_path d disabled_name))
    \<and> list_all is_rename (snd (disable_install4j_launcher ok tws (f, [])))
    \<and> disable_install4j_launcher ok tws (fst (disable_install4j_launcher ok tws (f, [])), cs)
        = (fst (disable_install4j_launcher ok tws (f, [])), cs)"
proof (intro conjI)
  let ?r = "disable_install4j_launcher ok tws (f, [])"
  have r: "renamed_to (f, []) ?r" by (rule renamed_to_launcher)
  have off: "\<forall>d \<in> scanned_dirs f tws. launcher_off (fst ?r) (components d)"
    using disabled_everywhere [OF ok, of _ "(f, [])"] by simp
  then show "\<forall>d \<in> scanned_dirs f tws. is_file (fst ?r) (join_path d ''ibgateway'')
      \<longrightarrow> path_exists (fst ?r) (join_path d disabled_name)"
    by (simp add: launcher_off_def is_file_at path_exists_def)
  show "list_all is_rename (snd ?r)" using r by (auto simp: renamed_to_def)
  have "scanned_dirs (fst ?r) tws = scanned_dirs f tws"
    using r by (simp add: renamed_to_def scanned_dirs_def)
  with off show "disable_install4j_launcher ok tws (fst ?r, cs) = (fst ?r, cs)"
    by (intro disable_all_noop) simp
qed

text \<open>Witness for \<open>launchers_disabled\<close>.\<close>

theorem launchers_disabled_witness:
  "snd (disable_install4j_launcher (\<lambda>_. True) ''/opt/Jts'' (demo_fs, [])) =
     [RenameFile ''/opt/Jts/ibgateway/10.45/ibgateway'' ''/opt/Jts/ibgateway/10.45/ibgateway.ibctl-disabled'']
   \<and> disable_install4j_launcher (\<lambda>_. True) ''/opt/Jts'' (fst (disable_install4j_launcher (\<lambda>_. True) ''/opt/Jts'' (demo_fs, [])), [])
     = (fst (disable_install4j_launcher (\<lambda>_. True) ''/opt/Jts'' (demo_fs, [])), [])"
proof
  show "snd (disable_install4j_launcher (\<lambda>_. True) ''/opt/Jts'' (demo_fs, [])) =
     [RenameFile ''/opt/Jts/ibgateway/10.45/ibgateway'' ''/opt/Jts/ibgateway/10.45/ibgateway.ibctl-disabled'']"
    by code_simp
  show "disable_install4j_launcher (\<lambda>_. True) ''/opt/Jts'' (fst (disable_install4j_launcher (\<lambda>_. True) ''/opt/Jts'' (demo_fs, [])), [])
     = (fst (disable_install4j_launcher (\<lambda>_. True) ''/opt/Jts'' (demo_fs, [])), [])"
    using launchers_disabled [of "\<lambda>_. True" demo_fs "''/opt/Jts''" "[]"] by simp
qed

section \<open>Launching\<close>

lemma launch_calls:
  assumes "launch_with_restart lw token su = (su', f', calls, res)"
  shows "\<exists>renames started. calls = kill_orphan_gateways su (lw_procs lw) @ renames @ started
    \<and> list_all is_rename renames \<and> started \<in> {[]} \<union> {[Spawn cmd] | cmd. launch_plan su (lw_env lw) f' token = Inr cmd}
    \<and> (res = Inr () \<longrightarrow> started \<noteq> [])"
proof -
  let ?r = "disable_install4j_launcher (lw_rename_ok lw) (gw_tws_path (su_gateway su))
      (lw_fs lw, kill_orphan_gateways su (lw_procs lw))"
  obtain cs where cs: "snd ?r = kill_orphan_gateways su (lw_procs lw) @ cs" "list_all is_rename cs"
    using renamed_to_launcher [of "(lw_fs lw, kill_orphan_gateways su (lw_procs lw))" "lw_rename_ok lw"
        "gw_tws_path (su_gateway su)"]
    by (auto simp: renamed_to_def)
  then show ?thesis
    using assms by (auto simp: launch_with_restart_def Let_def split: sum.splits option.splits)
qed

lemma killed_are_orphans:
  "KillPid p sg \<in> set (kill_orphan_gateways su procs) \<Longrightarrow> sg = SigKill \<and> (\<exists>e \<in> set procs. is_orphan su e = Some p)"
  using killed_iff [of p su procs] by (auto simp: kill_orphan_gateways_def)

text \<open>
  C18. At most one gateway per configuration directory: whenever a supervisor launches,
  every gateway that an earlier launch of the same directory started and that is still in
  the process table, other than the child the supervisor tracks, is killed before the new
  one is started. What is killed is always a process whose command line names the
  gateway's main class and the directory, and never the tracked child.
\<close>

theorem relaunch_kills_orphans:
  assumes old: "launch_plan old env f token = Inr cmd" "gw_program (su_gateway old) = GatewayProgram"
    and dir: "settings_dir (su_gateway old) = settings_dir (su_gateway su)" "CHR 0x00 \<notin> set (settings_dir (su_gateway su))"
    and pid: "pid \<le> 2147483647" "su_child su \<noteq> Some (Some pid)"
    and proc: "(show_nat pid, Some (proc_cmdline cmd)) \<in> set (lw_procs lw)"
    and run: "launch_with_restart lw token' su = (su', f', calls, res)"
  shows "\<exists>killed started. calls = killed @ started \<and> KillPid (int pid) SigKill \<in> set killed
    \<and> (\<forall>c. Spawn c \<notin> set killed)
    \<and> (\<forall>p sg. KillPid p sg \<in> set calls \<longrightarrow> Option.bind (su_child su) id \<noteq> Some (nat (p mod 2 ^ 32))
        \<and> (\<exists>name cl. (name, Some cl) \<in> set (lw_procs lw) \<and> parse_i32 name = Some p
             \<and> contains_str (replace_nul cl) ''ibgateway.GWClient''
             \<and> contains_str (replace_nul cl) (config_dir_marker (su_gateway su))))"
proof -
  let ?ks = "kill_orphan_gateways su (lw_procs lw)"
  obtain renames started where calls: "calls = ?ks @ renames @ started" and rn: "list_all is_rename renames"
    and st: "started = [] \<or> (\<exists>c. started = [Spawn c])"
    using launch_calls [OF run] by auto
  have "KillPid (int pid) SigKill \<in> set ?ks"
    by (rule orphan_found [OF old, of su "[]" pid]) (use dir pid proc in simp_all)
  moreover have "\<forall>c. Spawn c \<notin> set ?ks" by (auto simp: kill_orphan_gateways_def)
  moreover have "Option.bind (su_child su) id \<noteq> Some (nat (p mod 2 ^ 32))
        \<and> (\<exists>name cl. (name, Some cl) \<in> set (lw_procs lw) \<and> parse_i32 name = Some p
             \<and> contains_str (replace_nul cl) ''ibgateway.GWClient''
             \<and> contains_str (replace_nul cl) (config_dir_marker (su_gateway su)))"
    if "KillPid p sg \<in> set calls" for p sg
  proof -
    have "KillPid p sg \<in> set ?ks" using that rn st by (auto simp: calls list_all_iff)
    then obtain e where e: "e \<in> set (lw_procs lw)" "is_orphan su e = Some p"
      using killed_are_orphans by blast
    obtain cl where "snd e = Some cl" "contains_str (replace_nul cl) ''ibgateway.GWClient''"
        "contains_str (replace_nul cl) (config_dir_marker (su_gateway su))"
      using e(2) unfolding is_orphan_Some_iff by blast
    moreover have "(fst e, snd e) \<in> set (lw_procs lw)" using e(1) by simp
    moreover have "parse_i32 (fst e) = Some p" "Option.bind (su_child su) id \<noteq> Some (nat (p mod 2 ^ 32))"
      using e(2) unfolding is_orphan_Some_iff by blast+
    ultimately show ?thesis by metis
  qed
  ultimately show ?thesis using calls by blast
qed

text \<open>Witness for \<open>relaunch_kills_orphans\<close>: a restarted controller finds the JVM of its predecessor.\<close>

definition demo_launch :: "string \<Rightarrow> launch_world" where
  "demo_launch cmdline = \<lparr>lw_env = Map.empty, lw_fs = demo_fs,
     lw_procs = [(''self'', None), (show_nat 812, Some cmdline)], lw_rename_ok = (\<lambda>_. True),
     lw_spawn = Some 905, lw_now = 0\<rparr>"

theorem relaunch_kills_orphans_witness:
  "\<exists>cmd su' f' calls res. launch_plan demo_supervisor Map.empty demo_fs (Some ''7f'') = Inr cmd
    \<and> launch_with_restart (demo_launch (proc_cmdline cmd)) None demo_supervisor = (su', f', calls, res)
    \<and> KillPid 812 SigKill \<in> set calls"
proof -
  obtain cmd where cmd: "launch_plan demo_supervisor Map.empty demo_fs (Some ''7f'') = Inr cmd"
    using demo_plan by blast
  obtain su' f' calls res
    where run: "launch_with_restart (demo_launch (proc_cmdline cmd)) None demo_supervisor = (su', f', calls, res)"
    by (metis prod_cases4)
  have d: "gw_program (su_gateway demo_supervisor) = GatewayProgram"
      "CHR 0x00 \<notin> set (settings_dir (su_gateway demo_supervisor))" "su_child demo_supervisor \<noteq> Some (Some 812)"
      "(show_nat 812, Some (proc_cmdline cmd)) \<in> set (lw_procs (demo_launch (proc_cmdline cmd)))"
    by (simp_all add: demo_supervisor_def supervisor_new_def default_gateway_def settings_dir_def demo_launch_def)
  have "812 \<le> (2147483647 :: nat)" by simp
  from relaunch_kills_orphans [OF cmd d(1) refl d(2) this d(3) d(4) run]
  obtain killed started where "calls = killed @ started" "KillPid (int 812) SigKill \<in> set killed" by blast
  then have "KillPid 812 SigKill \<in> set calls" by simp
  then show ?thesis using cmd run by blast
qed

text \<open>
  The marker is matched as a substring: a gateway whose configuration directory merely
  extends this supervisor's directory is killed as well.
\<close>

theorem longer_directory_is_killed:
  assumes "launch_plan other env f token = Inr cmd" "gw_program (su_gateway other) = GatewayProgram"
    "settings_dir (su_gateway other) = settings_dir (su_gateway su) @ rest"
    "CHR 0x00 \<notin> set (settings_dir (su_gateway su))" "pid \<le> 2147483647" "su_child su \<noteq> Some (Some pid)"
    "(show_nat pid, Some (proc_cmdline cmd)) \<in> set procs"
  shows "KillPid (int pid) SigKill \<in> set (kill_orphan_gateways su procs)"
  by (rule orphan_found [OF assms])

text \<open>A vendor launcher that an update put back beside the disabled one stays enabled.\<close>

theorem reinstalled_launcher_stays:
  "path_exists (fst r) (join_path d disabled_name) \<Longrightarrow> disable_in ok d r = r"
  by (rule disable_in_noop) (simp add: launcher_off_def path_exists_def)

text \<open>A detected version has its jars where the class path is built from.\<close>

lemma file_name_join: "plain_name n \<Longrightarrow> file_name (join_path p n) = n"
  by (simp add: file_name_def)

lemma components_two: "plain_name b \<Longrightarrow> components (join_path p (''ibgateway/'' @ b)) = components p @ [''ibgateway'', b]"
proof -
  assume b: "plain_name b"
  have "join_path p (''ibgateway/'' @ b) = join_path p ''ibgateway'' @ ''/'' @ b" by (simp add: join_path_def)
  moreover have "join_path p ''ibgateway'' \<noteq> []" by (simp add: join_path_def)
  ultimately show ?thesis
    using components_sep [OF _ b, of "join_path p ''ibgateway''"] by simp
qed

theorem detected_version_has_jars:
  assumes names: "\<And>p ns. read_dir f p = Some ns \<Longrightarrow> list_all plain_name ns"
    and v: "detect_version cfg f tws = Inr v" "gw_version cfg = []"
  shows "\<exists>d \<in> set (version_dirs tws v). path_exists f (join_path d ''jars'')"
proof -
  have listed: "\<exists>n. plain_name n \<and> q = join_path p n" if "q \<in> set (listed f p)" for p q
  proof (cases "read_dir f p")
    case (Some ns)
    then show ?thesis using that names [OF Some] by (auto simp: listed_def list_all_iff)
  qed (use that in \<open>simp add: listed_def\<close>)
  from v consider
    (gw) q where "q \<in> set (listed f (join_path tws ''ibgateway''))" "path_exists f (join_path q ''jars'')"
      "v = ''ibgateway/'' @ file_name q"
    | (tws) q where "q \<in> set (listed f tws)" "path_exists f (join_path q ''jars'')" "v = file_name q"
    by (auto simp: detect_version_def Let_def split: option.splits if_splits dest!: find_SomeD)
  then show ?thesis
  proof cases
    case gw
    obtain n where n: "plain_name n" "q = join_path (join_path tws ''ibgateway'') n" using listed [OF gw(1)] by blast
    then have "v = ''ibgateway/'' @ n" using gw(3) by (simp add: file_name_join)
    then have "path_exists f (join_path (join_path tws v) ''jars'')"
      using gw(2) n components_two [OF n(1)] by (simp add: path_exists_def)
    then show ?thesis by (simp add: version_dirs_def)
  next
    case tws
    obtain n where n: "plain_name n" "q = join_path tws n" using listed [OF tws(1)] by blast
    then show ?thesis using tws(2,3) by (simp add: version_dirs_def file_name_join)
  qed
qed

text \<open>
  Stopping: the whole group is asked to end; only the child itself is killed when it does
  not, and nothing else is ever signalled.
\<close>

theorem kill_signals:
  "kill_child grace su = (su', calls, res) \<Longrightarrow> su_child su = Some (Some pid) \<Longrightarrow>
     res = Inr () \<and> hd calls = KillGroup pid SigTerm
     \<and> tl calls = (if grace = ExitedInGrace then [] else [KillPid (int pid) SigKill])"
  by (cases grace) (auto simp: kill_child_def option_list_def kill_process_group_def Let_def)

end
