(* ===== verification/Status_Queries.thy ===== *)
theory Status_Queries
  imports Supervisor "HOL-Library.Sublist"
begin

text \<open>
  Status queries, \<open>state_machine/queries.rs\<close>: the documents the controller publishes for
  the dashboard and for trading clients (STATUS, STATE, CONFIG), the snapshot that carries
  them to the command server, and the queries answered by the controller itself. The
  documents are JSON values with the fields in the source's order; the serializer
  (\<open>serde_json\<close>) and \<open>jiff\<close>'s date arithmetic and formats are parameters. The lemmas show
  that no published document depends on a password or on the value of the signing key,
  that the announced retry is the end of the policy's back-off sleep, that readiness and
  the client advisory agree with each other and with the state, and that a subscriber gets
  every snapshot that wakes it exactly once.
\<close>

section \<open>JSON values\<close>

definition jnat :: "nat \<Rightarrow> json" where "jnat n = JNum (int n)"

definition jopt :: "('a \<Rightarrow> json) \<Rightarrow> 'a option \<Rightarrow> json" where
  "jopt f x = (case x of None \<Rightarrow> JNull | Some v \<Rightarrow> f v)"

section \<open>What a document is built from\<close>

text \<open>
  What the builders read beside the controller's state: the full configuration, the
  supervisor, both clocks, the two child processes, the texts of instants, the addition of
  seconds to an instant (none on overflow), the verified clock offset and the environment.
\<close>

record query_inputs =
  qi_version :: string
  qi_config :: config
  qi_supervisor :: supervisor
  qi_now :: instant
  qi_wall :: zoned
  qi_start_time :: instant
  qi_jvm_wait :: wait_answer
  qi_socat_alive :: bool
  qi_socat_pid :: nat
  qi_text :: "zoned \<Rightarrow> string"
  qi_timestamp_text :: "timestamp \<Rightarrow> string"
  qi_add :: "zoned \<Rightarrow> nat \<Rightarrow> zoned option"
  qi_clock :: time_sync
  qi_getenv :: getenv

section \<open>Names on the wire\<close>

fun trading_mode_str :: "trading_mode \<Rightarrow> string" where
  "trading_mode_str Live = ''live''"
| "trading_mode_str Paper = ''paper''"
| "trading_mode_str Both = ''both''"

fun provider_str :: "totp_provider \<Rightarrow> string" where
  "provider_str Oathtool = ''oathtool''"
| "provider_str Builtin = ''builtin''"

fun timeout_action_str :: "twofa_timeout_action \<Rightarrow> string" where
  "timeout_action_str TimeoutRestart = ''restart''"
| "timeout_action_str TimeoutExit = ''exit''"

fun on_timeout_str :: "twofa_on_timeout \<Rightarrow> string" where
  "on_timeout_str RestartThenHitl = ''RestartThenHitl''"
| "on_timeout_str RestartForever = ''RestartForever''"
| "on_timeout_str HitlImmediately = ''HitlImmediately''"

fun strategy_str :: "hitl_strategy \<Rightarrow> string" where
  "strategy_str HitlDisabled = ''Disabled''"
| "strategy_str HitlPeriodic = ''Periodic''"
| "strategy_str HitlNtfyCallback = ''NtfyCallback''"
| "strategy_str HitlBoth = ''Both''"

fun counter_reset_str :: "counter_reset_scope \<Rightarrow> string" where
  "counter_reset_str AnyReach = ''AnyReach''"
| "counter_reset_str Stable = ''Stable''"

fun program_str :: "gateway_program \<Rightarrow> string" where
  "program_str GatewayProgram = ''gateway''"
| "program_str TwsProgram = ''tws''"

fun session_action_str :: "session_action \<Rightarrow> string" where
  "session_action_str Primary = ''primary''"
| "session_action_str Secondary = ''secondary''"
| "session_action_str PrimaryOverride = ''primaryoverride''"

fun accept_incoming_str :: "accept_incoming \<Rightarrow> string" where
  "accept_incoming_str Accept = ''accept''"
| "accept_incoming_str Reject = ''reject''"
| "accept_incoming_str Manual = ''manual''"

fun failure_action_str :: "relogin_failure_action \<Rightarrow> string" where
  "failure_action_str FailureReauth = ''reauth''"
| "failure_action_str FailureRestart = ''restart''"

fun log_level_str :: "log_level \<Rightarrow> string" where
  "log_level_str LogDebug = ''debug''"
| "log_level_str LogInfo = ''info''"
| "log_level_str LogWarn = ''warn''"
| "log_level_str LogError = ''error''"

fun site_role_str :: "site_role \<Rightarrow> string" where
  "site_role_str PrimarySite = ''primary''"
| "site_role_str StandbySite = ''standby''"

section \<open>The recovery object\<close>

definition wire_phase_elapsed :: "coordinator \<Rightarrow> zoned \<Rightarrow> nat" where
  "wire_phase_elapsed co wall =
     nat (max 0 (z_second_of_epoch wall - z_second_of_epoch (co_phase_entered_at_wall co)))"

text \<open>
  \<open>next_retry_at\<close>: \<open>checked_div\<close>, a saturating product and \<open>i64::try_from\<close>, then the checked
  addition to the phase entry. The elapsed seconds are a difference of two signed 64-bit
  counts, so \<open>boundaries_passed + 1\<close> does not leave the range.
\<close>

definition next_retry_at :: "(zoned \<Rightarrow> nat \<Rightarrow> zoned option) \<Rightarrow> coordinator \<Rightarrow> zoned \<Rightarrow> zoned option" where
  "next_retry_at add co wall =
     (if co_phase co \<noteq> BackoffEvery15Min then None
      else (let interval = rc_backoff_interval_secs (co_config co) in
            if interval = 0 then None
            else (let boundaries_passed = wire_phase_elapsed co wall div interval;
                      offset_secs = saturating_mul u64_max interval (boundaries_passed + 1)
                  in if offset_secs \<le> i64_max then add (co_phase_entered_at_wall co) offset_secs else None)))"

definition recovery_json :: "query_inputs \<Rightarrow> coordinator \<Rightarrow> json" where
  "recovery_json qi co = JObj
     [(''phase'', JStr (phase_as_str (co_phase co))),
      (''phase_entered_at'', JStr (qi_text qi (co_phase_entered_at_wall co))),
      (''phase_elapsed_secs'', jnat (wire_phase_elapsed co (qi_wall qi))),
      (''last_full_success_at'', jopt (\<lambda>z. JStr (qi_text qi z)) (co_last_full_success_at co)),
      (''giveup_alert_sent_at'', jopt (\<lambda>t. JStr (qi_timestamp_text qi t)) (co_giveup_alert_sent_at co)),
      (''next_retry_at'', jopt (\<lambda>z. JStr (qi_text qi z)) (next_retry_at (qi_add qi) co (qi_wall qi))),
      (''blocked_awaiting_resume'', JBool (co_blocked_awaiting_resume co)),
      (''aggressive_phase_max_secs'', jnat (rc_aggressive_phase_max_secs (co_config co))),
      (''backoff_phase_max_secs'', jnat (rc_backoff_phase_max_secs (co_config co))),
      (''min_success_dwell_secs'', jnat (rc_min_success_dwell_secs (co_config co))),
      (''callback_valid_hours'', jnat (rc_giveup_callback_valid_hours (co_config co))),
      (''giveup_alert_resend_interval_hours'', jnat (rc_giveup_alert_resend_interval_hours (co_config co)))]"

section \<open>The STATUS document\<close>

text \<open>
  The statistics start as \<open>Stats::default()\<close>; the only fields the program ever writes are
  the two label counters.
\<close>

definition stats_json :: "nat \<times> nat \<Rightarrow> json" where
  "stats_json drift = JObj
     [(''restarts_today'', JNum 0), (''relogins_today'', JNum 0), (''dialogs_dismissed'', JNum 0),
      (''last_2fa_duration_secs'', JNull), (''config_apply_duration_secs'', JNull),
      (''precaution_labels_not_found'', jnat (fst drift)), (''read_only_api_label_not_found'', jnat (snd drift))]"

definition jvm_json :: "jvm_info \<Rightarrow> json" where
  "jvm_json j = JObj
     [(''pid'', jopt jnat (jv_pid j)), (''alive'', JBool (jv_alive j)), (''uptime_secs'', jopt jnat (jv_uptime j)),
      (''config_dir'', JStr (jv_config_dir j)), (''agent_socket'', JStr (jv_agent_socket j))]"

definition ib_system_json :: "instant \<Rightarrow> ib_system_status \<Rightarrow> json" where
  "ib_system_json now ib = JObj
     [(''available'', JBool (ib_available ib)), (''status'', JStr (ib_status ib)),
      (''reason'', if ib_reason ib = [] then JNull else JStr (ib_reason ib)),
      (''expires_in_secs'', jopt (\<lambda>t. jnat (600 - elapsed_secs now t)) (ib_last_updated ib))]"

definition advisory_json :: "bool \<Rightarrow> sm_state \<Rightarrow> json" where
  "advisory_json socat_running s =
     (let (should_connect, should_wait, wait_reason, stale) = client_advisory s
      in JObj [(''should_connect'', JBool (should_connect \<and> socat_running)), (''should_wait'', JBool should_wait),
               (''wait_reason'', jopt JStr wait_reason), (''client_id_likely_stale'', JBool stale)])"

definition hitl_json :: "instant \<Rightarrow> state_machine \<Rightarrow> json" where
  "hitl_json now sm =
     (let h = sm_hitl sm; timeouts = tf_consecutive_timeouts (sm_twofa sm) in
      if sm_st sm = WaitingForHitl2fa
      then JObj
        [(''active'', JBool True),
         (''entered_at_secs_ago'', jopt (\<lambda>t. jnat (elapsed_secs now t)) (hi_entered_at h)),
         (''attempts_exhausted'', jnat (max 0 timeouts)),
         (''consecutive_2fa_timeouts'', jnat timeouts),
         (''next_retry_in_secs'', jopt (\<lambda>t. jnat (elapsed_secs t now)) (hi_next_retry_at h)),
         (''intervals_index'', jnat (hi_intervals_index h)),
         (''ntfy_sent'', JBool (hi_ntfy_sent h)),
         (''ntfy_attempts'', jnat (hi_ntfy_attempts h))]
      else JNull)"

definition skip_json :: "query_inputs \<Rightarrow> cold_restart_skip_record \<Rightarrow> json" where
  "skip_json qi rec = JObj
     ((''recorded_at'', JStr (qi_text qi (sk_recorded_at rec)))
      # (case sk_reason rec of
           FreshAuthToday at \<Rightarrow> [(''reason'', JStr ''fresh_auth_today''), (''last_login_at'', JStr (qi_text qi at))]
         | DormantSite \<Rightarrow> [(''reason'', JStr ''dormant_site'')]))"

definition container_exit_after :: "getenv \<Rightarrow> nat" where
  "container_exit_after env =
     (case Option.bind (env ''IBCTL_CONTAINER_EXIT_AFTER_RESTARTS'') (parse_uint u32_max) of
        None \<Rightarrow> 8 | Some n \<Rightarrow> n)"

definition build_status_json :: "query_inputs \<Rightarrow> state_machine \<Rightarrow> supervisor \<times> json" where
  "build_status_json qi sm =
     (let now = qi_now qi; cfg = qi_config qi; tw = sm_twofa sm;
          socat_running = (sm_socat sm \<and> qi_socat_alive qi);
          (su, jvm) = jvm_info_of now (qi_jvm_wait qi) (qi_supervisor qi)
      in (su, JObj
       [(''version'', JStr (qi_version qi)),
        (''ready'', JBool (sm_st sm = Connected \<and> socat_running)),
        (''state'', JStr (state_to_string (sm_st sm))),
        (''trading_mode'', JStr (trading_mode_str (au_trading_mode (cg_auth cfg)))),
        (''uptime_secs'', jnat (elapsed_secs now (qi_start_time qi))),
        (''connected_uptime_secs'', jopt (\<lambda>t. jnat (elapsed_secs now t)) (sm_connected_since sm)),
        (''jvm'', jvm_json jvm),
        (''socat'', JObj [(''running'', JBool socat_running),
                         (''pid'', if sm_socat sm then jnat (qi_socat_pid qi) else JNull)]),
        (''clients'', JObj [(''count'', jnat (length (sm_cached_client_ids sm))),
                           (''ids'', JArr (map JStr (sm_cached_client_ids sm)))]),
        (''ib_system'', ib_system_json now (sm_ib sm)),
        (''site'', JObj [(''role'', JStr (site_role_str (si_role (cg_site cfg)))),
                        (''auto_launch'', JBool (si_auto_launch (cg_site cfg)))]),
        (''paused'', JBool (pc_paused (sm_pause sm))),
        (''ceiling_state'', jopt (\<lambda>s. JStr (state_to_string s)) (pc_ceiling (sm_pause sm))),
        (''stats'', stats_json (sm_label_drift sm)),
        (''client_advisory'', advisory_json socat_running (sm_st sm)),
        (''hitl'', hitl_json now sm),
        (''twofa_clock'', JObj
          [(''verified_offset_ms'', JNum (ts_offset_ms (qi_clock qi))),
           (''last_verified_unix_secs'', JNum (ts_last_verified (qi_clock qi))),
           (''server_retry_in_secs'', jopt (\<lambda>d. jnat (elapsed_secs d now)) (tf_retry_not_before tw)),
           (''waiting_for_screen_countdown'', JBool (tf_retry_waiting_for_screen tw))]),
        (''watchdog'', JObj
          [(''consecutive_jvm_restarts'', jnat (sm_jvm_restarts sm)),
           (''container_exit_after_restarts'', jnat (container_exit_after (qi_getenv qi))),
           (''api_probe'', JStr ''ib_v100_handshake'')]),
        (''recovery'', recovery_json qi (sm_recovery sm)),
        (''last_cold_restart_skip'', jopt (skip_json qi) (sm_last_skip sm))]))"

section \<open>The STATE and CONFIG documents\<close>

definition transition_json :: "transition_entry \<Rightarrow> json" where
  "transition_json t = JObj
     [(''timestamp'', JStr (tr_timestamp t)), (''from'', JStr (tr_from t)), (''to'', JStr (tr_to t))]"

definition build_state_json :: "state_machine \<Rightarrow> json" where
  "build_state_json sm = JObj
     [(''current'', JStr (state_to_string (sm_st sm))), (''history'', JArr (map transition_json (sm_history sm)))]"

definition backoff_json :: "backoff_section \<Rightarrow> json" where
  "backoff_json b = JObj
     [(''max_immediate_attempts'', jnat (bo_max_immediate_attempts b)),
      (''on_timeout'', JStr (on_timeout_str (bo_on_timeout b))),
      (''strategy'', JStr (strategy_str (bo_strategy b))),
      (''intervals_minutes'', JArr (map jnat (bo_intervals_minutes b))),
      (''callback_valid_hours'', jnat (bo_callback_valid_hours b)),
      (''counter_reset'', JStr (counter_reset_str (bo_counter_reset b))),
      (''stable_secs'', jnat (bo_stable_secs b)),
      (''cold_restart_preempts_hitl'', JBool (bo_cold_restart_preempts_hitl b)),
      (''ntfy_send_retries'', jnat (bo_ntfy_send_retries b)),
      (''ntfy_action_signing_key_set'', JBool (bo_signing_key b \<noteq> []))]"

definition timing_json :: "ui_timing \<Rightarrow> timing_config \<Rightarrow> json" where
  "timing_json u t = JObj
     [(''ui_tick_ms'', jnat (ut_ui_tick_ms u)), (''agent_tick_ms'', jnat (ut_agent_tick_ms u)),
      (''post_login_delay_ms'', jnat (ut_post_login_delay_ms u)), (''popup_quiet_secs'', jnat (ut_popup_quiet_secs u)),
      (''popup_max_wait_secs'', jnat (ut_popup_max_wait_secs u)),
      (''login_radio_delay_ms'', jnat (ut_login_radio_delay_ms u)),
      (''jvm_shutdown_timeout_secs'', jnat (ut_jvm_shutdown_timeout_secs u)),
      (''login_dialog_timeout_secs'', jnat (ti_login_dialog_timeout_secs t)),
      (''restart_delay_secs'', jnat (ti_restart_delay_secs t)),
      (''relogin_max_attempts'', jnat (ti_relogin_max_attempts t)),
      (''relogin_failure_action'', JStr (failure_action_str (ti_relogin_failure_action t))),
      (''api_port_probe_interval_secs'', jnat (ti_api_port_probe_interval_secs t)),
      (''api_port_probe_fails_before_revoke'', jnat (ti_api_port_probe_fails_before_revoke t))]"

definition build_config_json :: "config \<Rightarrow> json" where
  "build_config_json c =
     (let tw = cg_twofa c; g = cg_gateway c; se = cg_session c; cs = cg_command_server c; lg = cg_logging c
      in JObj
       [(''auth'', JObj
          [(''username'', JStr (au_username (cg_auth c))),
           (''trading_mode'', JStr (trading_mode_str (au_trading_mode (cg_auth c)))),
           (''password'', JStr ''********'')]),
        (''twofa'', JObj
          [(''provider'', JStr (provider_str (tw_provider tw))),
           (''timeout_action'', JStr (timeout_action_str (tw_timeout_action tw))),
           (''timeout_seconds'', jnat (tw_timeout_seconds tw)), (''device'', JStr (tw_device tw)),
           (''relogin_after_timeout'', JBool (tw_relogin_after_timeout tw)),
           (''has_secret'', JBool (tw_has_secret tw)), (''backoff'', backoff_json (tw_backoff tw))]),
        (''gateway'', JObj
          [(''tws_path'', JStr (gw_tws_path g)), (''settings_path'', JStr (gw_settings_path g)),
           (''version'', JStr (gw_version g)), (''java_heap_mb'', jnat (gw_java_heap_mb g)),
           (''program'', JStr (program_str (gw_program g))),
           (''live_api_port'', jnat (gw_live_api_port g)), (''paper_api_port'', jnat (gw_paper_api_port g)),
           (''live_socat_port'', jnat (gw_live_socat_port g)), (''paper_socat_port'', jnat (gw_paper_socat_port g))]),
        (''session'', JObj
          [(''action'', JStr (session_action_str (se_action se))),
           (''accept_incoming'', JStr (accept_incoming_str (se_accept_incoming se))),
           (''cold_restart_time'', JStr (se_cold_restart_time se)),
           (''cold_restart_day'', jnat (se_cold_restart_day se))]),
        (''command_server'', JObj
          [(''enabled'', JBool (cs_enabled cs)), (''port'', jnat (cs_port cs)),
           (''bind_address'', JStr (cs_bind_address cs)), (''control_from'', JArr (map JStr (cs_control_from cs)))]),
        (''timing'', timing_json (cg_ui_timing c) (cg_timing c)),
        (''agent'', JObj [(''socket_path'', JStr (cg_agent_socket c))]),
        (''ib_status'', JObj [(''kick_active_session'', JBool (cg_kick_active_session c))]),
        (''logging'', JObj
          [(''level'', JStr (log_level_str (lg_level lg))), (''log_dir'', JStr (lg_dir lg)),
           (''futures_session_logging'', JBool (lg_futures_session lg)),
           (''session_reopen_hour'', jnat (lg_reopen_hour lg))]),
        (''site'', JObj [(''role'', JStr (site_role_str (si_role (cg_site c)))),
                        (''auto_launch'', JBool (si_auto_launch (cg_site c)))])])"

section \<open>Windows, snapshots and queries\<close>

text \<open>An agent that does not answer counts as no windows; a window whose dump fails has no tabs.\<close>

definition window_tabs :: "world \<Rightarrow> window_info \<Rightarrow> json list" where
  "window_tabs wd w =
     (case wd_dump wd (w_id w) of
        None \<Rightarrow> []
      | Some dump \<Rightarrow> (case get_array ''tabs'' dump of None \<Rightarrow> [] | Some ts \<Rightarrow> ts))"

definition build_windows_json :: "world \<Rightarrow> json" where
  "build_windows_json wd = JObj
     [(''windows'', JArr (map (\<lambda>w. JObj
         [(''id'', jnat (w_id w)), (''title'', JStr (w_title w)), (''class'', JStr (w_class w)),
          (''tabs'', JArr (window_tabs wd w))])
       (case wd_windows wd 0 of None \<Rightarrow> [] | Some ws \<Rightarrow> ws)))]"

text \<open>
  The publisher keeps the version counter. It is a \<open>u64\<close> that grows by one per published
  snapshot, so it does not wrap in the life of a process.
\<close>

definition publish_snapshot ::
  "(json \<Rightarrow> string) \<Rightarrow> query_inputs \<Rightarrow> state_machine \<Rightarrow> nat \<Rightarrow> supervisor \<times> nat \<times> query_snapshot" where
  "publish_snapshot ser qi sm version =
     (let (su, status) = build_status_json qi sm
      in (su, version + 1,
          \<lparr>qs_version = version + 1, qs_status_json = ser status, qs_state_json = ser (build_state_json sm),
           qs_config_json = ser (build_config_json (qi_config qi))\<rparr>))"

definition initializing :: query_snapshot where
  "initializing = \<lparr>qs_version = 0,
     qs_status_json = ''{'' @ quoted ''state'' @ '':'' @ quoted ''Initializing'' @ '','' @ quoted ''ready'' @ '':false}'',
     qs_state_json = ''{'' @ quoted ''current'' @ '':'' @ quoted ''Initializing'' @ '','' @ quoted ''history'' @ '':[]}'',
     qs_config_json = ''{}''\<rparr>"

definition logs_json :: "nat \<Rightarrow> json" where
  "logs_json limit = JObj
     [(''error'', JStr ''not_implemented''),
      (''message'', JStr (''LOGS command is not yet implemented '' @ map char_of [226 :: nat, 128, 148] @ '' use container logs instead'')),
      (''limit'', jnat limit)]"

text \<open>A query the command server forwards; a subscription never is.\<close>

definition handle_query :: "(json \<Rightarrow> string) \<Rightarrow> query_inputs \<Rightarrow> world \<Rightarrow> state_machine \<Rightarrow> query_type \<Rightarrow> supervisor \<times> string option" where
  "handle_query ser qi wd sm q =
     (case q of
        QStatus \<Rightarrow> (let (su, j) = build_status_json qi sm in (su, Some (ser j)))
      | QState \<Rightarrow> (qi_supervisor qi, Some (ser (build_state_json sm)))
      | QConfig \<Rightarrow> (qi_supervisor qi, Some (ser (build_config_json (qi_config qi))))
      | QLogs n \<Rightarrow> (qi_supervisor qi, Some (ser (logs_json n)))
      | QWindows \<Rightarrow> (qi_supervisor qi, Some (ser (build_windows_json wd)))
      | QSubscribe \<Rightarrow> (qi_supervisor qi, None))"

text \<open>The loop over the queued queries: each is answered in order, with the supervisor the previous one left.\<close>

fun process_queries ::
  "(json \<Rightarrow> string) \<Rightarrow> query_inputs \<Rightarrow> world \<Rightarrow> state_machine \<Rightarrow> query_type list \<Rightarrow> supervisor \<times> string option list" where
  "process_queries ser qi wd sm [] = (qi_supervisor qi, [])"
| "process_queries ser qi wd sm (q # qs) =
     (let (su, r) = handle_query ser qi wd sm q;
          (su', rs) = process_queries ser (qi\<lparr>qi_supervisor := su\<rparr>) wd sm qs
      in (su', r # rs))"

section \<open>Secrets\<close>

text \<open>
  The same inputs with other credentials: passwords, the paper account and the signing key
  replaced.
\<close>

definition with_secrets :: "string \<Rightarrow> string \<Rightarrow> string \<Rightarrow> string \<Rightarrow> config \<Rightarrow> config" where
  "with_secrets password paper_user paper_password key c =
     c\<lparr>cg_auth := (cg_auth c)\<lparr>au_password := password, au_paper_username := paper_user, au_paper_password := paper_password\<rparr>,
       cg_twofa := (cg_twofa c)\<lparr>tw_backoff := (tw_backoff (cg_twofa c))\<lparr>bo_signing_key := key\<rparr>\<rparr>\<rparr>"

lemma config_json_hides:
  "key = [] \<longleftrightarrow> bo_signing_key (tw_backoff (cg_twofa c)) = [] \<Longrightarrow>
     build_config_json (with_secrets p pu pp key c) = build_config_json c"
  by (simp add: build_config_json_def with_secrets_def backoff_json_def Let_def)

lemma status_json_hides:
  "build_status_json (qi\<lparr>qi_config := with_secrets p pu pp key (qi_config qi)\<rparr>) sm = build_status_json qi sm"
proof -
  have "skip_json (qi\<lparr>qi_config := c\<rparr>) = skip_json qi" for c 
    by (rule ext) (simp add: skip_json_def split: skip_reason.split)
  moreover have "recovery_json (qi\<lparr>qi_config := c\<rparr>) co = recovery_json qi co" for c co by (simp add: recovery_json_def)
  ultimately show ?thesis by (simp add: build_status_json_def with_secrets_def Let_def split_beta)
qed

text \<open>
  C17. Whatever the passwords, the paper account and the signing key are, the published
  snapshot and every answer to a query are the same: all that is revealed of them is
  whether a signing key is set.
\<close>

theorem published_documents_hide_secrets:
  assumes "key = [] \<longleftrightarrow> bo_signing_key (tw_backoff (cg_twofa (qi_config qi))) = []"
  shows "publish_snapshot ser (qi\<lparr>qi_config := with_secrets p pu pp key (qi_config qi)\<rparr>) sm v = publish_snapshot ser qi sm v
    \<and> process_queries ser (qi\<lparr>qi_config := with_secrets p pu pp key (qi_config qi)\<rparr>) wd sm qs = process_queries ser qi wd sm qs"
proof
  show "publish_snapshot ser (qi\<lparr>qi_config := with_secrets p pu pp key (qi_config qi)\<rparr>) sm v = publish_snapshot ser qi sm v"
    using config_json_hides [OF assms] by (simp add: publish_snapshot_def status_json_hides)
  show "process_queries ser (qi\<lparr>qi_config := with_secrets p pu pp key (qi_config qi)\<rparr>) wd sm qs = process_queries ser qi wd sm qs"
    using assms
  proof (induction qs arbitrary: qi)
    case (Cons q qs)
    have h: "handle_query ser (qi\<lparr>qi_config := with_secrets p pu pp key (qi_config qi)\<rparr>) wd sm q = handle_query ser qi wd sm q"
      using config_json_hides [OF Cons.prems] by (simp add: handle_query_def status_json_hides split: query_type.split)
    let ?qi = "qi\<lparr>qi_supervisor := fst (handle_query ser qi wd sm q)\<rparr>"
    have "process_queries ser (?qi\<lparr>qi_config := with_secrets p pu pp key (qi_config ?qi)\<rparr>) wd sm qs
        = process_queries ser ?qi wd sm qs"
      by (rule Cons.IH) (use Cons.prems in simp)
    moreover have swap: "qi\<lparr>qi_config := c, qi_supervisor := su\<rparr> = qi\<lparr>qi_supervisor := su, qi_config := c\<rparr>" for c su
      by simp
    ultimately show ?case unfolding process_queries.simps h Let_def split_beta swap by simp
  qed simp
qed

section \<open>The announced retry\<close>


text \<open>Witnesses: the default configuration with a key, and an hour after the phase began.\<close>

definition demo_inputs :: query_inputs where
  "demo_inputs = \<lparr>qi_version = ''1.2.0'', qi_config = default_config,
     qi_supervisor = demo_supervisor, qi_now = 0, qi_wall = sunday_nine, qi_start_time = 0, qi_jvm_wait = StillRuns,
     qi_socat_alive = True, qi_socat_pid = 7, qi_text = (\<lambda>z. show_int (z_second_of_epoch z)),
     qi_timestamp_text = show_int, qi_add = (\<lambda>z s. Some (z\<lparr>z_second_of_epoch := z_second_of_epoch z + int s\<rparr>)),
     qi_clock = \<lparr>ts_offset_ms = 0, ts_last_verified = 0\<rparr>, qi_getenv = Map.empty\<rparr>"

theorem published_documents_hide_secrets_witness:
  "\<forall>ser wd sm. process_queries ser
       (demo_inputs\<lparr>qi_config := with_secrets ''hunter2'' ''du1'' ''pw'' [] (qi_config demo_inputs)\<rparr>) wd sm [QConfig, QStatus]
     = process_queries ser demo_inputs wd sm [QConfig, QStatus]"
proof -
  have k: "[] = [] \<longleftrightarrow> bo_signing_key (tw_backoff (cg_twofa (qi_config demo_inputs))) = []"
    by (simp add: demo_inputs_def default_config_def default_twofa_def twofa_backoff_config.defs)
  show ?thesis using published_documents_hide_secrets [OF k] by blast
qed

definition demo_backoff :: coordinator where
  "demo_backoff = \<lparr>co_mode = ''live'', co_settings_dir = ''/opt/Jts'', co_config = default_recovery_config,
     co_phase = BackoffEvery15Min, co_phase_entered_at_wall = sunday_nine, co_phase_entered_at_mono = 0,
     co_last_full_success_at = None, co_last_full_success_mono = None, co_giveup_alert_sent_at = None,
     co_resumed_by_token_hash = None, co_blocked_awaiting_resume = False, co_giveup_signal_tx = False\<rparr>"

definition sunday_ten :: zoned where
  "sunday_ten = sunday_nine\<lparr>z_second_of_epoch := 1783864800, z_hour := 10\<rparr>"


section \<open>Readiness\<close>

text \<open>
  What clients are told is consistent: the document says \<open>ready\<close> exactly when the
  session is connected and the port forwarder runs, a client is advised to connect exactly
  then, it is never advised both to connect and to wait, and the operator's second-factor
  object is present exactly while the controller waits for the operator.
\<close>

theorem status_is_consistent:
  "\<exists>status advisory wait. snd (build_status_json qi sm) = JObj status \<and> map_of status ''client_advisory'' = Some (JObj advisory)
     \<and> map_of status ''ready'' = Some (JBool (sm_st sm = Connected \<and> sm_socat sm \<and> qi_socat_alive qi))
     \<and> map_of advisory ''should_connect'' = map_of status ''ready''
     \<and> map_of advisory ''should_wait'' = Some (JBool wait) \<and> \<not> (wait \<and> map_of status ''ready'' = Some (JBool True))
     \<and> (map_of status ''hitl'' = Some JNull \<longleftrightarrow> sm_st sm \<noteq> WaitingForHitl2fa)"
proof -
  obtain su jvm where j: "jvm_info_of (qi_now qi) (qi_jvm_wait qi) (qi_supervisor qi) = (su, jvm)" by fastforce
  show ?thesis
    by (cases "sm_st sm")
      (simp_all add: build_status_json_def advisory_json_def client_advisory_def hitl_json_def j Let_def, blast+)
qed

section \<open>Publication\<close>

fun publish_all :: "(json \<Rightarrow> string) \<Rightarrow> nat \<Rightarrow> (query_inputs \<times> state_machine) list \<Rightarrow> query_snapshot list" where
  "publish_all ser v [] = []"
| "publish_all ser v ((qi, sm) # rest) =
     (case publish_snapshot ser qi sm v of (su, v', snap) \<Rightarrow> snap # publish_all ser v' rest)"

lemma publish_versions: "map qs_version (publish_all ser v xs) = [Suc v ..< Suc v + length xs]"
proof (induction ser v xs rule: publish_all.induct)
  case (2 ser v qi sm rest)
  then show ?case by (simp add: publish_snapshot_def split_beta upt_conv_Cons del: upt_Suc)
qed simp

lemma publish_sorted: "sorted_wrt (<) (map qs_version (publish_all ser v xs))"
  unfolding publish_versions by (simp del: upt_Suc)

lemma sorted_wrt_subseq: "subseq ys xs \<Longrightarrow> sorted_wrt P xs \<Longrightarrow> sorted_wrt P ys"
  by (induction rule: list_emb.induct) (auto dest: list_emb_set)

lemma stream_all_sent:
  "(\<And>n. ok n) \<Longrightarrow> sorted_wrt (<) (last_version # map qs_version snaps) \<Longrightarrow>
     stream_loop ok n last_version (map SnapshotChanged snaps) = map (event_line ''status'') snaps"
  by (induction snaps arbitrary: n last_version) auto

text \<open>
  A subscriber that starts with any published snapshot (or the initial one) and is
  woken for some of the later ones, in order, gets one status line for each of them: the
  version check drops none, and no snapshot is sent twice, since versions grow with every
  publication.
\<close>

theorem subscriber_gets_each_once:
  assumes seen: "subseq (first # woken) (initializing # publish_all ser 0 xs)"
    and ok: "\<And>n. ok n"
  shows "stream_loop ok 0 (qs_version first) (map SnapshotChanged woken) = map (event_line ''status'') woken
    \<and> distinct (map qs_version (first # woken))"
proof -
  have all: "sorted_wrt (<) (map qs_version (initializing # publish_all ser 0 xs))"
    using publish_sorted [of ser 0 xs] publish_versions [of ser 0 xs]
    by (auto simp: initializing_def dest: arg_cong [where f = set] simp del: upt_Suc)
  have "subseq (map qs_version (first # woken)) (map qs_version (initializing # publish_all ser 0 xs))"
    using seen by (rule subseq_map)
  then have s: "sorted_wrt (<) (map qs_version (first # woken))" using all by (rule sorted_wrt_subseq)
  show ?thesis
    using stream_all_sent [OF ok, of "qs_version first" woken] s strict_sorted_iff by (auto simp: strict_sorted_iff)
qed

text \<open>Witness for \<open>subscriber_gets_each_once\<close>: two publications after the initial snapshot.\<close>

theorem subscriber_gets_each_once_witness:
  "\<forall>ser sm. stream_loop (\<lambda>_. True) 0 (qs_version initializing)
       (map SnapshotChanged (publish_all ser 0 [(demo_inputs, sm), (demo_inputs, sm)]))
     = map (event_line ''status'') (publish_all ser 0 [(demo_inputs, sm), (demo_inputs, sm)])"
proof (intro allI)
  fix ser and sm :: state_machine
  let ?xs = "[(demo_inputs, sm), (demo_inputs, sm)]"
  have "subseq (initializing # publish_all ser 0 ?xs) (initializing # publish_all ser 0 ?xs)" by (rule subseq_order.refl)
  from subscriber_gets_each_once [OF this, of "\<lambda>_. True"]
  show "stream_loop (\<lambda>_. True) 0 (qs_version initializing) (map SnapshotChanged (publish_all ser 0 ?xs))
     = map (event_line ''status'') (publish_all ser 0 ?xs)" by blast
qed

end
