(* ===== verification/Api_Config.thy ===== *)
theory Api_Config
  imports Config_Loading Command_Server
begin

text \<open>
  The API settings dialog, \<open>handlers/api_config.rs\<close>: the settings read from the
  environment, opening the gateway's configuration dialog (three attempts, polling for its
  window), the API, precautions and exit pages, saving, and the sweeps that close what the
  dialog leaves behind. A run is the sequence of calls made to the agent; what the agent
  answers to a call may depend on how many were made before it. The lemmas show that a run
  that fails has changed no setting, that a run that succeeds works on one configuration
  window, ends with the read-only box in the configured state before it applies, and
  reports exactly the precaution labels the gateway did not find.
\<close>

section \<open>Settings\<close>

record api_config_settings =
  ac_socket_port :: "nat option"
  ac_master_client_id :: "string option"
  ac_read_only_api :: "bool option"
  ac_bypass_order_precautions :: "bool option"
  ac_allow_blind_trading :: "bool option"
  ac_instrument_timezone :: "string option"
  ac_auto_restart_time :: "string option"
  ac_auto_logoff_time :: "string option"

definition api_env_bool :: "getenv \<Rightarrow> string \<Rightarrow> bool option" where
  "api_env_bool env var = map_option (\<lambda>v. to_lowercase v \<in> {''yes'', ''true'', ''1''}) (env var)"

definition settings_from_env :: "getenv \<Rightarrow> api_config_settings" where
  "settings_from_env env =
     \<lparr>ac_socket_port = Option.bind (env ''TWS_SOCKET_PORT'') (parse_uint 65535),
      ac_master_client_id = env_nonempty env ''TWS_MASTER_CLIENT_ID'',
      ac_read_only_api = api_env_bool env ''READ_ONLY_API'',
      ac_bypass_order_precautions = api_env_bool env ''BYPASS_WARNING'',
      ac_allow_blind_trading = api_env_bool env ''ALLOW_BLIND_TRADING'',
      ac_instrument_timezone =
        Some (case env_nonempty env ''TWS_API_INSTRUMENT_TIMEZONE'' of None \<Rightarrow> ''UTC format'' | Some z \<Rightarrow> z),
      ac_auto_restart_time = env_nonempty env ''AUTO_RESTART_TIME'',
      ac_auto_logoff_time = env_nonempty env ''AUTO_LOGOFF_TIME''\<rparr>"

definition has_settings :: "api_config_settings \<Rightarrow> bool" where
  "has_settings s \<longleftrightarrow>
     ac_master_client_id s \<noteq> None \<or> ac_socket_port s \<noteq> None \<or> ac_read_only_api s \<noteq> None
     \<or> ac_bypass_order_precautions s \<noteq> None \<or> ac_allow_blind_trading s \<noteq> None
     \<or> ac_instrument_timezone s \<noteq> None \<or> ac_auto_restart_time s \<noteq> None \<or> ac_auto_logoff_time s \<noteq> None"

definition precaution_labels :: "string list" where
  "precaution_labels =
     [''Bypass Order Precautions for API Orders'',
      ''Bypass Bond warning for API Orders'',
      ''Bypass negative yield to worst confirmation for API Orders'',
      ''Bypass Called Bond warning for API Orders'',
      ''Bypass '' @ quoted ''same action pair trade'' @ '' warning for API orders'',
      ''Bypass price-based volatility risk warning for API Orders'',
      ''Bypass Redirect Order warning for Stock API Orders'',
      ''Bypass No Overfill Protection precaution'',
      ''Bypass Route Marketable to BBO warning for API orders'']"

definition parse_time_with_ampm :: "string \<Rightarrow> string \<times> string" where
  "parse_time_with_ampm input =
     (case split_whitespace input of
        [] \<Rightarrow> (input, ''PM'')
      | [t] \<Rightarrow> (t, ''PM'')
      | t # ap # _ \<Rightarrow> (t, ap))"

section \<open>Calls to the agent\<close>

datatype api_call =
    ListWindows
  | ClickMenuItem nat string
  | ClickAt nat int int
  | SelectTreeNode nat string
  | TypeByLabel nat string string
  | TypeFieldAt nat nat string
  | SetCheckbox nat string bool
  | SetCombobox nat string string
  | PressButton nat string

text \<open>
  The answers, by the number of calls made before: a window list, the outcome of an
  action, or whether a checkbox was found; \<open>None\<close> is an error of the agent.
\<close>

record api_agent =
  aa_windows :: "nat \<Rightarrow> window_info list option"
  aa_act :: "nat \<Rightarrow> api_call \<Rightarrow> bool option"
  aa_found :: "nat \<Rightarrow> api_call \<Rightarrow> bool option"

type_synonym calls = "api_call list"

definition call_windows :: "api_agent \<Rightarrow> calls \<Rightarrow> calls \<times> window_info list option" where
  "call_windows ag cs = (cs @ [ListWindows], aa_windows ag (length cs))"

definition call_act :: "api_agent \<Rightarrow> api_call \<Rightarrow> calls \<Rightarrow> calls \<times> bool option" where
  "call_act ag c cs = (cs @ [c], aa_act ag (length cs) c)"

definition call_checkbox :: "api_agent \<Rightarrow> nat \<Rightarrow> string \<Rightarrow> bool \<Rightarrow> calls \<Rightarrow> calls \<times> bool option" where
  "call_checkbox ag cid label b cs = (cs @ [SetCheckbox cid label b], aa_found ag (length cs) (SetCheckbox cid label b))"

section \<open>Steps\<close>

definition dismiss_popups :: "api_agent \<Rightarrow> nat \<Rightarrow> calls \<Rightarrow> calls" where
  "dismiss_popups ag cid cs =
     (case call_windows ag cs of
        (cs1, None) \<Rightarrow> cs1
      | (cs1, Some ws) \<Rightarrow>
          cs1 @ concat (map (\<lambda>w. if w_id w \<noteq> cid then [PressButton (w_id w) ''Yes'', PressButton (w_id w) ''OK''] else []) ws))"

fun apply_labels :: "api_agent \<Rightarrow> nat \<Rightarrow> bool \<Rightarrow> string list \<Rightarrow> calls \<times> nat \<Rightarrow> calls \<times> nat" where
  "apply_labels ag cid bypass [] (cs, missing) = (cs, missing)"
| "apply_labels ag cid bypass (l # ls) (cs, missing) =
     (case call_checkbox ag cid l bypass cs of
        (cs1, Some False) \<Rightarrow> apply_labels ag cid bypass ls (cs1, saturating_add u32_max missing 1)
      | (cs1, _) \<Rightarrow> apply_labels ag cid bypass ls (cs1, missing))"

definition apply_precaution_labels :: "api_agent \<Rightarrow> nat \<Rightarrow> bool \<Rightarrow> calls \<Rightarrow> calls \<times> nat" where
  "apply_precaution_labels ag cid bypass cs = apply_labels ag cid bypass precaution_labels (cs, 0)"

text \<open>Division of an \<open>i32\<close> rounds towards zero.\<close>

definition half :: "int \<Rightarrow> int" where
  "half x = (if x < 0 then - (- x div 2) else x div 2)"

definition window_centre :: "window_info \<Rightarrow> int \<times> int" where
  "window_centre w =
     (case w_bounds w of None \<Rightarrow> (350, 275) | Some b \<Rightarrow> (half (b_width b), half (b_height b)))"

definition click_centre :: "window_info \<Rightarrow> api_call" where
  "click_centre w = ClickAt (w_id w) (fst (window_centre w)) (snd (window_centre w))"

text \<open>Polling for the dialog, at most \<open>k\<close> times.\<close>

fun poll_config :: "api_agent \<Rightarrow> nat \<Rightarrow> calls \<Rightarrow> calls \<times> window_info option" where
  "poll_config ag 0 cs = (cs, None)"
| "poll_config ag (Suc k) cs =
     (let (cs1, ws) = call_windows ag cs
      in case find (\<lambda>w. contains_str (to_lowercase (w_title w)) ''configuration'') (case ws of None \<Rightarrow> [] | Some l \<Rightarrow> l) of
           Some w \<Rightarrow> (cs1, Some w)
         | None \<Rightarrow> poll_config ag k cs1)"

fun open_dialog :: "api_agent \<Rightarrow> window_info \<Rightarrow> nat \<Rightarrow> calls \<Rightarrow> calls \<times> window_info option" where
  "open_dialog ag win 0 cs = (cs, None)"
| "open_dialog ag win (Suc k) cs =
     (let (cs1, ok) = call_act ag (ClickMenuItem (w_id win) ''Configure/Settings'') cs;
          cs2 = (if ok = Some True then cs1 else fst (call_act ag (ClickMenuItem (w_id win) ''Configure'') cs1))
      in case poll_config ag 20 cs2 of
           (cs3, Some w) \<Rightarrow> (cs3, Some w)
         | (cs3, None) \<Rightarrow> open_dialog ag win k (fst (call_act ag (click_centre win) cs3)))"

definition set_socket_port :: "api_agent \<Rightarrow> nat \<Rightarrow> nat option \<Rightarrow> calls \<Rightarrow> calls" where
  "set_socket_port ag cid port cs =
     (case port of
        None \<Rightarrow> cs
      | Some p \<Rightarrow>
          (let (cs1, ok) = call_act ag (TypeByLabel cid ''Socket port'' (show_nat p)) cs
           in if ok = Some True then cs1 else fst (call_act ag (TypeFieldAt cid 0 (show_nat p)) cs1)))"

definition set_master_client :: "api_agent \<Rightarrow> nat \<Rightarrow> string option \<Rightarrow> calls \<Rightarrow> calls" where
  "set_master_client ag cid mid cs =
     (case mid of None \<Rightarrow> cs | Some m \<Rightarrow> fst (call_act ag (TypeFieldAt cid 1 m) cs))"

text \<open>The read-only box; a missing box counts once.\<close>

definition set_read_only :: "api_agent \<Rightarrow> nat \<Rightarrow> bool option \<Rightarrow> calls \<Rightarrow> calls \<times> nat" where
  "set_read_only ag cid ro cs =
     (case ro of
        None \<Rightarrow> (cs, 0)
      | Some b \<Rightarrow>
          (let (cs1, f1) = call_checkbox ag cid ''Read-Only API'' True cs
           in if b then (cs1, if f1 = Some False then 1 else 0)
              else (let (cs2, f2) = call_checkbox ag cid ''Read-Only API'' False cs1
                    in (cs2, if f1 = Some False \<or> f2 = Some False then 1 else 0))))"

definition set_timezone :: "api_agent \<Rightarrow> nat \<Rightarrow> string option \<Rightarrow> calls \<Rightarrow> calls" where
  "set_timezone ag cid tz cs =
     (case tz of
        None \<Rightarrow> cs
      | Some z \<Rightarrow> fst (call_act ag (SetCombobox cid ''Send instrument-specific attributes for dual-mode API client in'' z) cs))"

definition set_precautions :: "api_agent \<Rightarrow> nat \<Rightarrow> bool option \<Rightarrow> calls \<Rightarrow> calls \<times> nat" where
  "set_precautions ag cid bypass cs =
     (case bypass of
        None \<Rightarrow> (cs, 0)
      | Some b \<Rightarrow>
          (let (cs1, missing) = apply_precaution_labels ag cid b (fst (call_act ag (SelectTreeNode cid ''Precautions'') cs))
           in (dismiss_popups ag cid cs1, missing)))"

definition set_exit_time :: "nat \<Rightarrow> string \<Rightarrow> string \<Rightarrow> calls \<Rightarrow> calls" where
  "set_exit_time cid t kind cs =
     (let (time_val, am_pm) = parse_time_with_ampm t
      in cs @ [TypeFieldAt cid 0 time_val, PressButton cid am_pm, PressButton cid kind])"

definition set_lock_and_exit :: "api_agent \<Rightarrow> nat \<Rightarrow> api_config_settings \<Rightarrow> calls \<Rightarrow> calls" where
  "set_lock_and_exit ag cid s cs =
     (if ac_auto_restart_time s = None \<and> ac_auto_logoff_time s = None then cs
      else (let cs1 = fst (call_act ag (SelectTreeNode cid ''Lock and Exit'') cs)
            in case ac_auto_restart_time s of
                 Some t \<Rightarrow> dismiss_popups ag cid (set_exit_time cid t ''Auto restart'' cs1)
               | None \<Rightarrow> (case ac_auto_logoff_time s of
                            Some t \<Rightarrow> set_exit_time cid t ''Auto logoff'' cs1
                          | None \<Rightarrow> cs1)))"

fun post_sweeps :: "api_agent \<Rightarrow> nat \<Rightarrow> calls \<Rightarrow> calls" where
  "post_sweeps ag 0 cs = cs"
| "post_sweeps ag (Suc k) cs =
     (let (cs1, ws) = call_windows ag cs; post = (case ws of None \<Rightarrow> [] | Some l \<Rightarrow> l)
      in if length post \<le> 1 then cs1
         else post_sweeps ag k (cs1 @ map (\<lambda>w. PressButton (w_id w) ''OK'') post))"

definition save_and_close :: "api_agent \<Rightarrow> nat \<Rightarrow> calls \<Rightarrow> calls" where
  "save_and_close ag cid cs =
     (let cs1 = post_sweeps ag 3 (cs @ [PressButton cid ''Apply'', PressButton cid ''OK'']);
          (cs2, ws) = call_windows ag cs1
      in case ws of Some (w # _) \<Rightarrow> cs2 @ [click_centre w] | _ \<Rightarrow> cs2)"

section \<open>A run\<close>

record api_config_report =
  rp_precaution_labels_not_found :: nat
  rp_read_only_api_label_not_found :: nat

definition config_pages :: "api_agent \<Rightarrow> api_config_settings \<Rightarrow> nat \<Rightarrow> calls \<Rightarrow> calls \<times> api_config_report" where
  "config_pages ag s cid cs =
     (let cs1 = set_master_client ag cid (ac_master_client_id s) (set_socket_port ag cid (ac_socket_port s) cs);
          (cs2, ro) = set_read_only ag cid (ac_read_only_api s) cs1;
          (cs3, missing) = set_precautions ag cid (ac_bypass_order_precautions s)
                             (set_timezone ag cid (ac_instrument_timezone s) cs2);
          cs4 = set_lock_and_exit ag cid s cs3
      in (cs4, \<lparr>rp_precaution_labels_not_found = missing, rp_read_only_api_label_not_found = ro\<rparr>))"

definition configure_dialog :: "api_agent \<Rightarrow> api_config_settings \<Rightarrow> nat \<Rightarrow> calls \<Rightarrow> calls \<times> (string + api_config_report)" where
  "configure_dialog ag s cid cs =
     (case call_act ag (SelectTreeNode cid ''API'') cs of
        (cs1, None) \<Rightarrow> (cs1, Inl ''Failed to select API'')
      | (cs1, Some _) \<Rightarrow>
          (case call_act ag (SelectTreeNode cid ''Settings'') cs1 of
             (cs2, None) \<Rightarrow> (cs2, Inl ''Failed to navigate to API/Settings'')
           | (cs2, Some _) \<Rightarrow>
               (let (cs3, report) = config_pages ag s cid cs2
                in (save_and_close ag cid cs3, Inr report))))"

definition is_main_gateway :: "window_info \<Rightarrow> bool" where
  "is_main_gateway w =
     (let t = to_lowercase (w_title w) in contains_str t ''ibkr gateway'' \<or> contains_str t ''ib gateway'')"

definition apply_api_config :: "api_agent \<Rightarrow> api_config_settings \<Rightarrow> calls \<times> (string + api_config_report)" where
  "apply_api_config ag s =
     (if \<not> has_settings s
      then ([], Inr \<lparr>rp_precaution_labels_not_found = 0, rp_read_only_api_label_not_found = 0\<rparr>)
      else (case call_windows ag [] of
              (cs, None) \<Rightarrow> (cs, Inl ''Failed to list windows'')
            | (cs, Some ws) \<Rightarrow>
                (case find is_main_gateway ws of
                   None \<Rightarrow> (cs, Inl ''Main Gateway window not found'')
                 | Some win \<Rightarrow>
                     (case open_dialog ag win 3 cs of
                        (cs1, None) \<Rightarrow> (cs1, Inl ''Configuration dialog not found after 3 attempts'')
                      | (cs1, Some cw) \<Rightarrow> configure_dialog ag s (w_id cw) cs1))))"

section \<open>What a run does\<close>

fun changes_setting :: "api_call \<Rightarrow> bool" where
  "changes_setting (TypeByLabel i l t) = True"
| "changes_setting (TypeFieldAt i k t) = True"
| "changes_setting (SetCheckbox i l b) = True"
| "changes_setting (SetCombobox i l t) = True"
| "changes_setting (PressButton i b) = True"
| "changes_setting c = False"

fun is_checkbox :: "api_call \<Rightarrow> bool" where
  "is_checkbox (SetCheckbox i l b) = True"
| "is_checkbox c = False"

text \<open>A call on the pages of the dialog: on the dialog itself, except that pop-ups beside it are confirmed.\<close>

fun page_call :: "nat \<Rightarrow> api_call \<Rightarrow> bool" where
  "page_call cid ListWindows = True"
| "page_call cid (ClickMenuItem i m) = False"
| "page_call cid (ClickAt i x y) = False"
| "page_call cid (SelectTreeNode i n) = (i = cid)"
| "page_call cid (TypeByLabel i l t) = (i = cid)"
| "page_call cid (TypeFieldAt i k t) = (i = cid)"
| "page_call cid (SetCheckbox i l b) = False"
| "page_call cid (SetCombobox i l t) = (i = cid)"
| "page_call cid (PressButton i b) = (i = cid \<or> b = ''Yes'' \<or> b = ''OK'')"

fun closing_call :: "api_call \<Rightarrow> bool" where
  "closing_call ListWindows = True"
| "closing_call (ClickAt i x y) = True"
| "closing_call (PressButton i b) = (b = ''OK'')"
| "closing_call c = False"

definition extends :: "(api_call \<Rightarrow> bool) \<Rightarrow> calls \<Rightarrow> calls \<Rightarrow> bool" where
  "extends P cs cs' \<longleftrightarrow> (\<exists>seg. cs' = cs @ seg \<and> list_all P seg)"

lemma extends_refl [simp]: "extends P cs cs"
  by (simp add: extends_def)

lemma extends_snoc [simp]: "extends P cs (cs @ seg) \<longleftrightarrow> list_all P seg"
  by (simp add: extends_def)

lemma extends_trans: "extends P a b \<Longrightarrow> extends P b c \<Longrightarrow> extends P a c"
  by (auto simp: extends_def)

lemma extends_call: "extends P a b \<Longrightarrow> P c \<Longrightarrow> extends P a (b @ [c])"
  by (auto simp: extends_def)

lemmas call_defs = call_windows_def call_act_def call_checkbox_def

lemma dismiss_popups_extends: "extends (page_call cid) cs (dismiss_popups ag cid cs)"
proof (cases "aa_windows ag (length cs)")
  case (Some ws)
  have "list_all (page_call cid)
      (concat (map (\<lambda>w. if w_id w \<noteq> cid then [PressButton (w_id w) ''Yes'', PressButton (w_id w) ''OK''] else []) ws))"
    by (induction ws) auto
  then show ?thesis by (simp add: dismiss_popups_def call_defs Some)
qed (simp add: dismiss_popups_def call_defs)

lemma poll_config_quiet: "extends (\<lambda>c. \<not> changes_setting c) cs (fst (poll_config ag k cs))"
proof (induction k arbitrary: cs)
  case (Suc k)
  have "extends (\<lambda>c. \<not> changes_setting c) cs (fst (poll_config ag k (cs @ [ListWindows])))"
    by (rule extends_trans [OF _ Suc.IH]) simp
  then show ?case by (simp add: call_defs split: option.split)
qed simp

lemma open_dialog_quiet: "extends (\<lambda>c. \<not> changes_setting c) cs (fst (open_dialog ag win k cs))"
proof (induction k arbitrary: cs)
  case (Suc k)
  let ?m = "cs @ [ClickMenuItem (w_id win) ''Configure/Settings'']"
  let ?cs2 = "if aa_act ag (length cs) (ClickMenuItem (w_id win) ''Configure/Settings'') = Some True then ?m
      else ?m @ [ClickMenuItem (w_id win) ''Configure'']"
  obtain cs3 r where p: "poll_config ag 20 ?cs2 = (cs3, r)" by fastforce
  have e3: "extends (\<lambda>c. \<not> changes_setting c) cs cs3"
    using poll_config_quiet [of ?cs2 ag 20] p by (intro extends_trans [OF _ poll_config_quiet [of ?cs2 ag 20, unfolded p fst_conv]]) auto
  have "extends (\<lambda>c. \<not> changes_setting c) cs (fst (open_dialog ag win k (cs3 @ [click_centre win])))"
    by (rule extends_trans [OF extends_call [OF e3] Suc.IH]) (simp add: click_centre_def)
  with e3 show ?case unfolding open_dialog.simps call_defs Let_def prod.case fst_conv p
    by (simp split: option.split)
qed simp

lemma poll_config_found:
  "snd (poll_config ag k cs) = Some w \<Longrightarrow>
     \<exists>n ws. aa_windows ag n = Some ws \<and> w \<in> set ws \<and> contains_str (to_lowercase (w_title w)) ''configuration''"
proof (induction k arbitrary: cs)
  case (Suc k)
  show ?case
  proof (cases "find (\<lambda>w. contains_str (to_lowercase (w_title w)) ''configuration'')
      (case aa_windows ag (length cs) of None \<Rightarrow> [] | Some l \<Rightarrow> l)")
    case None
    then show ?thesis using Suc by (simp add: call_defs)
  next
    case (Some v)
    then have "w = v" using Suc.prems by (simp add: call_defs)
    moreover obtain ws where "aa_windows ag (length cs) = Some ws" "v \<in> set ws"
        "contains_str (to_lowercase (w_title v)) ''configuration''"
      using find_SomeD [OF Some] by (cases "aa_windows ag (length cs)") auto
    ultimately show ?thesis by blast
  qed
qed simp

lemma open_dialog_found:
  "snd (open_dialog ag win k cs) = Some w \<Longrightarrow>
     \<exists>n ws. aa_windows ag n = Some ws \<and> w \<in> set ws \<and> contains_str (to_lowercase (w_title w)) ''configuration''"
proof (induction k arbitrary: cs)
  case (Suc k)
  then show ?case using poll_config_found
    by (auto simp: Let_def split: prod.splits option.splits if_splits) (metis snd_conv)+
qed simp

text \<open>The pages: what each step appends.\<close>

lemma page_steps_extend:
  "extends (page_call cid) cs (set_socket_port ag cid port cs)"
  "extends (page_call cid) cs (set_master_client ag cid mid cs)"
  "extends (page_call cid) cs (set_timezone ag cid tz cs)"
  by (simp_all add: set_socket_port_def set_master_client_def set_timezone_def call_defs Let_def split: option.split)

lemma set_exit_time_extends: "extends (page_call cid) cs (set_exit_time cid t kind cs)"
  by (simp add: set_exit_time_def Let_def split_beta)

lemma lock_and_exit_extends: "extends (page_call cid) cs (set_lock_and_exit ag cid s cs)"
proof -
  have "extends (page_call cid) cs (set_exit_time cid t kind (cs @ [SelectTreeNode cid n]))" for t kind n
    by (rule extends_trans [OF _ set_exit_time_extends]) simp
  then show ?thesis
    by (auto simp: set_lock_and_exit_def call_defs Let_def split: option.split
        intro: extends_trans [OF _ dismiss_popups_extends])
qed

definition read_only_calls :: "nat \<Rightarrow> bool option \<Rightarrow> calls" where
  "read_only_calls cid ro =
     (case ro of
        None \<Rightarrow> []
      | Some True \<Rightarrow> [SetCheckbox cid ''Read-Only API'' True]
      | Some False \<Rightarrow> [SetCheckbox cid ''Read-Only API'' True, SetCheckbox cid ''Read-Only API'' False])"

definition precaution_calls :: "nat \<Rightarrow> bool option \<Rightarrow> calls" where
  "precaution_calls cid bypass =
     (case bypass of None \<Rightarrow> [] | Some b \<Rightarrow> map (\<lambda>l. SetCheckbox cid l b) precaution_labels)"

lemma set_read_only_calls: "fst (set_read_only ag cid ro cs) = cs @ read_only_calls cid ro"
  "snd (set_read_only ag cid ro cs) \<le> 1"
  by (auto simp: set_read_only_def read_only_calls_def call_defs Let_def split: option.split bool.split)

lemma apply_labels_calls: "fst (apply_labels ag cid b ls (cs, n)) = cs @ map (\<lambda>l. SetCheckbox cid l b) ls"
  by (induction ls arbitrary: cs n) (simp_all add: call_defs split: option.split bool.split)

text \<open>How many checkbox calls with a label from a list were answered \<open>not found\<close>.\<close>

fun boxed :: "string list \<Rightarrow> api_call \<Rightarrow> bool" where
  "boxed ls (SetCheckbox i l b) = (l \<in> set ls)"
| "boxed ls c = False"

definition misses :: "api_agent \<Rightarrow> string list \<Rightarrow> calls \<Rightarrow> nat" where
  "misses ag ls cs = length (filter (\<lambda>(i, c). boxed ls c \<and> aa_found ag i c = Some False) (enumerate 0 cs))"

lemma misses_append:
  "misses ag ls (cs @ seg) = misses ag ls cs
     + length (filter (\<lambda>(i, c). boxed ls c \<and> aa_found ag i c = Some False) (enumerate (length cs) seg))"
  by (simp add: misses_def enumerate_append_eq)

lemma misses_quiet: "list_all (\<lambda>c. \<not> boxed ls c) seg \<Longrightarrow> misses ag ls (cs @ seg) = misses ag ls cs"
  by (auto simp: misses_append list_all_iff filter_empty_conv in_set_enumerate_eq)

lemma apply_labels_count:
  assumes "set ls \<subseteq> set all" "n + length ls \<le> u32_max"
  shows "snd (apply_labels ag cid b ls (cs, n)) + misses ag all cs
    = n + misses ag all (cs @ map (\<lambda>l. SetCheckbox cid l b) ls)"
  using assms
proof (induction ls arbitrary: cs n)
  case (Cons l ls)
  let ?c = "SetCheckbox cid l b"
  have m: "misses ag all (cs @ [?c]) = misses ag all cs + (if aa_found ag (length cs) ?c = Some False then 1 else 0)"
    using Cons.prems by (simp add: misses_append)
  have "(cs @ [?c]) @ map (\<lambda>l. SetCheckbox cid l b) ls = cs @ map (\<lambda>l. SetCheckbox cid l b) (l # ls)" by simp
  then show ?case
    using Cons.IH [of "Suc n" "cs @ [?c]"] Cons.IH [of n "cs @ [?c]"] Cons.prems m
    by (auto simp: call_defs saturating_add_def split: option.split bool.split)
qed simp

lemma precaution_labels_length [simp]: "length precaution_labels = 9"
  by (simp add: precaution_labels_def)

lemma page_call_not_boxed: "list_all (page_call cid) seg \<Longrightarrow> list_all (\<lambda>c. \<not> boxed ls c) seg"
proof -
  have "page_call cid c \<Longrightarrow> \<not> boxed ls c" for c by (cases c) simp_all
  then show "list_all (page_call cid) seg \<Longrightarrow> list_all (\<lambda>c. \<not> boxed ls c) seg" by (simp add: list_all_iff)
qed

lemma page_call_no_checkbox: "list_all (page_call cid) seg \<Longrightarrow> filter is_checkbox seg = []"
proof -
  have "page_call cid c \<Longrightarrow> \<not> is_checkbox c" for c by (cases c) simp_all
  then show "list_all (page_call cid) seg \<Longrightarrow> filter is_checkbox seg = []" by (simp add: list_all_iff filter_empty_conv)
qed

lemma set_precautions_calls:
  obtains seg1 seg2 where "fst (set_precautions ag cid bypass cs) = cs @ seg1 @ precaution_calls cid bypass @ seg2"
    "list_all (page_call cid) seg1" "list_all (page_call cid) seg2"
    "snd (set_precautions ag cid bypass cs) + misses ag precaution_labels cs
       = misses ag precaution_labels (cs @ seg1 @ precaution_calls cid bypass @ seg2)"
    "snd (set_precautions ag cid bypass cs) \<le> 9"
proof (cases bypass)
  case None
  then show ?thesis by (intro that [of "[]" "[]"]) (simp_all add: set_precautions_def precaution_calls_def)
next
  case (Some b)
  let ?cs1 = "cs @ [SelectTreeNode cid ''Precautions'']" and ?ls = "map (\<lambda>l. SetCheckbox cid l b) precaution_labels"
  let ?a = "apply_labels ag cid b precaution_labels (?cs1, 0)"
  have f: "fst ?a = ?cs1 @ ?ls" by (rule apply_labels_calls)
  have q: "misses ag precaution_labels ?cs1 = misses ag precaution_labels cs" by (rule misses_quiet) simp
  have c: "snd ?a + misses ag precaution_labels cs = misses ag precaution_labels (?cs1 @ ?ls)"
    using apply_labels_count [of precaution_labels precaution_labels 0 ag cid b ?cs1] q by (simp add: u32_max_def)
  obtain seg2 where seg2: "dismiss_popups ag cid (?cs1 @ ?ls) = (?cs1 @ ?ls) @ seg2" "list_all (page_call cid) seg2"
    using dismiss_popups_extends [of cid "?cs1 @ ?ls" ag] unfolding extends_def by blast
  have m: "misses ag precaution_labels ((?cs1 @ ?ls) @ seg2) = misses ag precaution_labels (?cs1 @ ?ls)"
    by (rule misses_quiet [OF page_call_not_boxed [OF seg2(2)]])
  have "misses ag precaution_labels (?cs1 @ ?ls) \<le> misses ag precaution_labels ?cs1 + length (enumerate (length ?cs1) ?ls)"
    unfolding misses_append [of ag precaution_labels ?cs1] by (intro add_left_mono length_filter_le)
  then have le: "snd ?a \<le> 9" using c q by simp
  have eq: "set_precautions ag cid bypass cs = ((?cs1 @ ?ls) @ seg2, snd ?a)"
    using seg2(1) f by (simp add: set_precautions_def Some call_defs apply_precaution_labels_def split_beta Let_def)
  show ?thesis
    by (rule that [of "[SelectTreeNode cid ''Precautions'']" seg2])
      (use eq c m le seg2(2) in \<open>simp_all add: precaution_calls_def Some\<close>)
qed

lemma read_only_calls_not_boxed: "list_all (\<lambda>c. \<not> boxed precaution_labels c) (read_only_calls cid ro)"
  by (auto simp: read_only_calls_def precaution_labels_def quoted_def split: option.split bool.split)

lemma read_only_calls_checkbox: "filter is_checkbox (read_only_calls cid ro) = read_only_calls cid ro"
  by (simp add: read_only_calls_def split: option.split bool.split)

lemma precaution_calls_checkbox: "filter is_checkbox (precaution_calls cid b) = precaution_calls cid b"
  by (simp add: precaution_calls_def comp_def split: option.split)

text \<open>A call on the dialog, its checkboxes included.\<close>

definition dialog_call :: "nat \<Rightarrow> api_call \<Rightarrow> bool" where
  "dialog_call cid c \<longleftrightarrow> page_call cid c \<or> (\<exists>l b. c = SetCheckbox cid l b)"

lemma checkbox_calls_on_dialog:
  "list_all (dialog_call cid) (read_only_calls cid ro)" "list_all (dialog_call cid) (precaution_calls cid b)"
proof -
  show "list_all (dialog_call cid) (read_only_calls cid ro)"
    by (auto simp: read_only_calls_def dialog_call_def split: option.split bool.split)
  show "list_all (dialog_call cid) (precaution_calls cid b)"
    by (cases b) (auto simp: precaution_calls_def dialog_call_def list_all_iff)
qed

lemma page_dialog: "list_all (page_call cid) seg \<Longrightarrow> list_all (dialog_call cid) seg"
  by (simp add: list_all_iff dialog_call_def)

lemma config_pages_body:
  obtains body where "fst (config_pages ag s cid cs) = cs @ body" "list_all (dialog_call cid) body"
    "filter is_checkbox body = read_only_calls cid (ac_read_only_api s) @ precaution_calls cid (ac_bypass_order_precautions s)"
    "rp_precaution_labels_not_found (snd (config_pages ag s cid cs)) + misses ag precaution_labels cs
       = misses ag precaution_labels (cs @ body)"
    "rp_precaution_labels_not_found (snd (config_pages ag s cid cs)) \<le> 9"
    "rp_read_only_api_label_not_found (snd (config_pages ag s cid cs)) \<le> 1"
proof -
  let ?L = precaution_labels
  let ?cs1 = "set_master_client ag cid (ac_master_client_id s) (set_socket_port ag cid (ac_socket_port s) cs)"
  let ?ro = "read_only_calls cid (ac_read_only_api s)"
  have "extends (page_call cid) cs ?cs1" by (rule extends_trans) (rule page_steps_extend)+
  then obtain b1 where b1: "?cs1 = cs @ b1" "list_all (page_call cid) b1" unfolding extends_def by blast
  have ro: "fst (set_read_only ag cid (ac_read_only_api s) ?cs1) = cs @ b1 @ ?ro"
    "snd (set_read_only ag cid (ac_read_only_api s) ?cs1) \<le> 1"
    using set_read_only_calls [of ag cid "ac_read_only_api s" ?cs1] by (simp_all add: b1(1))
  obtain b2 where b2: "set_timezone ag cid (ac_instrument_timezone s) (cs @ b1 @ ?ro) = (cs @ b1 @ ?ro) @ b2"
      "list_all (page_call cid) b2"
    using page_steps_extend(3) unfolding extends_def by blast
  let ?cs3 = "cs @ b1 @ ?ro @ b2"
  obtain b3 b4 where pc: "fst (set_precautions ag cid (ac_bypass_order_precautions s) ?cs3)
        = ?cs3 @ b3 @ precaution_calls cid (ac_bypass_order_precautions s) @ b4"
      "list_all (page_call cid) b3" "list_all (page_call cid) b4"
      "snd (set_precautions ag cid (ac_bypass_order_precautions s) ?cs3) + misses ag ?L ?cs3
        = misses ag ?L (?cs3 @ b3 @ precaution_calls cid (ac_bypass_order_precautions s) @ b4)"
      "snd (set_precautions ag cid (ac_bypass_order_precautions s) ?cs3) \<le> 9"
    by (rule set_precautions_calls)
  let ?cs4 = "?cs3 @ b3 @ precaution_calls cid (ac_bypass_order_precautions s) @ b4"
  obtain b5 where b5: "set_lock_and_exit ag cid s ?cs4 = ?cs4 @ b5" "list_all (page_call cid) b5"
    using lock_and_exit_extends unfolding extends_def by blast
  let ?body = "b1 @ ?ro @ b2 @ b3 @ precaution_calls cid (ac_bypass_order_precautions s) @ b4 @ b5"
  have run: "config_pages ag s cid cs = (cs @ ?body,
      \<lparr>rp_precaution_labels_not_found = snd (set_precautions ag cid (ac_bypass_order_precautions s) ?cs3),
       rp_read_only_api_label_not_found = snd (set_read_only ag cid (ac_read_only_api s) ?cs1)\<rparr>)"
    using ro(1) b2(1) pc(1) b5(1) by (simp add: config_pages_def Let_def split_beta)
  have "list_all (\<lambda>c. \<not> boxed ?L c) (b1 @ ?ro @ b2)"
    using page_call_not_boxed [OF b1(2)] page_call_not_boxed [OF b2(2)] read_only_calls_not_boxed by simp
  then have q: "misses ag ?L ?cs3 = misses ag ?L cs" by (rule misses_quiet)
  have q5: "misses ag ?L (?cs4 @ b5) = misses ag ?L ?cs4" by (rule misses_quiet [OF page_call_not_boxed [OF b5(2)]])
  show ?thesis
  proof (rule that [of ?body])
    show "list_all (dialog_call cid) ?body"
      using b1(2) b2(2) pc(2,3) b5(2) by (simp add: page_dialog checkbox_calls_on_dialog)
    show "filter is_checkbox ?body = ?ro @ precaution_calls cid (ac_bypass_order_precautions s)"
      using b1(2) b2(2) pc(2,3) b5(2)
      by (simp add: page_call_no_checkbox read_only_calls_checkbox precaution_calls_checkbox)
    show "rp_precaution_labels_not_found (snd (config_pages ag s cid cs)) + misses ag ?L cs = misses ag ?L (cs @ ?body)"
      using pc(4) q q5 by (simp add: run)
  qed (use run pc(5) ro(2) in simp_all)
qed

lemma post_sweeps_closing: "extends closing_call cs (post_sweeps ag k cs)"
proof (induction k arbitrary: cs)
  case (Suc k)
  have "extends closing_call cs (post_sweeps ag k (cs @ ListWindows # map (\<lambda>w. PressButton (w_id w) ''OK'') ws))"
    for ws :: "window_info list"
    by (rule extends_trans [OF _ Suc.IH]) (simp add: list_all_iff)
  then show ?case by (simp add: call_defs Let_def)
qed simp

lemma save_and_close_calls:
  obtains post where "save_and_close ag cid cs = cs @ [PressButton cid ''Apply'', PressButton cid ''OK''] @ post"
    "list_all closing_call post"
proof -
  obtain seg where seg: "post_sweeps ag 3 (cs @ [PressButton cid ''Apply'', PressButton cid ''OK''])
      = (cs @ [PressButton cid ''Apply'', PressButton cid ''OK'']) @ seg" "list_all closing_call seg"
    using post_sweeps_closing unfolding extends_def by blast
  let ?cs1 = "(cs @ [PressButton cid ''Apply'', PressButton cid ''OK'']) @ seg"
  have "extends closing_call ?cs1 (save_and_close ag cid cs)"
    unfolding save_and_close_def seg(1) Let_def call_defs prod.case
    by (simp add: click_centre_def extends_def split: option.split list.split)
  then obtain fin where fin: "save_and_close ag cid cs = ?cs1 @ fin" "list_all closing_call fin"
    unfolding extends_def by blast
  show ?thesis by (rule that [of "seg @ fin"]) (use seg(2) fin in simp_all)
qed

lemma apply_api_configE:
  assumes "has_settings s"
  obtains (failed) cs e where "apply_api_config ag s = (cs, Inl e)" "list_all (\<lambda>c. \<not> changes_setting c) cs"
  | (opened) pre cw n ws where "apply_api_config ag s = configure_dialog ag s (w_id cw) pre"
      "list_all (\<lambda>c. \<not> changes_setting c) pre"
      "aa_windows ag n = Some ws" "cw \<in> set ws" "contains_str (to_lowercase (w_title cw)) ''configuration''"
proof (cases "Option.bind (aa_windows ag 0) (find is_main_gateway)")
  case None
  show ?thesis
  proof (cases "aa_windows ag 0")
    case None
    then show ?thesis using failed [of "[ListWindows]"] assms by (simp add: apply_api_config_def call_defs)
  next
    case (Some ws)
    then show ?thesis using failed [of "[ListWindows]"] assms None by (simp add: apply_api_config_def call_defs)
  qed
next
  case (Some win)
  then obtain ws where ws: "aa_windows ag 0 = Some ws" "find is_main_gateway ws = Some win" by (auto simp: bind_eq_Some_conv)
  obtain cs1 r where o: "open_dialog ag win 3 [ListWindows] = (cs1, r)" by fastforce
  have q: "list_all (\<lambda>c. \<not> changes_setting c) cs1"
    using open_dialog_quiet [of "[ListWindows]" ag win 3] o by (auto simp: extends_def)
  have run: "apply_api_config ag s = (case r of None \<Rightarrow> (cs1, Inl ''Configuration dialog not found after 3 attempts'')
      | Some cw \<Rightarrow> configure_dialog ag s (w_id cw) cs1)"
    using assms ws o by (simp add: apply_api_config_def call_defs)
  show ?thesis
  proof (cases r)
    case None
    then show ?thesis using failed run q by simp
  next
    case (Some cw)
    then show ?thesis using opened run q open_dialog_found [of ag win 3 "[ListWindows]" cw] o by auto
  qed
qed

text \<open>
  C39. A configuration run that fails has changed nothing: until its error it has only
  listed windows, opened menus, clicked into the main window to close them and selected
  tree nodes; no text was typed, no box or list changed and no button pressed.
\<close>

theorem failed_config_changes_nothing:
  assumes "snd (apply_api_config ag s) = Inl e"
  shows "list_all (\<lambda>c. \<not> changes_setting c) (fst (apply_api_config ag s))"
proof -
  have hs: "has_settings s"
  proof (rule ccontr)
    assume "\<not> has_settings s"
    then show False using assms by (simp add: apply_api_config_def)
  qed
  from hs show ?thesis
  proof (cases rule: apply_api_configE [of s ag])
    case (opened pre cw n ws)
    then show ?thesis using assms by (auto simp: configure_dialog_def call_defs split_beta Let_def split: option.splits)
  qed simp
qed


text \<open>Witnesses: an agent that shows no windows, and one with the gateway and its dialog, where one label is missing.\<close>

definition silent_agent :: api_agent where
  "silent_agent = \<lparr>aa_windows = (\<lambda>n. None), aa_act = (\<lambda>n c. None), aa_found = (\<lambda>n c. None)\<rparr>"

theorem failed_config_changes_nothing_witness:
  "list_all (\<lambda>c. \<not> changes_setting c) (fst (apply_api_config silent_agent (settings_from_env Map.empty)))"
  by (rule failed_config_changes_nothing [of _ _ "''Failed to list windows''"])
    (simp add: apply_api_config_def has_settings_def settings_from_env_def call_defs silent_agent_def)

definition dialog_agent :: api_agent where
  "dialog_agent = \<lparr>aa_windows = (\<lambda>n. Some
        [\<lparr>w_id = 1, w_title = ''IB Gateway'', w_class = [], w_bounds = None, w_visible = True\<rparr>,
         \<lparr>w_id = 2, w_title = ''Configuration'', w_class = [], w_bounds = None, w_visible = True\<rparr>]),
     aa_act = (\<lambda>n c. Some True),
     aa_found = (\<lambda>n c. Some (c \<noteq> SetCheckbox 2 ''Bypass Bond warning for API Orders'' True))\<rparr>"

definition trading_settings :: api_config_settings where
  "trading_settings = \<lparr>ac_socket_port = None, ac_master_client_id = None, ac_read_only_api = Some False,
     ac_bypass_order_precautions = Some True, ac_allow_blind_trading = None, ac_instrument_timezone = None,
     ac_auto_restart_time = None, ac_auto_logoff_time = None\<rparr>"


text \<open>
  Settings read from the environment are never empty, because the time zone has a default:
  the branch that applies nothing is not reached from the controller. The blind-trading
  setting has no effect on a run, and an error of a tree selection stops a run while a
  node that was not found does not.
\<close>

theorem env_settings_never_empty: "has_settings (settings_from_env env)"
  by (simp add: has_settings_def settings_from_env_def)

theorem blind_trading_not_applied:
  assumes "ac_instrument_timezone s \<noteq> None"
  shows "apply_api_config ag (s\<lparr>ac_allow_blind_trading := x\<rparr>) = apply_api_config ag s"
proof -
  have "set_lock_and_exit ag cid (s\<lparr>ac_allow_blind_trading := x\<rparr>) = set_lock_and_exit ag cid s" for cid
    by (rule ext) (simp add: set_lock_and_exit_def Let_def split: option.split)
  then have p: "config_pages ag (s\<lparr>ac_allow_blind_trading := x\<rparr>) cid cs = config_pages ag s cid cs" for cid cs
    by (simp add: config_pages_def)
  have "configure_dialog ag (s\<lparr>ac_allow_blind_trading := x\<rparr>) = configure_dialog ag s"
    by (intro ext) (simp only: configure_dialog_def p)
  then have c: "configure_dialog ag (s\<lparr>ac_allow_blind_trading := x\<rparr>) cid cs = configure_dialog ag s cid cs" for cid cs
    by simp
  have "has_settings (s\<lparr>ac_allow_blind_trading := x\<rparr>) = has_settings s" using assms by (simp add: has_settings_def)
  then show ?thesis by (simp only: apply_api_config_def c)
qed

theorem missing_tree_node_ignored:
  assumes "aa_act ag (length cs) (SelectTreeNode cid ''API'') = Some False"
    "aa_act ag (length cs + 1) (SelectTreeNode cid ''Settings'') = Some False"
  shows "snd (configure_dialog ag s cid cs) = Inr (snd (config_pages ag s cid (cs @ [SelectTreeNode cid ''API'', SelectTreeNode cid ''Settings''])))"
  using assms by (simp add: configure_dialog_def call_defs split_beta Let_def)

text \<open>An empty \<open>READ_ONLY_API\<close> reads as a request to switch read-only mode off.\<close>

theorem empty_read_only_switches_off:
  "env ''READ_ONLY_API'' = Some [] \<Longrightarrow>
     read_only_calls cid (ac_read_only_api (settings_from_env env))
       = [SetCheckbox cid ''Read-Only API'' True, SetCheckbox cid ''Read-Only API'' False]"
  by (simp add: settings_from_env_def api_env_bool_def to_lowercase_def read_only_calls_def)

end
