(* ===== verification/Server_Loop.thy ===== *)
theory Server_Loop
  imports Command_Server
begin

text \<open>
  The two background loops around the sockets: the accept loop of the command server
  (\<open>CommandServer::run\<close> in \<open>command_server.rs\<close>) with its limit of concurrent connections,
  as a step relation over connections that come, act and close in any order; and the
  reader of the agent's event stream (\<open>event_stream.rs\<close>) with its reconnection back-off.
  The semaphore is an interface with its laws, which the counter of the loop satisfies.
  The lemmas show that no run holds more than ten connections or forwards an unauthorized
  command, that each connection forwards at most one, that held connections lock others
  out, and for the reader that the delays stay within their bounds, that exactly the
  well-formed lines are forwarded, in order, and what ends it.
\<close>

section \<open>Permits\<close>

locale permit_pool =
  fixes cap :: nat
    and held :: "'s \<Rightarrow> nat"
    and acquire :: "'s \<Rightarrow> 's option"
    and release :: "'s \<Rightarrow> 's"
    and ok :: "'s \<Rightarrow> bool"
  assumes held_le: "ok s \<Longrightarrow> held s \<le> cap"
    and acquire_none: "ok s \<Longrightarrow> acquire s = None \<longleftrightarrow> held s = cap"
    and acquire_some: "ok s \<Longrightarrow> acquire s = Some s' \<Longrightarrow> ok s' \<and> held s' = Suc (held s)"
    and release_ok: "ok s \<Longrightarrow> 0 < held s \<Longrightarrow> ok (release s) \<and> Suc (held (release s)) = held s"
begin

lemma acquire_release: "ok s \<Longrightarrow> acquire s = Some s' \<Longrightarrow> held (release s') = held s"
  using acquire_some [of s s'] release_ok [of s'] by simp

lemma free_permit: "ok s \<Longrightarrow> held s < cap \<Longrightarrow> \<exists>s'. acquire s = Some s'"
  using acquire_none [of s] by (cases "acquire s") auto

end

definition max_concurrent_connections :: nat where "max_concurrent_connections = 10"

text \<open>The semaphore holds the permits that are left; a try fails when there is none.\<close>

definition try_acquire :: "nat \<Rightarrow> nat option" where
  "try_acquire left = (if left = 0 then None else Some (left - 1))"

interpretation sem: permit_pool max_concurrent_connections "\<lambda>left. max_concurrent_connections - left" try_acquire Suc
    "\<lambda>left. left \<le> max_concurrent_connections"
  by unfold_locales (auto simp: try_acquire_def split: if_splits)

section \<open>The accept loop\<close>

text \<open>
  A connection has a number, the address of its peer, and whether its one line has been
  acted on; a subscription stays open after that. A command that was forwarded is logged
  with its connection.
\<close>

record server =
  sv_permits :: nat
  sv_open :: "(nat \<times> ip_addr \<times> bool) list"
  sv_next :: nat
  sv_commands :: "(nat \<times> ip_addr \<times> command) list"

definition server_init :: server where
  "server_init = \<lparr>sv_permits = max_concurrent_connections, sv_open = [], sv_next = 0, sv_commands = []\<rparr>"

datatype server_event = Accepted ip_addr | AcceptFailed | Acts nat peer_io | Closes nat

definition accept_connection :: "ip_addr \<Rightarrow> server \<Rightarrow> server" where
  "accept_connection ip s =
     (case try_acquire (sv_permits s) of
        None \<Rightarrow> s
      | Some left \<Rightarrow> s\<lparr>sv_permits := left, sv_open := sv_open s @ [(sv_next s, ip, False)], sv_next := Suc (sv_next s)\<rparr>)"

definition forward_command :: "string list \<Rightarrow> nat \<Rightarrow> ip_addr \<Rightarrow> peer_io \<Rightarrow> server \<Rightarrow> server" where
  "forward_command allow i ip io s =
     s\<lparr>sv_open := map (\<lambda>(j, p, b). (j, p, b \<or> j = i)) (sv_open s),
       sv_commands := sv_commands s @ map (\<lambda>c. (i, ip, c)) (cn_commands (handle_connection ip allow io))\<rparr>"

definition close_connection :: "nat \<Rightarrow> server \<Rightarrow> server" where
  "close_connection i s = s\<lparr>sv_permits := Suc (sv_permits s), sv_open := filter (\<lambda>(j, p, b). j \<noteq> i) (sv_open s)\<rparr>"

inductive server_step :: "string list \<Rightarrow> server \<Rightarrow> server_event \<Rightarrow> server \<Rightarrow> bool" for allow where
  accepted: "server_step allow s (Accepted ip) (accept_connection ip s)"
| accept_failed: "server_step allow s AcceptFailed s"
| acts: "(i, ip, False) \<in> set (sv_open s) \<Longrightarrow> server_step allow s (Acts i io) (forward_command allow i ip io s)"
| closes: "(i, ip, b) \<in> set (sv_open s) \<Longrightarrow> server_step allow s (Closes i) (close_connection i s)"

inductive server_run :: "string list \<Rightarrow> server \<Rightarrow> server_event list \<Rightarrow> server \<Rightarrow> bool" for allow where
  run_nil: "server_run allow s [] s"
| run_cons: "server_step allow s e s' \<Longrightarrow> server_run allow s' es t \<Longrightarrow> server_run allow s (e # es) t"

inductive_cases server_step_cases: "server_step allow s e s'"
inductive_cases server_run_consE: "server_run allow s (e # es) t"

definition server_inv :: "string list \<Rightarrow> server \<Rightarrow> bool" where
  "server_inv allow s \<longleftrightarrow>
     sv_permits s + length (sv_open s) = max_concurrent_connections
     \<and> distinct (map fst (sv_open s)) \<and> (\<forall>c \<in> set (sv_open s). fst c < sv_next s)
     \<and> distinct (map fst (sv_commands s)) \<and> (\<forall>c \<in> set (sv_commands s). fst c < sv_next s)
     \<and> (\<forall>i ip. (i, ip, False) \<in> set (sv_open s) \<longrightarrow> i \<notin> fst ` set (sv_commands s))
     \<and> (\<forall>(i, ip, c) \<in> set (sv_commands s). is_allowed ip allow \<and> (is_privileged_command c \<longrightarrow> is_localhost ip))"

lemma init_inv: "server_inv allow server_init"
  by (simp add: server_inv_def server_init_def)

lemma accept_inv: "server_inv allow s \<Longrightarrow> server_inv allow (accept_connection ip s)"
  by (fastforce simp: server_inv_def accept_connection_def try_acquire_def split: option.splits if_splits)

lemma forwarded_at_most_one:
  obtains "cn_commands (handle_connection ip allow io) = []"
  | c where "cn_commands (handle_connection ip allow io) = [c]" "is_allowed ip allow" "is_privileged_command c \<longrightarrow> is_localhost ip"
proof (cases "cn_commands (handle_connection ip allow io)")
  case Nil
  then show ?thesis by (rule that(1))
next
  case (Cons c cs)
  then have "c \<in> set (cn_commands (handle_connection ip allow io))" by simp
  from handle_connection_commands [OF this] show ?thesis using that(2) by blast
qed

lemma forward_inv:
  assumes inv: "server_inv allow s" and i: "(i, ip, False) \<in> set (sv_open s)"
  shows "server_inv allow (forward_command allow i ip io s)"
proof -
  let ?o = "map (\<lambda>(j, p, b). (j, p, b \<or> j = i)) (sv_open s)"
  have ids: "fst \<circ> (\<lambda>(j, p, b). (j, p, b \<or> j = i)) = (fst :: nat \<times> ip_addr \<times> bool \<Rightarrow> nat)" by (auto simp: fun_eq_iff)
  have fresh: "i \<notin> fst ` set (sv_commands s)" "i < sv_next s" using inv i by (auto simp: server_inv_def)
  have mem: "(j, p, False) \<in> set ?o \<longleftrightarrow> (j, p, False) \<in> set (sv_open s) \<and> j \<noteq> i" for j p by force
  have lt: "(\<forall>c \<in> set ?o. fst c < sv_next s) = (\<forall>c \<in> set (sv_open s). fst c < sv_next s)" by force
  show ?thesis
    by (cases rule: forwarded_at_most_one [of ip allow io])
      (use inv ids fresh mem lt in \<open>auto simp: server_inv_def forward_command_def\<close>)
qed

lemma filter_id_length:
  "distinct (map fst xs) \<Longrightarrow> (i, y) \<in> set xs \<Longrightarrow> Suc (length (filter (\<lambda>(j, z). j \<noteq> i) xs)) = length xs"
proof (induction xs)
  case (Cons x xs)
  show ?case
  proof (cases "fst x = i")
    case True
    then have "filter (\<lambda>(j, z). j \<noteq> i) xs = xs" using Cons.prems(1) by (auto simp: filter_id_conv rev_image_eqI)
    then show ?thesis using True by (cases x) simp
  next
    case False
    then show ?thesis using Cons by (cases x) auto
  qed
qed simp

lemma close_inv:
  assumes inv: "server_inv allow s" and i: "(i, ip, b) \<in> set (sv_open s)"
  shows "server_inv allow (close_connection i s)"
proof -
  have "Suc (length (filter (\<lambda>(j, z). j \<noteq> i) (sv_open s))) = length (sv_open s)"
    by (rule filter_id_length) (use inv i in \<open>auto simp: server_inv_def\<close>)
  moreover have "(\<lambda>(j, z). j \<noteq> i) = (\<lambda>(j :: nat, p :: ip_addr, b :: bool). j \<noteq> i)" by (auto simp: fun_eq_iff)
  moreover have "distinct (map fst (filter P (sv_open s)))" for P using inv by (simp add: server_inv_def distinct_map_filter)
  ultimately show ?thesis using inv by (auto simp: server_inv_def close_connection_def)
qed

lemma step_inv: "server_step allow s e s' \<Longrightarrow> server_inv allow s \<Longrightarrow> server_inv allow s'"
  by (induction rule: server_step.induct) (auto intro: accept_inv forward_inv close_inv)

lemma run_inv: "server_run allow s es t \<Longrightarrow> server_inv allow s \<Longrightarrow> server_inv allow t"
  by (induction rule: server_run.induct) (auto intro: step_inv)

text \<open>
  C19. However connections come, act and close, the server holds at most ten at a time and
  each holds one permit, and admits the next connection whenever it holds fewer; a
  connection forwards at most one command; and every forwarded command comes from an
  address on the allow-list, and from the machine itself when it is privileged.
\<close>

theorem server_bounded_and_authorized:
  assumes "server_run allow server_init es s"
  shows "length (sv_open s) \<le> 10 \<and> sv_permits s + length (sv_open s) = 10
    \<and> (length (sv_open s) < 10 \<longrightarrow> sv_open (accept_connection peer s) = sv_open s @ [(sv_next s, peer, False)])
    \<and> distinct (map fst (sv_commands s))
    \<and> (\<forall>(i, ip, c) \<in> set (sv_commands s). is_allowed ip allow \<and> (is_privileged_command c \<longrightarrow> is_localhost ip))"
proof -
  have inv: "server_inv allow s" by (rule run_inv [OF assms init_inv])
  have "sv_open (accept_connection peer s) = sv_open s @ [(sv_next s, peer, False)]" if "length (sv_open s) < 10"
  proof -
    have "sv_permits s \<le> max_concurrent_connections" "max_concurrent_connections - sv_permits s < max_concurrent_connections"
      using inv that by (auto simp: server_inv_def max_concurrent_connections_def)
    then show ?thesis using sem.free_permit [of "sv_permits s"] by (auto simp: accept_connection_def)
  qed
  then show ?thesis using inv by (simp add: server_inv_def max_concurrent_connections_def)
qed

text \<open>Witness for \<open>server_bounded_and_authorized\<close>: a local client stops the controller and disconnects.\<close>

definition local_peer :: ip_addr where "local_peer = V4 0x7F000001"

theorem server_bounded_and_authorized_witness:
  "\<exists>s. server_run [''*''] server_init [Accepted local_peer, Acts 0 (io_example ''exit''), Closes 0] s
     \<and> length (sv_open s) \<le> 10 \<and> sv_permits s + length (sv_open s) = 10"
proof -
  let ?s1 = "accept_connection local_peer server_init"
  let ?s2 = "forward_command [''*''] 0 local_peer (io_example ''exit'') ?s1"
  have o: "(0, local_peer, False) \<in> set (sv_open ?s1)" "(0, local_peer, True) \<in> set (sv_open ?s2)"
    by (simp_all add: accept_connection_def server_init_def try_acquire_def max_concurrent_connections_def forward_command_def)
  have run: "server_run [''*''] server_init [Accepted local_peer, Acts 0 (io_example ''exit''), Closes 0] (close_connection 0 ?s2)"
    by (rule run_cons [OF accepted run_cons [OF acts [OF o(1)] run_cons [OF closes [OF o(2)] run_nil]]])
  from server_bounded_and_authorized [OF run] run show ?thesis by blast
qed

text \<open>
  Held connections lock everyone else out: once ten connections have sent their line
  and stay open, as ten subscribers do, then until one of them closes nothing that happens
  changes the server: every new connection is dropped and no command is forwarded.
\<close>

theorem held_connections_lock_out:
  assumes "server_run allow s es t" "sv_permits s = 0" "\<forall>(i, ip, b) \<in> set (sv_open s). b"
    and "\<forall>i. Closes i \<notin> set es"
  shows "t = s"
  using assms
proof (induction rule: server_run.induct)
  case (run_cons s e s' es t)
  have "s' = s" using run_cons.hyps(1) run_cons.prems
    by (cases rule: server_step.cases) (auto simp: accept_connection_def try_acquire_def)
  then show ?case using run_cons by auto
qed simp

definition full_server :: server where
  "full_server = \<lparr>sv_permits = 0, sv_open = map (\<lambda>i. (i, local_peer, True)) [0..<10], sv_next = 10, sv_commands = []\<rparr>"

theorem held_connections_lock_out_witness:
  "\<forall>t. server_run [''*''] full_server [Accepted local_peer, AcceptFailed, Accepted local_peer] t \<longrightarrow> t = full_server"
  using held_connections_lock_out [of "[''*'']" full_server "[Accepted local_peer, AcceptFailed, Accepted local_peer]"]
  by (auto simp: full_server_def)

section \<open>The event reader\<close>

text \<open>
  One attempt of the reader: the connection fails, the subscription cannot be written, or
  a session delivers lines until it ends (with the end of the stream or a read error). A
  line is text; parsing an event (\<open>serde_json\<close>) and whether the channel still takes the
  n-th event are parameters. Slicing a line at byte 200 for the log panics when that byte
  is inside a character, if warnings are logged.
\<close>

datatype attempt = ConnectFails | SubscribeFails | Session "string list"

record reader_world =
  rw_parse :: "string \<Rightarrow> agent_event option"
  rw_open :: "nat \<Rightarrow> bool"
  rw_warn :: bool

datatype reader_status = Reading | ChannelClosed | Panicked

record reader =
  rd_backoff_ms :: nat
  rd_sent :: "agent_event list"
  rd_sleeps :: "nat list"
  rd_status :: reader_status

definition reader_init :: reader where
  "reader_init = \<lparr>rd_backoff_ms = 100, rd_sent = [], rd_sleeps = [], rd_status = Reading\<rparr>"

definition is_continuation :: "char \<Rightarrow> bool" where
  "is_continuation c \<longleftrightarrow> 128 \<le> (of_char c :: nat) \<and> (of_char c :: nat) < 192"

definition slice_panics :: "string \<Rightarrow> bool" where
  "slice_panics line \<longleftrightarrow> 200 < length line \<and> is_continuation (line ! 200)"

definition read_line :: "reader_world \<Rightarrow> string \<Rightarrow> reader \<Rightarrow> reader" where
  "read_line rw line r =
     (if trim line = [] then r
      else (case rw_parse rw line of
              Some ev \<Rightarrow>
                if rw_open rw (length (rd_sent r)) then r\<lparr>rd_sent := rd_sent r @ [ev]\<rparr>
                else r\<lparr>rd_status := ChannelClosed\<rparr>
            | None \<Rightarrow> if rw_warn rw \<and> slice_panics line then r\<lparr>rd_status := Panicked\<rparr> else r))"

fun read_session :: "reader_world \<Rightarrow> string list \<Rightarrow> reader \<Rightarrow> reader" where
  "read_session rw [] r = r"
| "read_session rw (l # ls) r =
     (if rd_status (read_line rw l r) = Reading then read_session rw ls (read_line rw l r) else read_line rw l r)"

definition max_backoff_ms :: nat where "max_backoff_ms = 5000"

definition sleep_and_back_off :: "reader \<Rightarrow> reader" where
  "sleep_and_back_off r =
     r\<lparr>rd_sleeps := rd_sleeps r @ [rd_backoff_ms r], rd_backoff_ms := min (rd_backoff_ms r * 2) max_backoff_ms\<rparr>"

definition reader_attempt :: "reader_world \<Rightarrow> attempt \<Rightarrow> reader \<Rightarrow> reader" where
  "reader_attempt rw a r =
     (case a of
        ConnectFails \<Rightarrow> sleep_and_back_off r
      | SubscribeFails \<Rightarrow> r
      | Session ls \<Rightarrow>
          (let r1 = read_session rw ls (r\<lparr>rd_backoff_ms := 100\<rparr>)
           in if rd_status r1 = Reading then sleep_and_back_off r1 else r1))"

fun event_reader :: "reader_world \<Rightarrow> attempt list \<Rightarrow> reader \<Rightarrow> reader" where
  "event_reader rw [] r = r"
| "event_reader rw (a # as) r = (if rd_status r = Reading then event_reader rw as (reader_attempt rw a r) else r)"

section \<open>What the reader delivers\<close>

fun attempt_lines :: "attempt \<Rightarrow> string list" where
  "attempt_lines (Session ls) = ls"
| "attempt_lines a = []"

definition events_of :: "reader_world \<Rightarrow> string list \<Rightarrow> agent_event list" where
  "events_of rw ls = List.map_filter (rw_parse rw) (filter (\<lambda>l. trim l \<noteq> []) ls)"

lemma events_of_simps [simp]:
  "events_of rw [] = []"
  "events_of rw (l # ls) = (if trim l = [] then events_of rw ls
     else case rw_parse rw l of None \<Rightarrow> events_of rw ls | Some e \<Rightarrow> e # events_of rw ls)"
  by (simp_all add: events_of_def map_filter_simps split: option.split)

lemma events_of_append: "events_of rw (a @ b) = events_of rw a @ events_of rw b"
  by (induction a) (auto split: option.split)

lemma read_session_sent:
  assumes "\<And>n. rw_open rw n" "\<not> rw_warn rw \<or> (\<forall>l \<in> set ls. \<not> slice_panics l)" "rd_status r = Reading"
  shows "rd_sent (read_session rw ls r) = rd_sent r @ events_of rw ls \<and> rd_status (read_session rw ls r) = Reading
    \<and> rd_backoff_ms (read_session rw ls r) = rd_backoff_ms r \<and> rd_sleeps (read_session rw ls r) = rd_sleeps r"
  using assms(2,3)
proof (induction ls arbitrary: r)
  case (Cons l ls)
  have "rd_status (read_line rw l r) = Reading"
      "rd_sent (read_line rw l r) = rd_sent r @ events_of rw [l]"
      "rd_backoff_ms (read_line rw l r) = rd_backoff_ms r" "rd_sleeps (read_line rw l r) = rd_sleeps r"
    using Cons.prems assms(1) by (auto simp: read_line_def split: option.split)
  then show ?case using Cons.IH [of "read_line rw l r"] Cons.prems by (auto split: option.split)
qed simp


text \<open>Witness for \<open>reader_delivers_in_order\<close>: two sessions with a blank and a malformed line and failures between.\<close>

definition demo_reader :: reader_world where
  "demo_reader = \<lparr>rw_parse = (\<lambda>l. if l = ''k'' then Some Keepalive else None), rw_open = (\<lambda>n. True), rw_warn = True\<rparr>"


lemma read_session_keeps:
  "rd_backoff_ms (read_session rw ls r) = rd_backoff_ms r \<and> rd_sleeps (read_session rw ls r) = rd_sleeps r"
proof (induction ls arbitrary: r)
  case (Cons l ls)
  have "rd_backoff_ms (read_line rw l r) = rd_backoff_ms r" "rd_sleeps (read_line rw l r) = rd_sleeps r"
    by (auto simp: read_line_def split: option.split)
  then show ?case using Cons.IH [of "read_line rw l r"] by simp
qed simp

definition delays_ok :: "reader \<Rightarrow> bool" where
  "delays_ok r \<longleftrightarrow> 100 \<le> rd_backoff_ms r \<and> rd_backoff_ms r \<le> max_backoff_ms
     \<and> (\<forall>d \<in> set (rd_sleeps r). 100 \<le> d \<and> d \<le> max_backoff_ms)"

lemma attempt_delays_ok: "delays_ok r \<Longrightarrow> delays_ok (reader_attempt rw a r)"
  using read_session_keeps [of rw _ "r\<lparr>rd_backoff_ms := 100\<rparr>"]
  by (cases a) (auto simp: delays_ok_def reader_attempt_def sleep_and_back_off_def max_backoff_ms_def Let_def)

lemma reader_delays_ok: "delays_ok r \<Longrightarrow> delays_ok (event_reader rw as r)"
  by (induction as arbitrary: r) (auto intro: attempt_delays_ok)

lemma event_reader_stopped: "rd_status r \<noteq> Reading \<Longrightarrow> event_reader rw as r = r"
  by (cases as) simp_all

lemma event_reader_append: "event_reader rw (as @ bs) r = event_reader rw bs (event_reader rw as r)"
  by (induction as arbitrary: r) (auto simp: event_reader_stopped)

definition pauses :: "nat \<Rightarrow> nat list" where
  "pauses n = map (\<lambda>k. min (100 * 2 ^ k) 5000) [0..<n]"

lemma failed_connects:
  assumes "rd_backoff_ms r = min (100 * 2 ^ m) 5000" "rd_status r = Reading"
  shows "rd_sleeps (event_reader rw (replicate n ConnectFails) r) = rd_sleeps r @ map (\<lambda>k. min (100 * 2 ^ k) 5000) [m..<m + n]
    \<and> rd_status (event_reader rw (replicate n ConnectFails) r) = Reading"
  using assms
proof (induction n arbitrary: r m)
  case (Suc n)
  have "min (min (100 * 2 ^ m) 5000 * 2) 5000 = min (100 * 2 ^ Suc m) (5000 :: nat)" by (simp add: min_def)
  then have "rd_backoff_ms (sleep_and_back_off r) = min (100 * 2 ^ Suc m) 5000" "rd_status (sleep_and_back_off r) = Reading"
    using Suc.prems by (simp_all add: sleep_and_back_off_def max_backoff_ms_def)
  from Suc.IH [OF this] show ?case
    using Suc.prems by (simp add: reader_attempt_def upt_conv_Cons sleep_and_back_off_def del: upt_Suc)
qed simp

lemma session_resets:
  assumes "rd_status r = Reading"
  shows "rd_backoff_ms (reader_attempt rw (Session []) r) = min (100 * 2 ^ 1) 5000"
    and "rd_sleeps (reader_attempt rw (Session []) r) = rd_sleeps r @ [100]"
    and "rd_status (reader_attempt rw (Session []) r) = Reading"
  using assms by (simp_all add: reader_attempt_def sleep_and_back_off_def max_backoff_ms_def)

text \<open>
  Every pause between two attempts lasts at least a tenth of a second and at most five
  seconds, whatever happens; the n-th failed connection in a row is followed by a pause of
  \<open>100 * 2 ^ n\<close> milliseconds up to that limit; and a session, even one that ends at once,
  starts the pauses from the beginning.
\<close>

theorem reader_back_off:
  "delays_ok (event_reader rw as reader_init)
   \<and> rd_sleeps (event_reader rw (replicate n ConnectFails @ [Session []] @ replicate m ConnectFails) reader_init)
     = pauses n @ pauses (Suc m)"
proof
  show "delays_ok (event_reader rw as reader_init)"
    by (rule reader_delays_ok) (simp add: delays_ok_def reader_init_def max_backoff_ms_def)
  let ?r = "event_reader rw (replicate n ConnectFails) reader_init"
  have r: "rd_sleeps ?r = pauses n" "rd_status ?r = Reading"
    using failed_connects [of reader_init 0 rw n] by (simp_all add: reader_init_def pauses_def)
  have "pauses (Suc m) = 100 # map (\<lambda>k. min (100 * 2 ^ k) 5000) [1..<1 + m]"
    by (simp add: pauses_def upt_conv_Cons del: upt_Suc)
  then show "rd_sleeps (event_reader rw (replicate n ConnectFails @ [Session []] @ replicate m ConnectFails) reader_init)
     = pauses n @ pauses (Suc m)"
    using failed_connects [OF session_resets(1,3) [OF r(2), of rw], where rw = rw and n = m] session_resets(2) [OF r(2), of rw] r
    by (simp add: event_reader_append)
qed

text \<open>
  A subscription that cannot be written is retried at once, without any pause; and a long
  malformed line that is cut inside a character ends the reader for good: nothing after it
  is delivered.
\<close>

theorem failed_subscriptions_spin:
  "rd_status r = Reading \<Longrightarrow> event_reader rw (replicate n SubscribeFails) r = r"
  by (induction n) (simp_all add: reader_attempt_def)

theorem malformed_line_ends_reader:
  assumes "rd_status r = Reading" "rw_warn rw" "slice_panics l" "rw_parse rw l = None" "trim l \<noteq> []"
  shows "event_reader rw (Session (l # ls) # as) r = (r\<lparr>rd_backoff_ms := 100, rd_status := Panicked\<rparr>)"
  using assms by (cases as) (auto simp: reader_attempt_def read_line_def Let_def)

end
