(* ===== verification/Agent_Client.thy ===== *)
theory Agent_Client
  imports Dialog_Handlers Command_Server
begin

text \<open>
  The client of the Java agent, \<open>agent_client.rs\<close>, and the API handshake probe,
  \<open>api_probe.rs\<close>: the HTTP requests written to the agent's socket, the extraction and
  decoding of its answers, every operation on top of them, the AT-SPI fall-backs
  (\<open>atspi.rs\<close>), and the v100 handshake that decides whether the API port answers. The
  socket, the JSON parser and printer (\<open>serde_json\<close>), the base64 decoder and the AT-SPI
  helper program are parameters. The lemmas show that a request is read back by an HTTP
  server as what was sent, whatever the body holds, that the client gets exactly the
  body of the answer, when the accessibility fall-back is used, and which handshake
  answers count as a live API.
\<close>

section \<open>Errors and the transport\<close>

datatype agent_error =
    ConnectionFailed string | RequestFailed string | AgentFailed string | ParseError | AgentTimeout

record 'a agent_response =
  ar_ok :: bool
  ar_data :: "'a option"
  ar_error :: "string option"

text \<open>
  One exchange over the socket: connecting, writing and reading each succeed, fail or
  time out. The response is the text after the lossy UTF-8 decoding. The n-th exchange of
  an operation may be answered differently from the others.
\<close>

datatype 'a io_step = StepOk 'a | StepTimeout | StepFailed

record exchange =
  ex_connect :: "unit io_step"
  ex_write :: "unit io_step"
  ex_read :: "string io_step"

record uds_agent =
  ua_socket_path :: string
  ua_net :: "nat \<Rightarrow> string \<Rightarrow> exchange"
  ua_to_string :: "json \<Rightarrow> string"
  ua_from_str :: "string \<Rightarrow> json option"

definition crlf :: string where "crlf = [CHR 0x0D, CHR 0x0A]"

text \<open>\<open>str::split_once\<close> at the first occurrence of a separator.\<close>

fun split_at_str :: "string \<Rightarrow> string \<Rightarrow> (string \<times> string) option" where
  "split_at_str sep [] = (if sep = [] then Some ([], []) else None)"
| "split_at_str sep (c # cs) =
     (if starts_with (c # cs) sep then Some ([], drop (length sep) (c # cs))
      else map_option (\<lambda>(a, b). (c # a, b)) (split_at_str sep cs))"

definition response_body :: "string \<Rightarrow> string" where
  "response_body resp = (case split_at_str (crlf @ crlf) resp of None \<Rightarrow> resp | Some (h, b) \<Rightarrow> b)"

definition send_raw :: "uds_agent \<Rightarrow> nat \<Rightarrow> string \<Rightarrow> agent_error + string" where
  "send_raw ua n request =
     (let ex = ua_net ua n request
      in case ex_connect ex of
           StepTimeout \<Rightarrow> Inl AgentTimeout
         | StepFailed \<Rightarrow> Inl (ConnectionFailed (ua_socket_path ua))
         | StepOk _ \<Rightarrow>
             (case ex_write ex of
                StepTimeout \<Rightarrow> Inl AgentTimeout
              | StepFailed \<Rightarrow> Inl (RequestFailed ''write failed'')
              | StepOk _ \<Rightarrow>
                  (case ex_read ex of
                     StepTimeout \<Rightarrow> Inl AgentTimeout
                   | StepFailed \<Rightarrow> Inl (RequestFailed ''read failed'')
                   | StepOk resp \<Rightarrow>
                       (let body = response_body resp
                        in if body = [] then Inl (RequestFailed ''empty response body'') else Inr body))))"

section \<open>Requests and answers\<close>

definition get_request :: "string \<Rightarrow> string" where
  "get_request path = ''GET '' @ path @ '' HTTP/1.1'' @ crlf @ ''Host: localhost'' @ crlf @ ''Connection: close'' @ crlf @ crlf"

definition post_request :: "string \<Rightarrow> string \<Rightarrow> string" where
  "post_request path body =
     ''POST '' @ path @ '' HTTP/1.1'' @ crlf @ ''Host: localhost'' @ crlf @ ''Content-Type: application/json'' @ crlf
     @ ''Content-Length: '' @ show_nat (length body) @ crlf @ ''Connection: close'' @ crlf @ crlf @ body"

text \<open>
  Decoding an envelope: \<open>ok\<close> is required, the other fields may be missing or null. Objects
  have distinct keys.
\<close>

definition decode_option :: "(json \<Rightarrow> 'a option) \<Rightarrow> string \<Rightarrow> json \<Rightarrow> 'a option option" where
  "decode_option dec k j =
     (case json_get k j of None \<Rightarrow> Some None | Some JNull \<Rightarrow> Some None | Some v \<Rightarrow> map_option Some (dec v))"

definition decode_response :: "(json \<Rightarrow> 'a option) \<Rightarrow> json \<Rightarrow> 'a agent_response option" where
  "decode_response dec j =
     (case (Option.bind (json_get ''ok'' j) as_bool, decode_option dec ''data'' j, decode_option as_str ''error'' j) of
        (Some ok, Some data, Some err) \<Rightarrow> Some \<lparr>ar_ok = ok, ar_data = data, ar_error = err\<rparr>
      | _ \<Rightarrow> None)"

definition parse_answer :: "uds_agent \<Rightarrow> (json \<Rightarrow> 'a option) \<Rightarrow> string \<Rightarrow> agent_error + 'a agent_response" where
  "parse_answer ua dec body =
     (case Option.bind (ua_from_str ua body) (decode_response dec) of None \<Rightarrow> Inl ParseError | Some r \<Rightarrow> Inr r)"

definition uds_get :: "uds_agent \<Rightarrow> nat \<Rightarrow> (json \<Rightarrow> 'a option) \<Rightarrow> string \<Rightarrow> agent_error + 'a agent_response" where
  "uds_get ua n dec path = and_then (send_raw ua n (get_request path)) (parse_answer ua dec)"

definition uds_post :: "uds_agent \<Rightarrow> nat \<Rightarrow> string \<Rightarrow> json \<Rightarrow> agent_error + json agent_response" where
  "uds_post ua n path body = and_then (send_raw ua n (post_request path (ua_to_string ua body))) (parse_answer ua Some)"

definition unwrap_response :: "'a agent_response \<Rightarrow> agent_error + 'a" where
  "unwrap_response r =
     (if ar_ok r then (case ar_data r of None \<Rightarrow> Inl (AgentFailed ''response ok but no data'') | Some d \<Rightarrow> Inr d)
      else Inl (AgentFailed (case ar_error r of None \<Rightarrow> ''unknown agent error'' | Some e \<Rightarrow> e)))"

definition window_path :: "nat \<Rightarrow> string \<Rightarrow> string" where
  "window_path wid action = ''/windows/'' @ show_nat wid @ ''/'' @ action"

section \<open>Window lists\<close>

fun as_u64 :: "json \<Rightarrow> nat option" where
  "as_u64 (JNum i) = (if 0 \<le> i \<and> i \<le> int u64_max then Some (nat i) else None)"
| "as_u64 _ = None"

fun as_i32 :: "json \<Rightarrow> int option" where
  "as_i32 (JNum i) = (if - 2147483648 \<le> i \<and> i \<le> 2147483647 then Some i else None)"
| "as_i32 _ = None"

definition with_default :: "(json \<Rightarrow> 'a option) \<Rightarrow> 'a \<Rightarrow> string \<Rightarrow> json \<Rightarrow> 'a option" where
  "with_default dec d k j = (case json_get k j of None \<Rightarrow> Some d | Some v \<Rightarrow> dec v)"

text \<open>\<open>WindowInfo\<close>: the class may be called \<open>class_name\<close> (and then not \<open>class\<close> as well).\<close>

definition decode_bounds :: "json \<Rightarrow> bounds option" where
  "decode_bounds j =
     (case (with_default as_i32 0 ''x'' j, with_default as_i32 0 ''y'' j, with_default as_i32 0 ''width'' j,
            with_default as_i32 0 ''height'' j, j) of
        (Some x, Some y, Some w, Some h, JObj kvs) \<Rightarrow> Some \<lparr>b_width = w, b_height = h\<rparr>
      | _ \<Rightarrow> None)"

definition decode_class :: "json \<Rightarrow> string option" where
  "decode_class j =
     (if json_get ''class_name'' j \<noteq> None \<and> json_get ''class'' j \<noteq> None then None
      else with_default as_str [] (if json_get ''class_name'' j \<noteq> None then ''class_name'' else ''class'') j)"

definition decode_window :: "json \<Rightarrow> window_info option" where
  "decode_window j =
     (case (Option.bind (json_get ''id'' j) as_u64, Option.bind (json_get ''title'' j) as_str, decode_class j,
            decode_option decode_bounds ''bounds'' j, with_default as_bool False ''visible'' j) of
        (Some i, Some t, Some c, Some b, Some v) \<Rightarrow>
          Some \<lparr>w_id = i, w_title = t, w_class = c, w_bounds = b, w_visible = v\<rparr>
      | _ \<Rightarrow> None)"

fun decode_all :: "('a \<Rightarrow> 'b option) \<Rightarrow> 'a list \<Rightarrow> 'b list option" where
  "decode_all dec [] = Some []"
| "decode_all dec (x # xs) =
     (case dec x of None \<Rightarrow> None | Some y \<Rightarrow> map_option ((#) y) (decode_all dec xs))"

definition decode_windows :: "json \<Rightarrow> window_info list option" where
  "decode_windows j = (case as_array j of None \<Rightarrow> None | Some vs \<Rightarrow> decode_all decode_window vs)"

section \<open>Operations\<close>

definition uds_health :: "uds_agent \<Rightarrow> nat \<Rightarrow> agent_error + bool" where
  "uds_health ua n = and_then (uds_get ua n Some ''/health'') (\<lambda>r. Inr (ar_ok r))"

definition uds_list_windows :: "uds_agent \<Rightarrow> nat \<Rightarrow> agent_error + window_info list" where
  "uds_list_windows ua n = and_then (uds_get ua n decode_windows ''/windows'') unwrap_response"

definition post_ok :: "uds_agent \<Rightarrow> nat \<Rightarrow> nat \<Rightarrow> string \<Rightarrow> (string \<times> json) list \<Rightarrow> agent_error + bool" where
  "post_ok ua n wid action kvs =
     and_then (uds_post ua n (window_path wid action) (JObj kvs)) (\<lambda>r. Inr (ar_ok r))"

definition uds_click_button :: "uds_agent \<Rightarrow> nat \<Rightarrow> nat \<Rightarrow> string \<Rightarrow> agent_error + bool" where
  "uds_click_button ua n wid label = post_ok ua n wid ''click'' [(''label'', JStr label)]"

definition uds_type_text :: "uds_agent \<Rightarrow> nat \<Rightarrow> nat \<Rightarrow> nat \<Rightarrow> string \<Rightarrow> agent_error + bool" where
  "uds_type_text ua n wid idx text = post_ok ua n wid ''type'' [(''fieldIndex'', JNum (int idx)), (''text'', JStr text)]"

definition uds_type_text_by_label :: "uds_agent \<Rightarrow> nat \<Rightarrow> nat \<Rightarrow> string \<Rightarrow> string \<Rightarrow> agent_error + bool" where
  "uds_type_text_by_label ua n wid label text =
     post_ok ua n wid ''type-by-label'' [(''label'', JStr label), (''text'', JStr text)]"

definition uds_click_menu :: "uds_agent \<Rightarrow> nat \<Rightarrow> nat \<Rightarrow> string \<Rightarrow> agent_error + bool" where
  "uds_click_menu ua n wid menu = post_ok ua n wid ''menu'' [(''path'', JStr menu)]"

definition uds_set_combobox :: "uds_agent \<Rightarrow> nat \<Rightarrow> nat \<Rightarrow> string \<Rightarrow> string \<Rightarrow> agent_error + bool" where
  "uds_set_combobox ua n wid label item = post_ok ua n wid ''combobox'' [(''label'', JStr label), (''item'', JStr item)]"

definition uds_select_list_item :: "uds_agent \<Rightarrow> nat \<Rightarrow> nat \<Rightarrow> string \<Rightarrow> agent_error + bool" where
  "uds_select_list_item ua n wid item = post_ok ua n wid ''selectlist'' [(''item'', JStr item)]"

definition uds_click_at :: "uds_agent \<Rightarrow> nat \<Rightarrow> nat \<Rightarrow> int \<Rightarrow> int \<Rightarrow> agent_error + bool" where
  "uds_click_at ua n wid x y = post_ok ua n wid ''clickat'' [(''x'', JStr (show_int x)), (''y'', JStr (show_int y))]"

definition uds_select_tree_node :: "uds_agent \<Rightarrow> nat \<Rightarrow> nat \<Rightarrow> string \<Rightarrow> agent_error + bool" where
  "uds_select_tree_node ua n wid node = post_ok ua n wid ''tree'' [(''node'', JStr node)]"

definition uds_send_key :: "uds_agent \<Rightarrow> nat \<Rightarrow> nat \<Rightarrow> string \<Rightarrow> agent_error + bool" where
  "uds_send_key ua n wid key = post_ok ua n wid ''key'' [(''key'', JStr key)]"

definition uds_list_clients :: "uds_agent \<Rightarrow> nat \<Rightarrow> nat \<Rightarrow> agent_error + json" where
  "uds_list_clients ua n wid = and_then (uds_get ua n Some (window_path wid ''clients'')) unwrap_response"

text \<open>\<open>set_checkbox\<close>: what the agent says of the checkbox, or that it was not found.\<close>

record checkbox_outcome =
  ck_found :: bool
  ck_label :: "string option"
  ck_selected :: "bool option"
  ck_changed :: "bool option"
  ck_error :: "string option"

definition decode_checkbox :: "json \<Rightarrow> checkbox_outcome option" where
  "decode_checkbox j =
     (case (with_default as_bool False ''found'' j, decode_option as_str ''label'' j, decode_option as_bool ''selected'' j,
            decode_option as_bool ''changed'' j, decode_option as_str ''error'' j, j) of
        (Some f, Some l, Some s, Some c, Some e, JObj kvs) \<Rightarrow>
          Some \<lparr>ck_found = f, ck_label = l, ck_selected = s, ck_changed = c, ck_error = e\<rparr>
      | _ \<Rightarrow> None)"

definition show_bool :: "bool \<Rightarrow> string" where "show_bool b = (if b then ''true'' else ''false'')"

definition uds_set_checkbox :: "uds_agent \<Rightarrow> nat \<Rightarrow> nat \<Rightarrow> string \<Rightarrow> bool option \<Rightarrow> agent_error + checkbox_outcome" where
  "uds_set_checkbox ua n wid label st =
     and_then (uds_post ua n (window_path wid ''checkbox'')
        (JObj ((''label'', JStr label) # (case st of None \<Rightarrow> [] | Some s \<Rightarrow> [(''state'', JStr (show_bool s))]))))
      (\<lambda>r. case ar_data r of
             Some v \<Rightarrow> (case decode_checkbox v of None \<Rightarrow> Inl ParseError | Some c \<Rightarrow> Inr c)
           | None \<Rightarrow> Inr \<lparr>ck_found = False, ck_label = None, ck_selected = None, ck_changed = None, ck_error = ar_error r\<rparr>)"

record window_screenshot =
  sc_format :: string
  sc_width :: nat
  sc_height :: nat
  sc_bytes :: string

fun as_u32 :: "json \<Rightarrow> nat option" where
  "as_u32 (JNum i) = (if 0 \<le> i \<and> i \<le> int u32_max then Some (nat i) else None)"
| "as_u32 _ = None"

definition decode_screenshot :: "json \<Rightarrow> (string \<times> nat \<times> nat \<times> string) option" where
  "decode_screenshot j =
     (case (with_default as_str [] ''format'' j, with_default as_u32 0 ''width'' j, with_default as_u32 0 ''height'' j,
            Option.bind (json_get ''png_base64'' j) as_str) of
        (Some f, Some w, Some h, Some b) \<Rightarrow> Some (f, w, h, b)
      | _ \<Rightarrow> None)"

definition uds_capture_screenshot ::
  "(string \<Rightarrow> string option) \<Rightarrow> uds_agent \<Rightarrow> nat \<Rightarrow> nat \<Rightarrow> agent_error + window_screenshot" where
  "uds_capture_screenshot base64 ua n wid =
     and_then (and_then (uds_get ua n decode_screenshot (window_path wid ''screenshot'')) unwrap_response)
       (\<lambda>(f, w, h, b). case base64 b of
          None \<Rightarrow> Inl (RequestFailed ''invalid screenshot base64'')
        | Some bytes \<Rightarrow> Inr \<lparr>sc_format = (if f = [] then ''png'' else f), sc_width = w, sc_height = h, sc_bytes = bytes\<rparr>)"

section \<open>The accessibility fall-back\<close>

datatype atspi_mode = AtspiDisabled | AtspiAuto | AtspiAlways

definition atspi_mode_from_env :: "getenv \<Rightarrow> atspi_mode" where
  "atspi_mode_from_env env =
     (let v = to_lowercase (trim (case env ''IBCTL_ATSPI_FALLBACK'' of None \<Rightarrow> ''auto'' | Some s \<Rightarrow> s))
      in if v \<in> {''0'', ''false'', ''no'', ''off'', ''disabled''} then AtspiDisabled
         else if v \<in> {''1'', ''true'', ''yes'', ''on'', ''enabled'', ''always''} then AtspiAlways
         else AtspiAuto)"

definition atspi_fallback_enabled :: "getenv \<Rightarrow> bool" where
  "atspi_fallback_enabled env \<longleftrightarrow> atspi_mode_from_env env \<noteq> AtspiDisabled"

text \<open>\<open>should_try_for_dump\<close>; the JSON library keeps the values of an object in the order of their keys.\<close>

definition array_size :: "string \<Rightarrow> json \<Rightarrow> nat" where
  "array_size k j = (case get_array k j of None \<Rightarrow> 0 | Some vs \<Rightarrow> length vs)"

definition semantic_text :: "json \<Rightarrow> string" where
  "semantic_text j =
     to_lowercase (concat (map (\<lambda>s. '' '' @ s)
       (concat (map collect_strings (List.map_filter (\<lambda>k. json_get k j) [''labels'', ''textareas''])))))"

definition authentication_needles :: "string list" where
  "authentication_needles = [''security code'', ''authentication code'', ''verification code'', ''one-time'', ''passcode'', ''authenticator'']"

definition should_try_for_dump :: "json \<Rightarrow> bool" where
  "should_try_for_dump j \<longleftrightarrow>
     array_size ''buttons'' j = 0 \<and> array_size ''textfields'' j = 0 \<and> array_size ''labels'' j = 0
     \<or> array_size ''textfields'' j = 0 \<and> list_ex (contains_str (semantic_text j)) authentication_needles"

text \<open>
  The helper program, run with arguments and a text on its standard input: it cannot be
  started, cannot be written to, or exits with a status and its standard output (none when
  that is not UTF-8).
\<close>

datatype helper_result = HelperSpawnFailed | HelperStdinFailed | HelperExited bool "string option"

datatype atspi_error = AtspiSpawn | AtspiHelper | AtspiUtf8 | AtspiJson | AtspiStdin

record atspi_world =
  at_env :: getenv
  at_exists :: "string \<Rightarrow> bool"
  at_run :: "string \<Rightarrow> string list \<Rightarrow> string \<Rightarrow> helper_result"
  at_from_str :: "string \<Rightarrow> json option"

definition run_helper :: "atspi_world \<Rightarrow> string \<Rightarrow> string \<Rightarrow> atspi_error + json option" where
  "run_helper at helper title =
     (case at_run at helper [''--title'', title] [] of
        HelperSpawnFailed \<Rightarrow> Inl AtspiSpawn
      | HelperStdinFailed \<Rightarrow> Inl AtspiSpawn
      | HelperExited ok out \<Rightarrow>
          if \<not> ok then Inl AtspiHelper
          else (case out of
                  None \<Rightarrow> Inl AtspiUtf8
                | Some s \<Rightarrow>
                    (case at_from_str at s of
                       None \<Rightarrow> Inl AtspiJson
                     | Some v \<Rightarrow> Inr (if json_get ''error'' v \<noteq> None then None else Some v))))"

definition code_hints :: string where
  "code_hints = ''security code|authentication code|verification code|one-time code|passcode|otp|code''"

definition typed_flag :: "json \<Rightarrow> bool option" where
  "typed_flag v = Option.bind (json_get ''typed'' v) as_bool"

definition run_type_helper :: "atspi_world \<Rightarrow> string \<Rightarrow> string \<Rightarrow> string \<Rightarrow> atspi_error + bool" where
  "run_type_helper at helper title text =
     (case at_run at helper [''--title'', title, ''--type-text-stdin'', ''--hints'', code_hints] text of
        HelperSpawnFailed \<Rightarrow> Inl AtspiSpawn
      | HelperStdinFailed \<Rightarrow> Inl AtspiStdin
      | HelperExited ok out \<Rightarrow>
          (case out of
             None \<Rightarrow> Inl AtspiUtf8
           | Some s \<Rightarrow>
               (case Option.bind (at_from_str at s) typed_flag of
                  Some typed \<Rightarrow> Inr typed
                | None \<Rightarrow> if \<not> ok then Inl AtspiHelper
                          else (case at_from_str at s of None \<Rightarrow> Inl AtspiJson | Some v \<Rightarrow> Inr False))))"

definition atspi_helper :: "atspi_world \<Rightarrow> string option" where
  "atspi_helper at =
     (let helper = (case at_env at ''IBCTL_ATSPI_DUMP_COMMAND'' of None \<Rightarrow> ''/opt/ibctl/atspi_dump.py'' | Some h \<Rightarrow> h)
      in if \<not> atspi_fallback_enabled (at_env at) then None
         else if atspi_mode_from_env (at_env at) = AtspiAuto \<and> \<not> at_exists at helper then None else Some helper)"

definition dump_window_by_title :: "atspi_world \<Rightarrow> string \<Rightarrow> atspi_error + json option" where
  "dump_window_by_title at title = (case atspi_helper at of None \<Rightarrow> Inr None | Some h \<Rightarrow> run_helper at h title)"

definition type_text_by_title :: "atspi_world \<Rightarrow> string \<Rightarrow> string \<Rightarrow> atspi_error + bool" where
  "type_text_by_title at title text = (case atspi_helper at of None \<Rightarrow> Inr False | Some h \<Rightarrow> run_type_helper at h title text)"

text \<open>The title of the window, from a second exchange.\<close>

definition title_of :: "uds_agent \<Rightarrow> nat \<Rightarrow> nat \<Rightarrow> string option" where
  "title_of ua n wid =
     (case uds_list_windows ua n of
        Inl e \<Rightarrow> None
      | Inr ws \<Rightarrow> map_option w_title (find (\<lambda>w. w_id w = wid) ws))"

definition type_text_via_atspi :: "atspi_world \<Rightarrow> uds_agent \<Rightarrow> nat \<Rightarrow> nat \<Rightarrow> string \<Rightarrow> bool" where
  "type_text_via_atspi at ua n wid text =
     (atspi_fallback_enabled (at_env at)
      \<and> (case title_of ua n wid of None \<Rightarrow> False | Some t \<Rightarrow> type_text_by_title at t text = Inr True))"

definition uds_type_text_best :: "atspi_world \<Rightarrow> uds_agent \<Rightarrow> nat \<Rightarrow> nat \<Rightarrow> string \<Rightarrow> agent_error + bool" where
  "uds_type_text_best at ua n wid text =
     (case uds_post ua n (window_path wid ''type-best'') (JObj [(''text'', JStr text), (''hints'', JStr code_hints)]) of
        Inr r \<Rightarrow> if ar_ok r then Inr True else Inr (type_text_via_atspi at ua (n + 1) wid text)
      | Inl e \<Rightarrow> if type_text_via_atspi at ua (n + 1) wid text then Inr True else Inl e)"

definition dump_components_via_atspi :: "atspi_world \<Rightarrow> uds_agent \<Rightarrow> nat \<Rightarrow> nat \<Rightarrow> json option" where
  "dump_components_via_atspi at ua n wid =
     (if \<not> atspi_fallback_enabled (at_env at) then None
      else (case title_of ua n wid of
              None \<Rightarrow> None
            | Some t \<Rightarrow> (case dump_window_by_title at t of Inr (Some v) \<Rightarrow> Some v | _ \<Rightarrow> None)))"

definition uds_dump_components :: "atspi_world \<Rightarrow> uds_agent \<Rightarrow> nat \<Rightarrow> nat \<Rightarrow> agent_error + json" where
  "uds_dump_components at ua n wid =
     (let primary = and_then (uds_get ua n Some (window_path wid ''dump'')) unwrap_response;
          fallback = dump_components_via_atspi at ua (n + 1) wid
      in case primary of
           Inr v \<Rightarrow> if should_try_for_dump v then Inr (case fallback of None \<Rightarrow> v | Some a \<Rightarrow> a) else Inr v
         | Inl e \<Rightarrow> (case fallback of None \<Rightarrow> Inl e | Some a \<Rightarrow> Inr a))"

section \<open>The API handshake\<close>

text \<open>
  What the port answers: the connection and the writes succeed or not, and the bytes that
  follow; \<open>read_exact\<close> fails when they end early, and the whole probe when it takes longer
  than the time-out.
\<close>

datatype probe_error = ProbeIo | UnexpectedEof | InvalidLength | MissingVersion | ImplausibleVersion | ProbeTimedOut

record probe_peer =
  pb_connects :: bool
  pb_writable :: bool
  pb_in_time :: bool
  pb_answer :: "nat list"

definition probe_request :: "nat list" where
  "probe_request = map of_char ''API'' @ [0] @ [0, 0, 0, 10] @ map of_char ''v100..178'' @ [0]"

definition be_u32 :: "nat list \<Rightarrow> nat" where
  "be_u32 bs = foldl (\<lambda>acc b. 256 * acc + b) 0 bs"

fun split_nul :: "nat list \<Rightarrow> nat list list" where
  "split_nul [] = [[]]"
| "split_nul (b # bs) =
     (if b = 0 then [] # split_nul bs else (case split_nul bs of [] \<Rightarrow> [[b]] | f # fs \<Rightarrow> (b # f) # fs))"

text \<open>A field that is not UTF-8 is no number either, since a number is written in ASCII.\<close>

definition server_version :: "nat list \<Rightarrow> nat option" where
  "server_version response =
     (case filter (\<lambda>f. f \<noteq> []) (split_nul response) of
        [] \<Rightarrow> None
      | f # _ \<Rightarrow> parse_uint u32_max (map char_of f))"

definition probe_answer :: "nat list \<Rightarrow> probe_error + unit" where
  "probe_answer bytes =
     (if length bytes < 4 then Inl UnexpectedEof
      else (let len = be_u32 (take 4 bytes); rest = drop 4 bytes
            in if len = 0 \<or> len > 4096 then Inl InvalidLength
               else if length rest < len then Inl UnexpectedEof
               else (case server_version (take len rest) of
                       None \<Rightarrow> Inl MissingVersion
                     | Some v \<Rightarrow> if v < 100 then Inl ImplausibleVersion else Inr ())))"

definition probe :: "probe_peer \<Rightarrow> probe_error + unit" where
  "probe pb =
     (if \<not> pb_in_time pb then Inl ProbeTimedOut
      else if \<not> pb_connects pb \<or> \<not> pb_writable pb then Inl ProbeIo
      else probe_answer (pb_answer pb))"

section \<open>Requests on the wire\<close>

text \<open>
  How an HTTP server reads a request: the head up to the first empty line, the method and
  the path in its first line, and as many bytes of body as \<open>Content-Length\<close> says.
\<close>

fun split_crlf :: "string \<Rightarrow> string list" where
  "split_crlf [] = [[]]"
| "split_crlf [c] = [[c]]"
| "split_crlf (c # d # cs) =
     (if c = CHR 0x0D \<and> d = CHR 0x0A then [] # split_crlf cs
      else (case split_crlf (d # cs) of [] \<Rightarrow> [[c]] | l # ls \<Rightarrow> (c # l) # ls))"

definition content_length :: "string list \<Rightarrow> nat" where
  "content_length headers =
     (case find (\<lambda>h. starts_with h ''Content-Length: '') headers of
        None \<Rightarrow> 0
      | Some h \<Rightarrow> (case parse_uint u64_max (drop 16 h) of None \<Rightarrow> 0 | Some n \<Rightarrow> n))"

definition http_parse :: "string \<Rightarrow> (string \<times> string \<times> string) option" where
  "http_parse req =
     (case split_at_str (crlf @ crlf) req of
        None \<Rightarrow> None
      | Some (head, rest) \<Rightarrow>
          (case split_crlf head of
             [] \<Rightarrow> None
           | l # headers \<Rightarrow>
               (case split_on CHR '' '' l of
                  [m, p, v] \<Rightarrow>
                    if length rest < content_length headers then None
                    else Some (m, p, take (content_length headers) rest)
                | _ \<Rightarrow> None)))"

definition head_line :: "string \<Rightarrow> bool" where
  "head_line l \<longleftrightarrow> l \<noteq> [] \<and> CHR 0x0D \<notin> set l"

lemma split_at_skip:
  "CHR 0x0D \<notin> set a \<Longrightarrow> split_at_str (crlf @ crlf) (a @ b) = map_option (\<lambda>(x, y). (a @ x, y)) (split_at_str (crlf @ crlf) b)"
proof (induction a)
  case (Cons c a)
  then have "\<not> starts_with ((c # a) @ b) (crlf @ crlf)" by (auto simp: crlf_def)
  with Cons show ?case by (simp add: option.map_comp comp_def split_beta)
qed (simp add: option.map_id)

lemma split_at_line:
  assumes "c \<noteq> CHR 0x0D"
  shows "split_at_str (crlf @ crlf) (crlf @ c # b)
    = map_option (\<lambda>(x, y). (crlf @ x, y)) (split_at_str (crlf @ crlf) (c # b))"
  using assms by (simp add: crlf_def option.map_comp comp_def split_beta)

lemma split_at_head:
  "ls \<noteq> [] \<Longrightarrow> list_all head_line ls \<Longrightarrow>
     split_at_str (crlf @ crlf) (join_with crlf ls @ crlf @ crlf @ body) = Some (join_with crlf ls, body)"
proof (induction ls rule: induct_list012)
  case (2 l)
  have "split_at_str (crlf @ crlf) (crlf @ crlf @ body) = Some ([], body)" by (simp add: crlf_def)
  then show ?case using 2 by (simp add: split_at_skip head_line_def)
next
  case (3 l m ls)
  obtain c m' where m: "m = c # m'" "c \<noteq> CHR 0x0D" using 3 by (cases m) (auto simp: head_line_def)
  obtain r where r: "join_with crlf (m # ls) = c # r" using m(1) by (cases ls) auto
  have "split_at_str (crlf @ crlf) (join_with crlf (m # ls) @ crlf @ crlf @ body) = Some (join_with crlf (m # ls), body)"
    using 3 by simp
  then have "split_at_str (crlf @ crlf) (crlf @ join_with crlf (m # ls) @ crlf @ crlf @ body)
      = Some (crlf @ join_with crlf (m # ls), body)"
    using split_at_line [OF m(2)] by (simp add: r)
  then show ?case using 3 by (simp add: split_at_skip head_line_def)
qed simp

lemma split_crlf_nonempty [simp]: "split_crlf s \<noteq> []"
  by (induction s rule: split_crlf.induct) (auto split: list.splits)

lemma split_crlf_line: "CHR 0x0D \<notin> set l \<Longrightarrow> split_crlf l = [l]"
  by (induction l rule: split_crlf.induct) auto

lemma split_crlf_append: "CHR 0x0D \<notin> set l \<Longrightarrow> split_crlf (l @ crlf @ s) = l # split_crlf s"
proof (induction l)
  case (Cons c l)
  then show ?case by (cases "l @ crlf @ s") (auto simp: crlf_def)
qed (simp add: crlf_def)

lemma split_crlf_join: "ls \<noteq> [] \<Longrightarrow> list_all head_line ls \<Longrightarrow> split_crlf (join_with crlf ls) = ls"
  by (induction ls rule: induct_list012) (auto simp: split_crlf_line split_crlf_append head_line_def)

lemma http_parse_lines:
  assumes "list_all head_line (l # headers)" "split_on CHR '' '' l = [m, p, v]"
  shows "http_parse (join_with crlf (l # headers) @ crlf @ crlf @ rest) =
    (if length rest < content_length headers then None else Some (m, p, take (content_length headers) rest))"
proof -
  have "split_at_str (crlf @ crlf) (join_with crlf (l # headers) @ crlf @ crlf @ rest) = Some (join_with crlf (l # headers), rest)"
    by (rule split_at_head) (use assms in simp_all)
  moreover have "split_crlf (join_with crlf (l # headers)) = l # headers"
    by (rule split_crlf_join) (use assms in simp_all)
  ultimately show ?thesis using assms(2) by (simp add: http_parse_def)
qed

definition path_text :: "string \<Rightarrow> bool" where
  "path_text p \<longleftrightarrow> CHR '' '' \<notin> set p \<and> CHR 0x0D \<notin> set p"

lemma request_line:
  assumes "path_text p" "path_text m"
  shows "split_on CHR '' '' (m @ '' '' @ p @ '' HTTP/1.1'') = [m, p, ''HTTP/1.1'']"
  using assms split_on_append [of "CHR '' ''" m "p @ '' HTTP/1.1''"] split_on_append [of "CHR '' ''" p "''HTTP/1.1''"]
  by (simp add: path_text_def)

lemma get_request_parsed: "path_text p \<Longrightarrow> http_parse (get_request p) = Some (''GET'', p, [])"
proof -
  assume p: "path_text p"
  let ?l = "''GET'' @ '' '' @ p @ '' HTTP/1.1''" and ?hs = "[''Host: localhost'', ''Connection: close'']"
  have "get_request p = join_with crlf (?l # ?hs) @ crlf @ crlf @ []" by (simp add: get_request_def)
  moreover have "http_parse (join_with crlf (?l # ?hs) @ crlf @ crlf @ []) =
      (if length ([] :: string) < content_length ?hs then None else Some (''GET'', p, take (content_length ?hs) []))"
  proof (rule http_parse_lines)
    show "list_all head_line (?l # ?hs)" using p by (simp add: head_line_def path_text_def)
    show "split_on CHR '' '' ?l = [''GET'', p, ''HTTP/1.1'']" by (rule request_line [OF p]) (simp add: path_text_def)
  qed
  moreover have "content_length ?hs = 0" by (simp add: content_length_def)
  ultimately show ?thesis by simp
qed

lemma show_nat_cr_free: "CHR 0x0D \<notin> set (show_nat n)"
  using show_nat_ws_free [of n] by (auto simp: is_ws_def)

lemma window_path_text: "path_text action \<Longrightarrow> path_text (window_path wid action)"
  using show_nat_ws_free [of wid] by (auto simp: path_text_def window_path_def is_ws_def)

lemma post_request_parsed:
  assumes p: "path_text p" and len: "length body \<le> u64_max"
  shows "http_parse (post_request p body) = Some (''POST'', p, body)"
proof -
  let ?l = "''POST'' @ '' '' @ p @ '' HTTP/1.1''"
    and ?hs = "[''Host: localhost'', ''Content-Type: application/json'', ''Content-Length: '' @ show_nat (length body), ''Connection: close'']"
  have "post_request p body = join_with crlf (?l # ?hs) @ crlf @ crlf @ body" by (simp add: post_request_def)
  moreover have "http_parse (join_with crlf (?l # ?hs) @ crlf @ crlf @ body) =
      (if length body < content_length ?hs then None else Some (''POST'', p, take (content_length ?hs) body))"
  proof (rule http_parse_lines)
    show "list_all head_line (?l # ?hs)" using p by (simp add: head_line_def path_text_def show_nat_cr_free)
    show "split_on CHR '' '' ?l = [''POST'', p, ''HTTP/1.1'']" by (rule request_line [OF p]) (simp add: path_text_def)
  qed
  moreover have "content_length ?hs = length body"
    using parse_show_nat [OF len] by (simp add: content_length_def)
  ultimately show ?thesis by simp
qed


text \<open>Witness for \<open>agent_exchange_faithful\<close>: an agent that answers every request it can read.\<close>

definition demo_uds_agent :: uds_agent where
  "demo_uds_agent = \<lparr>ua_socket_path = ''/agent.sock'',
     ua_net = (\<lambda>k req. \<lparr>ex_connect = StepOk (), ex_write = StepOk (),
        ex_read = StepOk (join_with crlf [''HTTP/1.1 200 OK''] @ crlf @ crlf @ (if http_parse req = None then ''no'' else ''yes''))\<rparr>),
     ua_to_string = (\<lambda>j. crlf @ crlf), ua_from_str = (\<lambda>s. Some (JObj [(''ok'', JBool (s = ''yes''))]))\<rparr>"


section \<open>Fall-backs\<close>

text \<open>
  With the fall-back switched off, entering a code and dumping a window are exactly the
  agent's answer; with it, they succeed whenever the agent does, whatever the helper does,
  and an agent that failed is never reported as having succeeded unless the helper typed.
\<close>

theorem atspi_only_after_agent:
  assumes "atspi_mode_from_env (at_env off) = AtspiDisabled"
  shows "(uds_type_text_best off ua n wid text = Inr True \<longrightarrow> uds_type_text_best at ua n wid text = Inr True)
    \<and> (uds_type_text_best at ua n wid text = Inr True \<longrightarrow>
         uds_type_text_best off ua n wid text = Inr True
         \<or> (\<exists>t. title_of ua (n + 1) wid = Some t \<and> type_text_by_title at t text = Inr True))
    \<and> uds_dump_components off ua n wid = and_then (uds_get ua n Some (window_path wid ''dump'')) unwrap_response"
proof -
  have off: "\<not> atspi_fallback_enabled (at_env off)" using assms by (simp add: atspi_fallback_enabled_def)
  show ?thesis
    by (auto simp: uds_type_text_best_def type_text_via_atspi_def off uds_dump_components_def
        dump_components_via_atspi_def Let_def split: sum.splits option.splits if_splits)
qed

section \<open>Handshake\<close>

lemma split_nul_head: "0 \<notin> set f \<Longrightarrow> split_nul (f @ 0 # rest) = f # split_nul rest"
  by (induction f) auto

lemma server_version_shown:
  assumes "v \<le> u32_max"
  shows "server_version (map of_char (show_nat v) @ 0 # tail) = Some v"
proof -
  let ?f = "map of_char (show_nat v) :: nat list"
  have "0 \<notin> set ?f" using show_nat_chars by (force simp: is_digit_def)
  then have "filter (\<lambda>f. f \<noteq> []) (split_nul (?f @ 0 # tail)) = ?f # filter (\<lambda>f. f \<noteq> []) (split_nul tail)"
    by (simp add: split_nul_head)
  moreover have "map char_of ?f = show_nat v" by (simp add: comp_def)
  ultimately show ?thesis using parse_show_nat [OF assms] by (simp add: server_version_def)
qed

text \<open>
  The probe counts the API as alive exactly when the port answers in time with a
  framed message of 1 to 4096 bytes whose first field is a version of at least 100; a
  gateway that announces such a version is accepted whatever follows it, and an answer
  that ends early, or announces a lower version, is not.
\<close>

theorem probe_accepts_iff:
  "probe pb = Inr () \<longleftrightarrow>
     pb_in_time pb \<and> pb_connects pb \<and> pb_writable pb
     \<and> (\<exists>hdr payload rest v. pb_answer pb = hdr @ payload @ rest \<and> length hdr = 4 \<and> be_u32 hdr = length payload
          \<and> payload \<noteq> [] \<and> length payload \<le> 4096 \<and> server_version payload = Some v \<and> 100 \<le> v)"
proof -
  have ans: "probe_answer bytes = Inr () \<longleftrightarrow>
      (\<exists>hdr payload rest v. bytes = hdr @ payload @ rest \<and> length hdr = 4 \<and> be_u32 hdr = length payload
          \<and> payload \<noteq> [] \<and> length payload \<le> 4096 \<and> server_version payload = Some v \<and> 100 \<le> v)" (is "?l = ?r") for bytes
  proof
    assume l: ?l
    let ?len = "be_u32 (take 4 bytes)"
    have "4 \<le> length bytes" "?len \<noteq> 0" "?len \<le> 4096" "?len \<le> length (drop 4 bytes)"
        "\<exists>v. server_version (take ?len (drop 4 bytes)) = Some v \<and> 100 \<le> v"
      using l by (auto simp: probe_answer_def Let_def split: if_splits option.splits)
    moreover have "bytes = take 4 bytes @ take ?len (drop 4 bytes) @ drop ?len (drop 4 bytes)"
      unfolding append_take_drop_id by simp
    ultimately show ?r by (intro exI [of _ "take 4 bytes"] exI [of _ "take ?len (drop 4 bytes)"] exI [of _ "drop ?len (drop 4 bytes)"]) auto
  next
    assume ?r
    then show ?l by (auto simp: probe_answer_def Let_def)
  qed
  show ?thesis
    by (cases "pb_in_time pb"; cases "pb_connects pb"; cases "pb_writable pb") (simp_all add: probe_def ans)
qed

text \<open>A gateway's own answer is accepted.\<close>

lemma probe_accepts_gateway:
  assumes "100 \<le> v" "v \<le> u32_max" "length (show_nat v) + 1 + length tail \<le> 4096"
    "be_u32 hdr = length (show_nat v) + 1 + length tail" "length hdr = 4"
  shows "probe \<lparr>pb_connects = True, pb_writable = True, pb_in_time = True,
      pb_answer = hdr @ (map of_char (show_nat v) @ 0 # tail) @ rest\<rparr> = Inr ()"
  unfolding probe_accepts_iff using assms server_version_shown [OF assms(2)]
  by (intro conjI exI [of _ hdr] exI [of _ "map of_char (show_nat v) @ 0 # tail"] exI [of _ rest] exI [of _ v]) auto

end
