(* ===== verification/Peripherals.thy ===== *)
theory Peripherals
  imports Agent_Client
begin

text \<open>
  The remaining helpers at the edge of the program: the OCR check of the second-factor
  dialog (\<open>ocr.rs\<close>), the rotating log file (\<open>logging.rs\<close>) and the bridge from operating
  system signals to the controller's channel (\<open>signals.rs\<close>). Tesseract, the screenshot, the
  file operations, the signal stream and the calendar are arguments. The lemmas show when
  a strict OCR check keeps a code from being typed, and that every log line goes to the file
  of its own date as long as that file can be opened.
\<close>

section \<open>The OCR check\<close>

datatype ocr_mode = OcrDisabled | OcrAuto | OcrAlways

definition ocr_mode_from_env :: "getenv \<Rightarrow> ocr_mode" where
  "ocr_mode_from_env env =
     (let v = to_lowercase (trim (case env ''IBCTL_OCR_VERIFICATION'' of None \<Rightarrow> ''auto'' | Some s \<Rightarrow> s))
      in if v \<in> {''0'', ''false'', ''no'', ''off'', ''disabled''} then OcrDisabled
         else if v \<in> {''1'', ''true'', ''yes'', ''on'', ''enabled'', ''always''} then OcrAlways
         else OcrAuto)"

definition verification_enabled :: "getenv \<Rightarrow> bool" where
  "verification_enabled env \<longleftrightarrow> ocr_mode_from_env env \<noteq> OcrDisabled"

definition strict_verification :: "getenv \<Rightarrow> bool" where
  "strict_verification env =
     (case env ''IBCTL_OCR_VERIFICATION_STRICT'' of
        None \<Rightarrow> False
      | Some v \<Rightarrow> to_lowercase (trim v) \<in> {''1'', ''true'', ''yes'', ''on''})"

definition text_matches_any :: "string \<Rightarrow> string list \<Rightarrow> bool" where
  "text_matches_any text needles = list_ex (\<lambda>n. contains_str (to_lowercase text) (to_lowercase n)) needles"

datatype ocr_error = OcrAgent agent_error | OcrWrite | OcrSpawn | OcrTesseract | OcrUtf8

text \<open>
  What the check meets: whether \<open>tesseract --version\<close> succeeds, the screenshot, whether the
  temporary file can be written, and the run of tesseract on it.
\<close>

record ocr_world =
  oc_env :: getenv
  oc_tesseract :: bool
  oc_screenshot :: "agent_error + window_screenshot"
  oc_written :: bool
  oc_run :: helper_result

definition verify_window_contains_any :: "ocr_world \<Rightarrow> string list \<Rightarrow> ocr_error + (bool \<times> string) option" where
  "verify_window_contains_any oc needles =
     (if ocr_mode_from_env (oc_env oc) = OcrDisabled then Inr None
      else if ocr_mode_from_env (oc_env oc) = OcrAuto \<and> \<not> oc_tesseract oc then Inr None
      else (case oc_screenshot oc of
              Inl e \<Rightarrow> Inl (OcrAgent e)
            | Inr shot \<Rightarrow>
                if \<not> oc_written oc then Inl OcrWrite
                else (case oc_run oc of
                        HelperExited ok out \<Rightarrow>
                          if \<not> ok then Inl OcrTesseract
                          else (case out of None \<Rightarrow> Inl OcrUtf8 | Some t \<Rightarrow> Inr (Some (text_matches_any t needles, t)))
                      | _ \<Rightarrow> Inl OcrSpawn)))"

definition twofa_ocr_needles :: "string list" where
  "twofa_ocr_needles = [''second factor'', ''security code'', ''authentication code'', ''mobile authentication'',
     ''enter the code'', ''verification code'', ''one-time password'', ''passcode'']"

definition totp_ocr :: "ocr_world \<Rightarrow> ocr_outcome" where
  "totp_ocr oc =
     (if \<not> verification_enabled (oc_env oc) then OcrOff
      else (case verify_window_contains_any oc twofa_ocr_needles of
              Inr (Some (m, t)) \<Rightarrow> if m then OcrMatched else OcrUnmatched
            | Inr None \<Rightarrow> OcrSkipped
            | Inl e \<Rightarrow> OcrFailed))"

text \<open>
  Under strict verification the code handler touches the gateway only after OCR has
  recognized the dialog, or when OCR was switched off, or when the mode is automatic and
  tesseract is not installed: any other outcome, errors included, leaves the dialog as it
  was and reports an error.
\<close>

theorem strict_ocr_gates_code:
  assumes strict: "strict_verification (oc_env oc)"
    and typed: "fst (totp_handle \<lparr>te_ocr = totp_ocr oc, te_ocr_strict = strict_verification (oc_env oc), te_code = code\<rparr> ag w u) \<noteq> u"
  shows "ocr_mode_from_env (oc_env oc) = OcrDisabled
    \<or> (ocr_mode_from_env (oc_env oc) = OcrAuto \<and> \<not> oc_tesseract oc)
    \<or> (\<exists>shot text. oc_screenshot oc = Inr shot \<and> oc_run oc = HelperExited True (Some text) \<and> text_matches_any text twofa_ocr_needles)"
proof -
  have "totp_ocr oc \<noteq> OcrUnmatched" "totp_ocr oc \<noteq> OcrFailed"
    using strict typed by (auto simp: totp_handle_def)
  then show ?thesis
    by (auto simp: totp_ocr_def verify_window_contains_any_def verification_enabled_def
        split: if_splits sum.splits option.splits helper_result.splits prod.splits)
qed

text \<open>Witness for \<open>strict_ocr_gates_code\<close>: a recognized dialog and an agent that types.\<close>

definition strict_world :: ocr_world where
  "strict_world = \<lparr>oc_env = [''IBCTL_OCR_VERIFICATION_STRICT'' \<mapsto> ''1''], oc_tesseract = True,
     oc_screenshot = Inr \<lparr>sc_format = ''png'', sc_width = 1, sc_height = 1, sc_bytes = []\<rparr>, oc_written = True,
     oc_run = HelperExited True (Some ''Security Code'')\<rparr>"

lemma strict_world_strict: "strict_verification (oc_env strict_world)"
  by (simp add: strict_verification_def strict_world_def trim_def trim_start_def trim_end_def is_ws_def
      to_lowercase_def to_lower_char_def)

lemma strict_world_matches: "totp_ocr strict_world = OcrMatched"
  by code_simp

theorem strict_ocr_gates_code_witness:
  "\<exists>shot text. oc_screenshot strict_world = Inr shot \<and> oc_run strict_world = HelperExited True (Some text)
     \<and> text_matches_any text twofa_ocr_needles"
proof -
  let ?te = "\<lparr>te_ocr = totp_ocr strict_world, te_ocr_strict = strict_verification (oc_env strict_world), te_code = Some ''123456''\<rparr>"
  let ?ag = "\<lparr>ag_yes = (\<lambda>log a. Some True), ag_dump = (\<lambda>log i. None)\<rparr>"
    and ?w = "\<lparr>w_id = 7, w_title = [], w_class = [], w_bounds = None, w_visible = True\<rparr>"
    and ?u = "\<lparr>ui_log = [], ui_login_submitted = True\<rparr>"
  have typed: "fst (totp_handle ?te ?ag ?w ?u) \<noteq> ?u"
    by (simp add: totp_handle_def strict_world_matches act_def click_first.simps)
  have mode: "ocr_mode_from_env (oc_env strict_world) = OcrAuto" by code_simp
  have "oc_tesseract strict_world" by (simp add: strict_world_def)
  then show ?thesis using strict_ocr_gates_code [OF strict_world_strict typed] mode by simp
qed

text \<open>
  Strict verification does not require OCR to be there: in the automatic mode without
  tesseract the handler acts as if the check were switched off.
\<close>

theorem strict_ocr_skipped_without_tesseract:
  assumes "ocr_mode_from_env (oc_env oc) = OcrAuto" "\<not> oc_tesseract oc"
  shows "totp_handle \<lparr>te_ocr = totp_ocr oc, te_ocr_strict = True, te_code = code\<rparr> ag w u
    = totp_handle \<lparr>te_ocr = OcrOff, te_ocr_strict = True, te_code = code\<rparr> ag w u"
proof -
  have "totp_ocr oc = OcrSkipped"
    using assms by (simp add: totp_ocr_def verification_enabled_def verify_window_contains_any_def)
  then show ?thesis by (simp add: totp_handle_def)
qed

section \<open>The log file\<close>

text \<open>
  What the calendar says at one moment: the local date, and the hour, the date and the
  next date in New York. The reopening hour is compared as a signed byte.
\<close>

record calendar_now =
  cn_local_date :: string
  cn_eastern_hour :: nat
  cn_eastern_date :: string
  cn_eastern_tomorrow :: "string option"

definition log_date :: "bool \<Rightarrow> nat \<Rightarrow> calendar_now \<Rightarrow> string" where
  "log_date futures_session session_reopen_hour now =
     (if futures_session
      then (if int (cn_eastern_hour now) \<ge> as_i8 session_reopen_hour
            then (case cn_eastern_tomorrow now of None \<Rightarrow> cn_eastern_date now | Some d \<Rightarrow> d)
            else cn_eastern_date now)
      else cn_local_date now)"

record tee_state =
  ts_log_dir :: string
  ts_prefix :: string
  ts_current_date :: string
  ts_file :: "string option"
  ts_futures_session :: bool
  ts_session_reopen_hour :: nat

definition log_file_path :: "string \<Rightarrow> string \<Rightarrow> string \<Rightarrow> string" where
  "log_file_path dir prefix date =
     (if dir = [] then prefix @ ''-'' @ date @ ''.log''
      else if last dir = CHR ''/'' then dir @ prefix @ ''-'' @ date @ ''.log''
      else dir @ ''/'' @ prefix @ ''-'' @ date @ ''.log'')"

definition open_log_file :: "(string \<Rightarrow> bool) \<Rightarrow> string \<Rightarrow> string \<Rightarrow> string \<Rightarrow> string option" where
  "open_log_file can_open dir prefix date =
     (let p = log_file_path dir prefix date in if can_open p then Some p else None)"

definition maybe_rotate :: "(string \<Rightarrow> bool) \<Rightarrow> calendar_now \<Rightarrow> tee_state \<Rightarrow> tee_state" where
  "maybe_rotate can_open now ts =
     (let new_date = log_date (ts_futures_session ts) (ts_session_reopen_hour ts) now
      in if ts_current_date ts = new_date then ts
         else (case open_log_file can_open (ts_log_dir ts) (ts_prefix ts) new_date of
                 None \<Rightarrow> ts
               | Some f \<Rightarrow> ts\<lparr>ts_file := Some f, ts_current_date := new_date\<rparr>))"

definition tee_new :: "(string \<Rightarrow> bool) \<Rightarrow> bool \<Rightarrow> calendar_now \<Rightarrow> string \<Rightarrow> string \<Rightarrow> bool \<Rightarrow> nat \<Rightarrow> tee_state option" where
  "tee_new can_open dir_ok now dir prefix futures hour =
     (if \<not> dir_ok then None
      else map_option (\<lambda>f. \<lparr>ts_log_dir = dir, ts_prefix = prefix, ts_current_date = log_date futures hour now,
             ts_file = Some f, ts_futures_session = futures, ts_session_reopen_hour = hour\<rparr>)
        (open_log_file can_open dir prefix (log_date futures hour now)))"

text \<open>
  A write: standard output takes the first \<open>n\<close> bytes (or fails), and those go to the file.
  The second component is what the file operations append.
\<close>

definition tee_write :: "(string \<Rightarrow> bool) \<Rightarrow> calendar_now \<Rightarrow> nat option \<Rightarrow> string \<Rightarrow> tee_state \<Rightarrow> tee_state \<times> (string \<times> string) list" where
  "tee_write can_open now stdout buf ts =
     (case stdout of
        None \<Rightarrow> (ts, [])
      | Some n \<Rightarrow>
          (let ts1 = maybe_rotate can_open now ts
           in (ts1, case ts_file ts1 of None \<Rightarrow> [] | Some f \<Rightarrow> [(f, take n buf)])))"

fun tee_writes :: "(string \<Rightarrow> bool) \<Rightarrow> (calendar_now \<times> nat option \<times> string) list \<Rightarrow> tee_state \<Rightarrow> (string \<times> string) list" where
  "tee_writes can_open [] ts = []"
| "tee_writes can_open ((now, stdout, buf) # ws) ts =
     snd (tee_write can_open now stdout buf ts) @ tee_writes can_open ws (fst (tee_write can_open now stdout buf ts))"

definition tee_ok :: "string \<Rightarrow> string \<Rightarrow> bool \<Rightarrow> nat \<Rightarrow> tee_state \<Rightarrow> bool" where
  "tee_ok dir prefix futures hour ts \<longleftrightarrow>
     ts_log_dir ts = dir \<and> ts_prefix ts = prefix \<and> ts_futures_session ts = futures \<and> ts_session_reopen_hour ts = hour
     \<and> ts_file ts = Some (log_file_path dir prefix (ts_current_date ts))"

lemma maybe_rotate_ok: "tee_ok dir prefix futures hour ts \<Longrightarrow> tee_ok dir prefix futures hour (maybe_rotate can_open now ts)"
  by (auto simp: tee_ok_def maybe_rotate_def open_log_file_def Let_def split: option.split)

lemma maybe_rotate_date:
  "tee_ok dir prefix futures hour ts \<Longrightarrow> (\<And>p. can_open p) \<Longrightarrow> ts_current_date (maybe_rotate can_open now ts) = log_date futures hour now"
  by (auto simp: tee_ok_def maybe_rotate_def open_log_file_def Let_def)

text \<open>
  As long as log files can be opened, every write that reaches standard output is also
  appended, in order and to the same length, to the file named after the log date of its
  own moment, however the date changes between two writes.
\<close>

theorem log_lines_in_dated_files:
  assumes opens: "\<And>p. can_open p"
    and start: "tee_new can_open dir_ok now0 dir prefix futures hour = Some ts"
  shows "tee_writes can_open ws ts =
    concat (map (\<lambda>(now, stdout, buf). case stdout of
        None \<Rightarrow> [] | Some n \<Rightarrow> [(log_file_path dir prefix (log_date futures hour now), take n buf)]) ws)"
proof -
  have "tee_ok dir prefix futures hour ts"
    using start by (auto simp: tee_new_def tee_ok_def open_log_file_def Let_def split: if_splits)
  then show ?thesis
  proof (induction ws arbitrary: ts)
    case (Cons w ws)
    obtain now stdout buf where w: "w = (now, stdout, buf)" by (cases w) auto
    have ok: "tee_ok dir prefix futures hour (maybe_rotate can_open now ts)" by (rule maybe_rotate_ok [OF Cons.prems])
    have f: "ts_file (maybe_rotate can_open now ts) = Some (log_file_path dir prefix (log_date futures hour now))"
      using ok maybe_rotate_date [OF Cons.prems opens] by (simp add: tee_ok_def)
    show ?case
      using Cons.IH [OF ok] Cons.IH [OF Cons.prems] by (cases stdout) (simp_all add: w tee_write_def f)
  qed simp
qed

text \<open>Witness for \<open>log_lines_in_dated_files\<close>: a write before and one after the session reopens.\<close>

definition at_hour :: "nat \<Rightarrow> calendar_now" where
  "at_hour h = \<lparr>cn_local_date = ''2026-07-12'', cn_eastern_hour = h, cn_eastern_date = ''2026-07-12'',
     cn_eastern_tomorrow = Some ''2026-07-13''\<rparr>"

theorem log_lines_in_dated_files_witness:
  "\<exists>ts. tee_new (\<lambda>_. True) True (at_hour 9) ''/logs'' ''ibctl'' True 18 = Some ts
     \<and> tee_writes (\<lambda>_. True) [(at_hour 9, Some 2, ''ab''), (at_hour 18, Some 1, ''cd'')] ts
       = [(''/logs/ibctl-2026-07-12.log'', ''ab''), (''/logs/ibctl-2026-07-13.log'', ''c'')]"
proof -
  obtain ts where ts: "tee_new (\<lambda>_. True) True (at_hour 9) ''/logs'' ''ibctl'' True 18 = Some ts"
    by (simp add: tee_new_def open_log_file_def)
  show ?thesis using log_lines_in_dated_files [OF _ ts, of "[(at_hour 9, Some 2, ''ab''), (at_hour 18, Some 1, ''cd'')]"] ts
    by (simp add: log_file_path_def log_date_def at_hour_def as_i8_def numeral_2_eq_2)
qed

section \<open>Signals\<close>

fun bridge_signals :: "int option list \<Rightarrow> signal list" where
  "bridge_signals [] = []"
| "bridge_signals (None # ss) = []"
| "bridge_signals (Some n # ss) =
     (if n = 15 then [Terminate] else if n = 2 then [Interrupt] else []) @ bridge_signals ss"

end
