(* ===== verification/Wiring.thy ===== *)
theory Wiring
  imports Save_Settings Status_Queries Api_Config Server_Loop Peripherals
begin

text \<open>
  How the process is put together: the command line and \<open>async_main\<close> (\<open>main.rs\<close>), and the
  tasks and commands of \<open>state_machine/mod.rs\<close> that join two components: SETRESTART through
  the settings dialog, the refresh of the client list through the agent, the probe task
  over the API handshake, and the \<open>oathtool\<close> provider (\<open>totp.rs\<close>). The lemmas show what the
  wiring guarantees across components: which directory each of them works in, that the
  JVM, the client and the reader share one socket, that SETRESTART changes the restart time
  only, when the probe raises its flag, and that both code providers agree.
\<close>

section \<open>The command line\<close>

datatype cli = CliConfig "string option" | CliExit nat

text \<open>\<open>str::trim_start_matches\<close> removes the prefix as often as it is there.\<close>

function trim_start_matches :: "string \<Rightarrow> string \<Rightarrow> string" where
  "trim_start_matches p s =
     (if p \<noteq> [] \<and> starts_with s p then trim_start_matches p (drop (length p) s) else s)"
  by pat_completeness auto

termination
  by (relation "measure (\<lambda>(p, s). length s)") (auto simp: starts_with_iff)

declare trim_start_matches.simps [simp del]

text \<open>Every argument ends the loop: the first one decides.\<close>

definition parse_config_arg :: "string list \<Rightarrow> cli" where
  "parse_config_arg args =
     (case drop 1 args of
        [] \<Rightarrow> CliConfig None
      | arg # rest \<Rightarrow>
          if arg = ''--config'' \<or> arg = ''-c'' then CliConfig (case rest of [] \<Rightarrow> None | p # _ \<Rightarrow> Some p)
          else if starts_with arg ''--config='' then CliConfig (Some (trim_start_matches ''--config='' arg))
          else if arg = ''--help'' \<or> arg = ''-h'' \<or> arg = ''--version'' \<or> arg = ''-V'' then CliExit 0
          else CliExit 1)"

section \<open>Start-up of the process\<close>

text \<open>
  What the process meets: its arguments and environment, the configuration file, the log
  directory, the calendar, whether signal handlers can be registered, and the directory of
  its executable.
\<close>

record boot_world =
  bw_args :: "string list"
  bw_env :: env
  bw_from_toml :: "string \<Rightarrow> config option"
  bw_exists :: "string \<Rightarrow> bool"
  bw_read :: "string \<Rightarrow> string option"
  bw_log_dir_ok :: bool
  bw_can_open :: "string \<Rightarrow> bool"
  bw_calendar :: calendar_now
  bw_signals_ok :: bool
  bw_exe_dir :: "string option"
  bw_now :: zoned

datatype background_task = ClockVerifier | SignalBridge | CommandServerTask | ColdRestartTask | SaveSettingsTask | EventReaderTask

record process =
  ps_env :: env
  ps_config :: config
  ps_log :: "tee_state option"
  ps_supervisor :: supervisor
  ps_agent_socket :: string
  ps_reader_socket :: string
  ps_snapshot :: query_snapshot
  ps_tasks :: "background_task list"
  ps_equivalent_marker :: path

definition main_env :: "env \<Rightarrow> config \<Rightarrow> env" where
  "main_env env c =
     (if env ''RUST_LOG'' = None then env(''RUST_LOG'' \<mapsto> ''ibctl='' @ log_level_str (lg_level (cg_logging c))) else env)
       (''IBCTL_AGENT_TICK_MS'' \<mapsto> show_nat (ut_agent_tick_ms (cg_ui_timing c)))"

definition open_log :: "boot_world \<Rightarrow> config \<Rightarrow> tee_state option" where
  "open_log bw c =
     (let lg = cg_logging c in
      if lg_dir lg = [] then None
      else tee_new (bw_can_open bw) (bw_log_dir_ok bw) (bw_calendar bw) (lg_dir lg)
             (''ibctl-'' @ trading_mode_str (au_trading_mode (cg_auth c))) (lg_futures_session lg) (lg_reopen_hour lg))"

definition agent_jar_path :: "string option \<Rightarrow> string" where
  "agent_jar_path exe_dir = (case exe_dir of None \<Rightarrow> ''ibctl-agent.jar'' | Some d \<Rightarrow> join_path d ''ibctl-agent.jar'')"

definition spawned_tasks :: "config \<Rightarrow> zoned \<Rightarrow> background_task list" where
  "spawned_tasks c now =
     (let se = cg_session c in
      [ClockVerifier, SignalBridge]
      @ (if cs_enabled (cg_command_server c) then [CommandServerTask] else [])
      @ (if scheduler_setup (se_cold_restart_time se) (se_cold_restart_day se) now \<noteq> None then [ColdRestartTask] else [])
      @ (case save_settings_scheduler (se_save_settings_at se) of None \<Rightarrow> [] | Some _ \<Rightarrow> [SaveSettingsTask])
      @ [EventReaderTask])"

definition async_main :: "boot_world \<Rightarrow> config \<Rightarrow> process" where
  "async_main bw c =
     \<lparr>ps_env = main_env (bw_env bw) c, ps_config = c, ps_log = open_log bw c,
      ps_supervisor = supervisor_new (cg_gateway c) (agent_jar_path (bw_exe_dir bw)) (cg_agent_socket c)
        (ut_jvm_shutdown_timeout_secs (cg_ui_timing c)),
      ps_agent_socket = cg_agent_socket c, ps_reader_socket = cg_agent_socket c,
      ps_snapshot = initializing, ps_tasks = spawned_tasks c (bw_now bw),
      ps_equivalent_marker = equivalent_marker_path
        (settings_dir_for_marker (main_env (bw_env bw) c) (gw_settings_path (cg_gateway c)))\<rparr>"

text \<open>The start of \<open>main\<close>: the exit code when the process ends before it runs, or the running process.\<close>

definition main_start :: "boot_world \<Rightarrow> nat + process" where
  "main_start bw =
     (case parse_config_arg (bw_args bw) of
        CliExit n \<Rightarrow> Inl n
      | CliConfig p \<Rightarrow>
          (case load_config (bw_from_toml bw) (bw_exists bw) (bw_read bw) (bw_env bw) p of
             Inl e \<Rightarrow> Inl 1
           | Inr c \<Rightarrow> if bw_signals_ok bw then Inr (async_main bw c) else Inl 1))"

section \<open>SETRESTART\<close>

definition set_restart_settings :: "string \<Rightarrow> api_config_settings" where
  "set_restart_settings t =
     \<lparr>ac_socket_port = None, ac_master_client_id = None, ac_read_only_api = None, ac_bypass_order_precautions = None,
      ac_allow_blind_trading = None, ac_instrument_timezone = None, ac_auto_restart_time = Some t, ac_auto_logoff_time = None\<rparr>"

definition set_restart_time :: "api_agent \<Rightarrow> string \<Rightarrow> calls \<times> (string + api_config_report)" where
  "set_restart_time ag t = apply_api_config ag (set_restart_settings t)"

section \<open>The client list\<close>

definition is_client_window :: "window_info \<Rightarrow> bool" where
  "is_client_window w =
     (let t = to_lowercase (w_title w)
      in (contains_str t ''ib gateway'' \<or> contains_str t ''ibkr gateway'') \<and> \<not> contains_str t ''configuration'')"

definition max_client_ids :: nat where "max_client_ids = 256"

text \<open>One round of the task: what it publishes, over its first two exchanges with the agent.\<close>

definition client_id_round :: "uds_agent \<Rightarrow> string list" where
  "client_id_round ua =
     (case uds_list_windows ua 0 of
        Inl e \<Rightarrow> []
      | Inr ws \<Rightarrow>
          (case find is_client_window ws of
             None \<Rightarrow> []
           | Some w \<Rightarrow>
               (case uds_list_clients ua 1 (w_id w) of
                  Inl e \<Rightarrow> []
                | Inr view \<Rightarrow> derive_client_ids view max_client_ids)))"

section \<open>The probe task\<close>

text \<open>
  The task over the answers of the port: its failure count, and whether it has raised the
  flag. Nothing lowers the flag while the task runs.
\<close>

fun probe_task :: "nat \<Rightarrow> probe_peer list \<Rightarrow> nat \<Rightarrow> bool \<Rightarrow> nat \<times> bool" where
  "probe_task threshold [] failures flag = (failures, flag)"
| "probe_task threshold (pb # pbs) failures flag =
     (let (n, raised) = probe_round threshold (probe pb = Inr ()) failures
      in probe_task threshold pbs n (flag \<or> raised))"

section \<open>The external code provider\<close>

text \<open>
  Running \<open>oathtool\<close> with arguments and the secret on its standard input: it cannot be
  run, or exits with a status, its output and its error text (decoded lossily).
\<close>

datatype tool_result = ToolFailed string | ToolExited bool string string

definition oathtool_args :: "u64 \<Rightarrow> string list" where
  "oathtool_args timestamp = [''--totp'', ''--base32'', ''--now=@'' @ show_nat (unat timestamp), ''-'']"

definition oathtool_generate :: "(string list \<Rightarrow> string \<Rightarrow> tool_result) \<Rightarrow> string \<Rightarrow> u64 \<Rightarrow> totp_error + string" where
  "oathtool_generate run secret timestamp =
     (case run (oathtool_args timestamp) secret of
        ToolFailed e \<Rightarrow> Inl (ExecutionFailed e)
      | ToolExited ok out err \<Rightarrow> if ok then Inr (trim out) else Inl (OathtoolFailed err))"

section \<open>Directories and sockets\<close>

lemma main_startD:
  assumes "main_start bw = Inr ps"
  obtains p c where "load_config (bw_from_toml bw) (bw_exists bw) (bw_read bw) (bw_env bw) p = Inr c" "ps = async_main bw c"
  using assms by (auto simp: main_start_def split: cli.split_asm sum.split_asm if_split_asm)

lemma main_env_other: "k \<noteq> ''RUST_LOG'' \<Longrightarrow> k \<noteq> ''IBCTL_AGENT_TICK_MS'' \<Longrightarrow> main_env env c k = env k"
  by (simp add: main_env_def)

lemma loaded_settings_path:
  assumes "load_config from_toml exists read env p = Inr c" "env ''TWS_SETTINGS_PATH'' = Some d" "d \<noteq> []"
  shows "gw_settings_path (cg_gateway c) = d"
proof -
  obtain c0 where "c = apply_env_overrides env read c0" using load_config_Inr [OF assms(1)] by blast
  then have "gw_settings_path (cg_gateway c) = or_else (env_nonempty env ''TWS_SETTINGS_PATH'') (gw_settings_path (cg_gateway c0))"
    by (simp add: apply_env_overrides_def override_gateway_def)
  then show ?thesis using assms(2,3) by (simp add: env_nonempty_def)
qed


text \<open>Witness for \<open>wiring_consistent\<close>: a container that passes its settings directory.\<close>

definition demo_boot :: boot_world where
  "demo_boot = \<lparr>bw_args = [''ibctl''],
     bw_env = map_of [(''TWS_USERID'', ''user''), (''TWS_PASSWORD'', ''pw''), (''TWS_PATH'', ''/opt/Jts''),
       (''TWS_SETTINGS_PATH'', ''/opt/settings'')],
     bw_from_toml = (\<lambda>_. None), bw_exists = (\<lambda>_. False), bw_read = (\<lambda>_. None),
     bw_log_dir_ok = True, bw_can_open = (\<lambda>_. True), bw_calendar = at_hour 9, bw_signals_ok = True,
     bw_exe_dir = Some ''/opt/ibctl'', bw_now = sunday_nine\<rparr>"

lemma demo_fs_parts:
  "find_java (\<lambda>_. None) demo_fs ''/opt/Jts'' ''ibgateway/10.45'' = Inr ''/usr/bin/java''"
  "\<not> isl (build_classpath demo_fs ''/opt/Jts'' ''ibgateway/10.45'')"
  "\<not> isl (launch_vmoptions demo_fs ''/opt/Jts'' ''ibgateway/10.45'')"
  "detect_version default_gateway demo_fs ''/opt/Jts'' = Inr ''ibgateway/10.45''"
  by code_simp+

lemma demo_fs_plan:
  assumes "gw_tws_path (su_gateway su) = ''/opt/Jts''" "gw_version (su_gateway su) = []" "env ''JAVA_PATH'' = None"
  shows "\<exists>cmd. launch_plan su env demo_fs token = Inr cmd"
proof -
  have "detect_version (su_gateway su) demo_fs ''/opt/Jts'' = Inr ''ibgateway/10.45''"
    using demo_fs_parts(4) assms(2) by (simp add: detect_version_def default_gateway_def)
  moreover have "find_java env demo_fs ''/opt/Jts'' ''ibgateway/10.45'' = Inr ''/usr/bin/java''"
    using demo_fs_parts(1) assms(3) by (simp add: find_java_def)
  moreover obtain cp opts where "build_classpath demo_fs ''/opt/Jts'' ''ibgateway/10.45'' = Inr cp"
      "launch_vmoptions demo_fs ''/opt/Jts'' ''ibgateway/10.45'' = Inr opts"
    using demo_fs_parts(2,3) by (metis isl_def sum.exhaust)
  ultimately show ?thesis using assms(1) by (simp add: launch_plan_def)
qed


text \<open>
  Without the variable the parts disagree: a directory from the configuration file is used
  for the JVM and the equivalent-restart marker, but the scheduler keeps its fired marker
  in the built-in directory; with no directory at all the JVM uses the installation path
  and both markers the built-in directory.
\<close>

theorem file_directory_splits_markers:
  assumes "main_start bw = Inr ps" "bw_env bw ''TWS_SETTINGS_PATH'' = None"
  shows "fst (fired_marker_path (ps_env ps ''TWS_SETTINGS_PATH'')) = ''/home/ibgateway/Jts''
    \<and> fst (ps_equivalent_marker ps) = (if gw_settings_path (cg_gateway (ps_config ps)) = [] then ''/home/ibgateway/Jts''
        else gw_settings_path (cg_gateway (ps_config ps)))
    \<and> settings_dir (su_gateway (ps_supervisor ps)) = (if gw_settings_path (cg_gateway (ps_config ps)) = []
        then gw_tws_path (cg_gateway (ps_config ps)) else gw_settings_path (cg_gateway (ps_config ps)))"
proof -
  obtain c where ps: "ps = async_main bw c" using assms(1) by (rule main_startD)
  have "ps_env ps ''TWS_SETTINGS_PATH'' = None" using assms(2) by (simp add: ps async_main_def main_env_other)
  then show ?thesis
    using assms(2) by (simp add: fired_marker_path_def)
      (simp add: ps async_main_def equivalent_marker_path_def settings_dir_for_marker_def settings_dir_def
        supervisor_new_def main_env_other)
qed

section \<open>What SETRESTART changes\<close>

fun confirms :: "nat \<Rightarrow> api_call \<Rightarrow> bool" where
  "confirms cid ListWindows = True"
| "confirms cid (PressButton i b) = (i \<noteq> cid \<and> (b = ''Yes'' \<or> b = ''OK''))"
| "confirms cid c = False"

lemma dismiss_confirms:
  obtains pops where "dismiss_popups ag cid cs = cs @ pops" "list_all (confirms cid) pops"
proof (cases "aa_windows ag (length cs)")
  case None
  then show ?thesis using that [of "[ListWindows]"] by (simp add: dismiss_popups_def call_defs)
next
  case (Some ws)
  let ?p = "concat (map (\<lambda>w. if w_id w \<noteq> cid then [PressButton (w_id w) ''Yes'', PressButton (w_id w) ''OK''] else []) ws)"
  have "list_all (confirms cid) ?p" by (induction ws) auto
  then show ?thesis using that [of "ListWindows # ?p"] by (simp add: dismiss_popups_def call_defs Some)
qed

lemma set_restart_pages:
  "config_pages ag (set_restart_settings t) cid cs =
     (dismiss_popups ag cid (cs @ [SelectTreeNode cid ''Lock and Exit'', TypeFieldAt cid 0 (fst (parse_time_with_ampm t)),
        PressButton cid (snd (parse_time_with_ampm t)), PressButton cid ''Auto restart'']),
      \<lparr>rp_precaution_labels_not_found = 0, rp_read_only_api_label_not_found = 0\<rparr>)"
  by (simp add: config_pages_def set_restart_settings_def set_master_client_def set_socket_port_def set_read_only_def
      set_timezone_def set_precautions_def set_lock_and_exit_def set_exit_time_def call_defs split_beta)


section \<open>When the probe raises its flag\<close>

abbreviation silent :: "probe_peer \<Rightarrow> bool" where
  "silent pb \<equiv> probe pb \<noteq> Inr ()"

definition trailing :: "probe_peer list \<Rightarrow> nat" where
  "trailing pbs = length (takeWhile silent (rev pbs))"

lemma probe_task_append:
  "probe_task th (xs @ ys) n f = (case probe_task th xs n f of (n', f') \<Rightarrow> probe_task th ys n' f')"
  by (induction xs arbitrary: n f) (auto split: prod.split)

lemma probe_task_count: "fst (probe_task th pbs 0 False) = min u32_max (trailing pbs)"
proof (induction pbs rule: rev_induct)
  case (snoc pb pbs)
  obtain n f where "probe_task th pbs 0 False = (n, f)" by fastforce
  moreover have "min u32_max (Suc (min u32_max m)) = min u32_max (Suc m)" for m by (simp add: min_def)
  ultimately show ?case using snoc
    by (simp add: probe_task_append probe_round_def trailing_def saturating_add_def Let_def)
qed (simp add: trailing_def)

lemma silent_suffix:
  "(\<exists>pre run. pbs = pre @ run \<and> length run = k \<and> list_all silent run) \<longleftrightarrow> k \<le> trailing pbs"
proof
  assume "\<exists>pre run. pbs = pre @ run \<and> length run = k \<and> list_all silent run"
  then obtain pre run where r: "pbs = pre @ run" "length run = k" "list_all silent run" by blast
  have "takeWhile silent (rev run @ rev pre) = rev run @ takeWhile silent (rev pre)"
    by (rule takeWhile_append2) (use r(3) in \<open>auto simp: list_all_iff\<close>)
  then show "k \<le> trailing pbs" using r(1,2) by (simp add: trailing_def)
next
  assume k: "k \<le> trailing pbs"
  let ?run = "rev (take k (takeWhile silent (rev pbs)))"
  have eq: "rev pbs = take k (takeWhile silent (rev pbs)) @ drop k (takeWhile silent (rev pbs)) @ dropWhile silent (rev pbs)"
    by (metis append.assoc append_take_drop_id takeWhile_dropWhile_id)
  have "pbs = rev (drop k (takeWhile silent (rev pbs)) @ dropWhile silent (rev pbs)) @ ?run"
    using arg_cong [OF eq, of rev] unfolding rev_append rev_rev_ident by simp
  moreover have "list_all silent ?run" by (auto simp: list_all_iff dest: in_set_takeD set_takeWhileD)
  moreover have "length ?run = k" using k by (simp add: trailing_def)
  ultimately show "\<exists>pre run. pbs = pre @ run \<and> length run = k \<and> list_all silent run" by blast
qed

text \<open>
  C31. The probe task raises its flag exactly when so many handshakes in a row have failed
  as the configuration asks for (at least one), however successes and failures alternate
  around them.
\<close>

theorem probe_flag_iff:
  assumes "threshold \<le> u32_max"
  shows "snd (probe_task threshold pbs 0 False) \<longleftrightarrow>
    (\<exists>pre run post. pbs = pre @ run @ post \<and> length run = max 1 threshold \<and> list_all (\<lambda>pb. probe pb \<noteq> Inr ()) run)"
proof (induction pbs rule: rev_induct)
  case (snoc pb pbs)
  let ?k = "max 1 threshold"
  obtain f where f: "probe_task threshold pbs 0 False = (min u32_max (trailing pbs), f)"
    using probe_task_count [of threshold pbs] by (metis prod.collapse)
  have "snd (probe_task threshold (pbs @ [pb]) 0 False) \<longleftrightarrow> f \<or> silent pb \<and> threshold \<le> Suc (trailing pbs)"
    using assms by (auto simp: probe_task_append f probe_round_def saturating_add_def Let_def u32_max_def)
  also have "silent pb \<and> threshold \<le> Suc (trailing pbs) \<longleftrightarrow> ?k \<le> trailing (pbs @ [pb])"
    by (auto simp: trailing_def)
  also have "\<dots> \<longleftrightarrow> (\<exists>pre run. pbs @ [pb] = pre @ run \<and> length run = ?k \<and> list_all silent run)"
    by (rule silent_suffix [symmetric])
  finally have step: "snd (probe_task threshold (pbs @ [pb]) 0 False) \<longleftrightarrow>
      f \<or> (\<exists>pre run. pbs @ [pb] = pre @ run \<and> length run = ?k \<and> list_all silent run)" .
  have f_iff: "f \<longleftrightarrow> (\<exists>pre run post. pbs = pre @ run @ post \<and> length run = ?k \<and> list_all silent run)"
    using snoc f by simp
  show ?case
  proof
    assume "snd (probe_task threshold (pbs @ [pb]) 0 False)"
    then show "\<exists>pre run post. pbs @ [pb] = pre @ run @ post \<and> length run = ?k \<and> list_all silent run"
      unfolding step f_iff by (metis append.assoc append_Nil2)
  next
    assume "\<exists>pre run post. pbs @ [pb] = pre @ run @ post \<and> length run = ?k \<and> list_all silent run"
    then obtain pre run post where r: "pbs @ [pb] = pre @ run @ post" "length run = ?k" "list_all silent run" by blast
    show "snd (probe_task threshold (pbs @ [pb]) 0 False)"
    proof (cases post rule: rev_cases)
      case Nil
      then show ?thesis unfolding step using r by auto
    next
      case (snoc post' x)
      then have "pbs = pre @ run @ post'" using r(1) by simp
      then show ?thesis unfolding step f_iff using r(2,3) by blast
    qed
  qed
qed auto

text \<open>Witness for \<open>probe_flag_iff\<close>: two refused connections after a good answer, with a threshold of two.\<close>

definition refused :: probe_peer where
  "refused = \<lparr>pb_connects = False, pb_writable = True, pb_in_time = True, pb_answer = []\<rparr>"

theorem probe_flag_iff_witness:
  "\<forall>pb. snd (probe_task 2 [pb, refused, refused] 0 False)"
proof
  fix pb
  have t: "(2 :: nat) \<le> u32_max" by (simp add: u32_max_def)
  have "[pb, refused, refused] = [pb] @ [refused, refused] @ [] \<and> length [refused, refused] = max 1 2
      \<and> list_all silent [refused, refused]" by (simp add: refused_def probe_def)
  then show "snd (probe_task 2 [pb, refused, refused] 0 False)" using probe_flag_iff [OF t] by blast
qed

section \<open>The client list and the providers\<close>

text \<open>
  The published client list is bounded, and is empty unless the agent itself reports
  a connected client in the gateway's main window.
\<close>

theorem client_list_sound:
  "length (client_id_round ua) \<le> 256
   \<and> (client_id_round ua = [] \<or> (\<exists>ws w view. uds_list_windows ua 0 = Inr ws \<and> w \<in> set ws \<and> is_client_window w
        \<and> uds_list_clients ua 1 (w_id w) = Inr view \<and> client_id_round ua = derive_client_ids view 256))"
proof -
  have mf: "length (List.map_filter g xs) \<le> length xs" for g :: "json \<Rightarrow> string option" and xs
    by (induction xs) (auto simp: map_filter_simps split: option.split)
  have "length (List.map_filter g (take (min n 256) xs)) \<le> 256" for g :: "json \<Rightarrow> string option" and xs n
    using mf [of g "take (min n 256) xs"] by simp
  then have len: "length (derive_client_ids view 256) \<le> 256" for view
    unfolding derive_client_ids_def Let_def by (simp split: option.split)
  show ?thesis
    by (auto simp: client_id_round_def max_client_ids_def len split: sum.split option.split dest: find_SomeD)
qed

text \<open>
  Both providers type the same code, provided \<open>oathtool\<close> prints the time-based code of
  RFC 6238 and a line feed, as its manual says; and its arguments do not carry the secret.
\<close>

theorem providers_agree:
  assumes "generate_totp_at secret timestamp 30 6 = Inr (Inr code)"
    and "run [''--totp'', ''--base32'', ''--now=@'' @ show_nat (unat timestamp), ''-''] secret = ToolExited True (code @ [CHR 0x0A]) err"
  shows "generate_at Oathtool (oathtool_generate run) secret timestamp = generate_at Builtin (oathtool_generate run) secret timestamp"
proof -
  have "handler_code Builtin (oathtool_generate run) (Some secret) (Some timestamp) = Some code"
    using assms(1) by (simp add: handler_code_def generate_at_def)
  then have code: "length code = 6" "list_all is_digit code" using builtin_code_digits by blast+
  have "trim code = code" using code(2) by (intro trim_no_ws) (auto simp: list_all_iff is_digit_def is_ws_def)
  then have "trim ([] @ code @ [CHR 0x0A]) = code" using code(1) by (intro trim_pad) (auto simp: is_ws_def)
  then show ?thesis using assms by (simp add: generate_at_def oathtool_generate_def oathtool_args_def)
qed

end
