(* ===== verification/Cancellation.thy ===== *)
theory Cancellation
  imports Controller_Properties Session_Properties
begin

text \<open>
  Cancelled handlers. The main loop of \<open>state_machine/mod.rs\<close> races the handler of the state
  against its interrupt channels; when an interrupt wins, the future of the handler is dropped
  at the \<open>await\<close> it is suspended in, and what the handler did until then stays. For every
  handler this theory lists the controllers at its \<open>await\<close>s, extends the loop by iterations
  that end in such a controller, and shows which guarantees survive a cancellation and which
  counters and submissions do not.
\<close>

section \<open>Where a handler can be dropped\<close>

text \<open>
  Each list holds the controllers at the \<open>await\<close>s that the run in the given world reaches,
  beside the unchanged one. A handler that stays in its state sleeps as its last step.
\<close>

definition stay_cuts :: "world \<Rightarrow> state_machine \<Rightarrow> state_machine list" where
  "stay_cuts wd sm =
     (case transition wd None (sm_st sm) sm of
        (sm1, Inr s) \<Rightarrow> if s = sm_st sm then [sm1] else []
      | (sm1, Inl e) \<Rightarrow> [])"

text \<open>The fall-back from a warm restart resets the deadline before the cold path awaits.\<close>

definition login_form_cuts :: "world \<Rightarrow> state_machine \<Rightarrow> state_machine list" where
  "login_form_cuts wd sm =
     (if sm_warm_restart_pending sm \<noteq> None \<and> wd_running wd
         \<and> \<not> (case wd_windows wd 0 of None \<Rightarrow> False | Some ws \<Rightarrow> list_ex is_authenticated_main ws)
         \<and> in_state_ms wd sm > 120000
      then [sm\<lparr>sm_warm_restart_pending := None, sm_state_entered_at := wd_now wd\<rparr>] else [])"

definition retry_cuts :: "world \<Rightarrow> state_machine \<Rightarrow> state_machine list" where
  "retry_cuts wd sm =
     (if tf_retry_waiting_for_screen (sm_twofa sm) \<and> wd_windows wd 0 \<noteq> None
      then [fst (wait_for_observed_twofa_retry wd sm)] else [])"

text \<open>The login handler runs, and after it the two seconds that let the gateway settle.\<close>

definition submit_cuts :: "world \<Rightarrow> window_info \<Rightarrow> state_machine \<Rightarrow> state_machine list" where
  "submit_cuts wd w sm =
     emit (DispatchNamed ''LoginHandler'' (w_id w)) sm #
     (case wd_dispatch_named wd ''LoginHandler'' (w_id w) of
        Some (HandlerError m) \<Rightarrow> [] | Some DispatchFailed \<Rightarrow> []
      | _ \<Rightarrow> [fst (submit_login wd w sm)])"

definition authenticate_cuts :: "world \<Rightarrow> state_machine \<Rightarrow> state_machine list" where
  "authenticate_cuts wd sm =
     retry_cuts wd sm @
     (case wait_for_observed_twofa_retry wd sm of
        (sm1, Inr False) \<Rightarrow>
          (case retry_deadline_passed wd sm1 of
             None \<Rightarrow> []
           | Some sm2 \<Rightarrow>
               sm2 #
               (case check_blocking_dialog (wd_windows wd 0) of
                  Some s \<Rightarrow> []
                | None \<Rightarrow>
                    (case wd_windows wd 1 of
                       None \<Rightarrow> []
                     | Some ws \<Rightarrow>
                         (case find (\<lambda>w. is_gateway_title (w_title w)) ws of
                            None \<Rightarrow> []
                          | Some w \<Rightarrow> if \<not> has_login_fields wd w False then [] else submit_cuts wd w sm2))))
      | _ \<Rightarrow> [])"

definition code_cuts :: "world \<Rightarrow> window_info \<Rightarrow> state_machine \<Rightarrow> state_machine list" where
  "code_cuts wd w sm =
     (if tc_has_secret (cf_twofa (sm_config sm)) then [fst (twofa_submit wd w sm)] else [])"

definition challenge_cuts :: "world \<Rightarrow> window_info \<Rightarrow> state_machine \<Rightarrow> state_machine list" where
  "challenge_cuts wd w sm =
     (let sm1 = sm\<lparr>sm_twofa := (sm_twofa sm)\<lparr>tf_gone_at := None, tf_seen := True\<rparr>\<rparr>;
          dev = tc_device (cf_twofa (sm_config sm1));
          selected = (\<lambda>s. s\<lparr>sm_twofa := (sm_twofa s)\<lparr>tf_device_selected := True\<rparr>\<rparr>)
      in if tf_device_selected (sm_twofa sm1) then code_cuts wd w sm1
         else if dev = [] then code_cuts wd w (selected sm1)
         else (let sm2 = emit (SelectListItem (w_id w) dev) sm1;
                   sm3 = emit (ClickButton (w_id w) ''OK'') sm2
               in sm2 # (if wd_select_item wd (w_id w) dev = Some True then [sm3, selected sm3]
                         else code_cuts wd w (selected sm2))))"

text \<open>
  A challenge that is gone adds nothing: its windows are dumped only when an earlier run has
  set the time it went away.
\<close>

definition twofa_window_cuts :: "world \<Rightarrow> window_info list \<Rightarrow> state_machine \<Rightarrow> state_machine list" where
  "twofa_window_cuts wd ws sm =
     (let sm1 = sm\<lparr>sm_agent_failures := 0\<rparr>
      in if list_ex (\<lambda>w. is_conflict_title (w_title w)) ws then []
         else (if find (\<lambda>w. is_twofa_title (w_title w)) ws = None then [sm1] else []) @
              (case find_twofa wd ws of Some w \<Rightarrow> challenge_cuts wd w sm1 | None \<Rightarrow> []))"

definition twofa_cuts :: "world \<Rightarrow> state_machine \<Rightarrow> state_machine list" where
  "twofa_cuts wd sm =
     retry_cuts wd sm @
     (case wait_for_observed_twofa_retry wd sm of
        (sm1, Inr False) \<Rightarrow>
          (case retry_deadline_passed wd sm1 of
             None \<Rightarrow> []
           | Some sm2 \<Rightarrow>
               if \<not> wd_running wd \<or> has_relogin_dialog (sm_observation sm2) \<or> has_session_conflict (sm_observation sm2)
               then []
               else sm2 # (if check_blocking_dialog (wd_windows wd 0) = Some WaitingForLogin then []
                           else (case wd_windows wd 1 of None \<Rightarrow> [] | Some ws \<Rightarrow> twofa_window_cuts wd ws sm2)))
      | _ \<Rightarrow> [])"

text \<open>The conflict handler and the sleep after it see the same controller.\<close>

definition conflict_cuts :: "world \<Rightarrow> state_machine \<Rightarrow> state_machine list" where
  "conflict_cuts wd sm = (if wd_windows wd 0 = None then [] else [fst (do_handle_session_conflict wd sm)])"

fun popup_pass_cuts :: "world \<Rightarrow> window_info list \<Rightarrow> state_machine \<Rightarrow> state_machine list" where
  "popup_pass_cuts wd [] sm = []"
| "popup_pass_cuts wd (w # ws) sm =
     emit (DispatchWindow (w_id w)) sm # popup_pass_cuts wd ws (popup_pass wd [w] sm)"

definition popup_cuts :: "world \<Rightarrow> state_machine \<Rightarrow> state_machine list" where
  "popup_cuts wd sm =
     (if \<not> wd_running wd \<or> popups_blocked wd sm \<noteq> None then []
      else popup_pass_cuts wd
             (case wd_windows wd (if ob_synced (sm_observation sm) then 0 else 1) of None \<Rightarrow> [] | Some l \<Rightarrow> l) sm)"

definition configure_cuts :: "world \<Rightarrow> state_machine \<Rightarrow> state_machine list" where
  "configure_cuts wd sm0 =
     (let sm = dismiss_menus (wd_windows wd 0) sm0
      in sm #
         (case check_blocking_dialog (wd_windows wd 1) of
            Some s \<Rightarrow> []
          | None \<Rightarrow>
              if \<not> wd_running wd then []
              else (let sm1 = sm\<lparr>sm_config_retries := sm_config_retries sm + 1\<rparr>;
                        sm2 = emit (ApplyApiConfig (api_port_of (sm_config sm1))) sm1
                    in sm2 # (case wd_api_config wd of Some r \<Rightarrow> [] | None \<Rightarrow> [dismiss_menus (wd_windows wd 2) sm2]))))"

text \<open>
  In Connected, the checks before the window list do not await: \<open>connected_checks\<close> is the
  controller that reaches it, unless one of them leaves the state.
\<close>

definition unrevoked :: "state_machine \<times> sm_state option \<Rightarrow> state_machine option" where
  "unrevoked r = (case r of (sm, None) \<Rightarrow> Some sm | (sm, Some s) \<Rightarrow> None)"

definition connected_checks :: "world \<Rightarrow> state_machine \<Rightarrow> state_machine option" where
  "connected_checks wd sm0 =
     (let sm1 = ensure_socat wd (wd_socat_alive wd) (record_window_class wd sm0);
          sm2 = sm1\<lparr>sm_client_id_task := True\<rparr>
      in if \<not> wd_running wd then None
         else Option.bind (unrevoked (bus wd (sm_connection_event_disconnected sm2) ConnectionStatusEvent sm2)) (\<lambda>sm3.
              Option.bind (unrevoked (bus_port wd sm3)) (\<lambda>sm4.
              let sm5 = ensure_socat wd (wd_socat_alive_later wd) sm4
              in Option.bind (unrevoked (bus wd (has_relogin_dialog (sm_observation sm5)) ReloginDialog sm5)) (\<lambda>sm6.
                 unrevoked (bus wd (has_session_conflict (sm_observation sm6)) SessionConflict sm6)))))"

fun dispatch_cuts :: "window_info list \<Rightarrow> state_machine \<Rightarrow> state_machine list" where
  "dispatch_cuts [] sm = []"
| "dispatch_cuts (w # ws) sm =
     (let sm1 = emit (DispatchWindow (w_id w)) sm in sm1 # dispatch_cuts ws sm1)"

definition connected_cuts :: "world \<Rightarrow> state_machine \<Rightarrow> state_machine list" where
  "connected_cuts wd sm0 =
     (case connected_checks wd sm0 of
        None \<Rightarrow> []
      | Some sm \<Rightarrow>
          (let sm1 = adopt_window_class (sm\<lparr>sm_revocation := rev_clear TagErrorDialog (sm_revocation sm)\<rparr>)
           in [sm] @ (if probe_needed wd sm1 then [sm1] else [])
              @ dispatch_cuts (case connected_windows wd sm0 of None \<Rightarrow> [] | Some l \<Rightarrow> l) sm1))"

fun click_cuts :: "string \<Rightarrow> window_info list \<Rightarrow> state_machine \<Rightarrow> state_machine list" where
  "click_cuts label [] sm = []"
| "click_cuts label (w # ws) sm =
     (let sm1 = emit (ClickButton (w_id w) label) sm in sm1 # click_cuts label ws sm1)"

definition reconnect_cuts :: "world \<Rightarrow> state_machine \<Rightarrow> state_machine list" where
  "reconnect_cuts wd sm =
     (if \<not> wd_running wd then []
      else if sm_relogin_attempts sm > ti_relogin_max_attempts (cf_timing (sm_config sm))
      then click_cuts ''Cancel'' (filter is_relogin_dialog (case wd_windows wd 0 of None \<Rightarrow> [] | Some l \<Rightarrow> l)) sm
           @ [fst (relogin_exhausted wd sm)]
      else if in_state_ms wd sm < 30000 then []
      else (case wd_windows wd 0 of
              None \<Rightarrow> []
            | Some ws \<Rightarrow>
                (case find is_relogin_dialog ws of
                   None \<Rightarrow> []
                 | Some w \<Rightarrow>
                     (let sm1 = emit (ClickButton (w_id w) ''Re-login'') sm in [sm1, emit ResetHandlers sm1]))))"

text \<open>The kill, the wait with the pause after it, and the second kill.\<close>

definition jvm_cuts :: "world \<Rightarrow> state_machine \<Rightarrow> state_machine list" where
  "jvm_cuts wd sm =
     (let sm1 = stop_socat (abort_client_id_task sm);
          sm2 = (if wd_running wd then emit KillJvm sm1 else sm1);
          sm3 = emit WaitJvm sm2
      in (if wd_running wd then [sm2] else []) @ [sm3] @ (if wd_still_running wd then [emit KillJvm sm3] else []))"

definition restart_cuts :: "world \<Rightarrow> state_machine \<Rightarrow> state_machine list" where
  "restart_cuts wd sm =
     (let warm = (sm_warm_restart_pending sm \<noteq> None);
          delay = restart_delay (ti_restart_delay_secs (cf_timing (sm_config sm))) (sm_jvm_restarts sm) warm
      in if \<not> warm \<and> delay > 0 \<and> in_state_ms wd sm div 1000 < delay then []
         else if warm then jvm_cuts wd sm
         else (let n = saturating_add u32_max (sm_jvm_restarts sm) 1;
                   limit = env_uint wd u32_max ''IBCTL_CONTAINER_EXIT_AFTER_RESTARTS'' 8
               in if limit > 0 \<and> n \<ge> limit then [] else jvm_cuts wd (sm\<lparr>sm_jvm_restarts := n\<rparr>)))"

text \<open>The operator wait awaits the dump of the main window before it counts what it shows.\<close>

definition hitl_cuts :: "world \<Rightarrow> state_machine \<Rightarrow> state_machine list" where
  "hitl_cuts wd sm =
     (case hitl_login_check (hitl_enter wd sm) of
        (sm1, None) \<Rightarrow>
          (let ob = sm_observation sm1
           in if \<not> has_2fa_dialog ob \<and> \<not> has_login_form ob \<and> main_gateway_window ob \<noteq> None then [sm1] else [])
      | (sm1, Some s) \<Rightarrow> [])"

fun handler_cuts :: "world \<Rightarrow> sm_state \<Rightarrow> state_machine \<Rightarrow> state_machine list" where
  "handler_cuts wd WaitingForLogin sm = login_form_cuts wd sm"
| "handler_cuts wd Authenticating sm = authenticate_cuts wd sm"
| "handler_cuts wd WaitingFor2fa sm = twofa_cuts wd sm"
| "handler_cuts wd HandlingSessionConflict sm = conflict_cuts wd sm"
| "handler_cuts wd DismissingPopups sm = popup_cuts wd sm"
| "handler_cuts wd ConfiguringApi sm = configure_cuts wd sm"
| "handler_cuts wd Connected sm = connected_cuts wd sm"
| "handler_cuts wd ReconnectingSession sm = reconnect_cuts wd sm"
| "handler_cuts wd Restarting sm = restart_cuts wd sm"
| "handler_cuts wd WaitingForHitl2fa sm = hitl_cuts wd sm"
| "handler_cuts wd _ sm = []"

text \<open>A paused controller runs no handler.\<close>

definition cuts_of :: "world \<Rightarrow> state_machine \<Rightarrow> state_machine list" where
  "cuts_of wd sm =
     sm # (if pc_paused (sm_pause sm) then [] else handler_cuts wd (sm_st sm) sm @ stay_cuts wd sm)"


section \<open>The loop with cancellations\<close>

text \<open>
  The iterations of \<open>Main_Loop\<close> in which an interrupt that is taken drops the handler at its
  \<open>k\<close>-th \<open>await\<close>; in the action states agent events are kept back and do not interrupt.
\<close>

definition may_interrupt :: "sm_state \<Rightarrow> interrupt \<Rightarrow> bool" where
  "may_interrupt s i \<longleftrightarrow>
     (case i of IntAgentEvent e \<Rightarrow> s \<notin> {Authenticating, ConfiguringApi, HandlingSessionConflict} | _ \<Rightarrow> True)"

definition cut_at :: "world \<Rightarrow> nat \<Rightarrow> state_machine \<Rightarrow> state_machine" where
  "cut_at wd k sm = (if k < length (cuts_of wd sm) then cuts_of wd sm ! k else sm)"

definition loop_iteration_cut :: "params \<Rightarrow> iteration \<Rightarrow> nat \<Rightarrow> state_machine \<Rightarrow> loop_result" where
  "loop_iteration_cut pr it k sm =
     (case pre_transition pr (it_pre it) (fold async_step (it_async it) sm) of
        Inl p \<Rightarrow> Panicked p
      | Inr sm1 \<Rightarrow>
          (case it_outcome it of
             Interrupted i \<Rightarrow>
               finish_interrupt (it_post it) i
                 (drain_events (wd_now (it_post it)) (it_events it) (cut_at (it_post it) k sm1))
           | Completed \<Rightarrow>
               (case run_handler (it_post it) sm1 of
                  (sm2, r) \<Rightarrow>
                    finish_transition pr (it_post it) r
                      (drain_events (wd_now (it_post it)) (it_events it) sm2))))"

fun run_loop_cut :: "params \<Rightarrow> (iteration \<times> nat) list \<Rightarrow> state_machine \<Rightarrow> loop_result" where
  "run_loop_cut pr [] sm = Continue sm"
| "run_loop_cut pr ((it, k) # its) sm =
     (case loop_iteration_cut pr it k sm of Continue sm1 \<Rightarrow> run_loop_cut pr its sm1 | r \<Rightarrow> r)"

lemma cut_at_zero [simp]: "cut_at wd 0 sm = sm"
  by (simp add: cut_at_def cuts_of_def)

lemma cut_at_cases: "cut_at wd k sm = sm \<or> cut_at wd k sm \<in> set (cuts_of wd sm)"
  by (simp add: cut_at_def)

lemma cut_at_in: "cut_at wd k sm \<in> set (cuts_of wd sm)"
  using cut_at_cases [of wd k sm] by (auto simp: cuts_of_def)

lemma uncancelled_loop: "loop_iteration_cut pr it 0 sm = loop_iteration pr it sm"
  by (simp add: loop_iteration_cut_def loop_iteration_def split: sum.split select_outcome.split)

section \<open>What a cancellation keeps\<close>

lemma unrevoked_through: "unrevoked r = Some sm \<Longrightarrow> revoked_or r k = k sm"
  by (auto simp: unrevoked_def revoked_or_def split: prod.splits option.splits)

text \<open>The checks are those of the handler: what passes them goes on to the windows.\<close>

lemma connected_checks_spec:
  "connected_checks wd sm0 = Some sm \<Longrightarrow>
     do_connected wd sm0 = connected_probe wd (case connected_windows wd sm0 of None \<Rightarrow> [] | Some l \<Rightarrow> l) sm"
  by (auto simp: connected_checks_def do_connected_def Let_def bind_eq_Some_conv unrevoked_through split: if_splits)

lemma loop_unrevoked:
  "unrevoked r = Some sm \<Longrightarrow> loop_frame (fst r) = loop_frame sm0 \<Longrightarrow> loop_frame sm = loop_frame sm0"
  by (auto simp: unrevoked_def split: prod.splits option.splits)

lemma loop_checks: "connected_checks wd sm0 = Some sm \<Longrightarrow> loop_frame sm = loop_frame sm0"
  by (auto simp: connected_checks_def Let_def bind_eq_Some_conv loop_bus loop_connected_tail
      split: if_splits dest!: loop_unrevoked)

lemma loop_dispatch_cuts: "sm' \<in> set (dispatch_cuts ws sm) \<Longrightarrow> loop_frame sm' = loop_frame sm"
  by (induction ws arbitrary: sm) (auto simp: Let_def loop_frame_emit)

lemma loop_connected_cuts: "sm' \<in> set (connected_cuts wd sm) \<Longrightarrow> loop_frame sm' = loop_frame sm"
  by (cases "connected_checks wd sm")
     (auto simp: connected_cuts_def Let_def loop_connected_tail split: if_splits dest!: loop_checks loop_dispatch_cuts)

lemma frame_popup_cuts: "sm' \<in> set (popup_pass_cuts wd ws sm) \<Longrightarrow> frame_of sm' = frame_of sm"
  by (induction ws arbitrary: sm) (auto simp: popup_pass_def Let_def frame_emit)

lemma frame_click_cuts: "sm' \<in> set (click_cuts l ws sm) \<Longrightarrow> frame_of sm' = frame_of sm"
  by (induction ws arbitrary: sm) (auto simp: Let_def frame_emit)

lemma frame_jvm_cuts: "sm' \<in> set (jvm_cuts wd sm) \<Longrightarrow> frame_of sm' = frame_of sm"
  by (auto simp: jvm_cuts_def Let_def frame_emit split: if_splits)


lemma frame_session_cuts:
  assumes "s \<notin> {Authenticating, WaitingFor2fa, Connected}" and "sm' \<in> set (handler_cuts wd s sm)"
  shows "frame_of sm' = frame_of sm"
proof (cases s)
  case WaitingForLogin
  with assms(2) show ?thesis by (auto simp: login_form_cuts_def split: if_splits)
next
  case HandlingSessionConflict
  with assms(2) show ?thesis by (auto simp: conflict_cuts_def frame_conflict split: if_splits)
next
  case DismissingPopups
  with assms(2) show ?thesis by (auto simp: popup_cuts_def split: if_splits dest: frame_popup_cuts)
next
  case ConfiguringApi
  with assms(2) show ?thesis
    by (auto simp: configure_cuts_def frame_menus frame_emit Let_def split: option.splits if_splits)
next
  case ReconnectingSession
  with assms(2) show ?thesis
    by (auto simp: reconnect_cuts_def frame_relogin_exhausted frame_emit Let_def split: option.splits if_splits dest: frame_click_cuts)
next
  case Restarting
  with assms(2) show ?thesis by (auto simp: restart_cuts_def Let_def split: if_splits dest: frame_jvm_cuts)
next
  case WaitingForHitl2fa
  obtain sm1 r where h: "hitl_login_check (hitl_enter wd sm) = (sm1, r)" by (cases "hitl_login_check (hitl_enter wd sm)")
  then have "frame_of sm1 = frame_of sm"
    using frame_hitl_checks(1) [of wd sm] frame_hitl_checks(2) [of "hitl_enter wd sm"] by simp
  with assms(2) WaitingForHitl2fa h show ?thesis by (cases r) (auto simp: hitl_cuts_def Let_def split: if_splits)
qed (use assms in auto)

lemma parts_login_cuts:
  assumes "s \<in> {Authenticating, WaitingFor2fa}" and "sm' \<in> set (handler_cuts wd s sm)"
  shows "parts_of sm' = parts_of sm"
proof -
  obtain sm1 r where w: "wait_for_observed_twofa_retry wd sm = (sm1, r)" by (cases "wait_for_observed_twofa_retry wd sm")
  then have p: "parts_of sm1 = parts_of sm" using parts_retry(1) [of wd sm] by simp
  have code: "x \<in> set (code_cuts wd win y) \<Longrightarrow> parts_of x = parts_of y" for x win y
    by (auto simp: code_cuts_def twofa_submit_def split: if_splits)
  have submit: "x \<in> set (submit_cuts wd win y) \<Longrightarrow> parts_of x = parts_of y" for x win y
    by (auto simp: submit_cuts_def parts_submit_login split: option.splits dispatch_result.splits)
  have challenge: "x \<in> set (challenge_cuts wd win y) \<Longrightarrow> parts_of x = parts_of y" for x win y
    by (auto simp: challenge_cuts_def Let_def split: if_splits dest: code)
  have windows: "x \<in> set (twofa_window_cuts wd ws y) \<Longrightarrow> parts_of x = parts_of y" for x ws y
    by (auto simp: twofa_window_cuts_def Let_def split: if_splits option.splits dest: challenge)
  show ?thesis
    using assms w p
    by (auto simp: authenticate_cuts_def twofa_cuts_def retry_cuts_def split: if_splits sum.splits bool.splits option.splits
        dest!: submit windows parts_retry(2) [OF sym])
qed


lemma cut_loop_part: "sm' \<in> set (cuts_of wd sm) \<Longrightarrow> loop_part sm' = loop_part sm"
proof -
  assume cut: "sm' \<in> set (cuts_of wd sm)"
  consider "sm' = sm" | "sm' \<in> set (handler_cuts wd (sm_st sm) sm)" | "sm' \<in> set (stay_cuts wd sm)"
    using cut by (auto simp: cuts_of_def split: if_splits)
  then show ?thesis
  proof cases
    case 2
    consider "sm_st sm = Connected" | "sm_st sm \<in> {Authenticating, WaitingFor2fa}"
      | "sm_st sm \<notin> {Authenticating, WaitingFor2fa, Connected}" by blast
    then show ?thesis
      by cases (use 2 loop_connected_cuts parts_login_cuts frame_session_cuts in
          \<open>fastforce simp: loop_frame_def parts_of_def frame_of_def\<close>)+
  next
    case 3
    then show ?thesis
      using transition_loop_part [of wd None "sm_st sm" sm]
      by (cases "transition wd None (sm_st sm) sm") (auto simp: stay_cuts_def split: sum.splits if_splits)
  qed simp
qed

lemma blocked_cuts:
  assumes "retry_blocked wd sm" and "s \<in> {Authenticating, WaitingFor2fa}" and "sm' \<in> set (handler_cuts wd s sm)"
  shows "submissions sm' = submissions sm"
proof -
  obtain sm1 r where w: "wait_for_observed_twofa_retry wd sm = (sm1, r)"
    by (cases "wait_for_observed_twofa_retry wd sm")
  then have sub: "submissions sm1 = submissions sm"
    by (auto simp: wait_for_observed_twofa_retry_def submissions_def split: if_splits option.splits)
  have "retry_deadline_passed wd sm1 = None" if "r = Inr False"
    using w assms(1) that
    by (auto simp: wait_for_observed_twofa_retry_def retry_blocked_def retry_deadline_passed_def
        split: if_splits option.splits)
  then show ?thesis
    using assms(2,3) w sub
    by (auto simp: authenticate_cuts_def twofa_cuts_def retry_cuts_def split: if_splits sum.splits bool.splits)
qed

lemma cut_submissions:
  assumes "sm' \<in> set (cuts_of wd sm)" and "retry_blocked wd sm \<or> sm_st sm \<notin> {Authenticating, WaitingFor2fa}"
  shows "submissions sm' = submissions sm"
proof -
  consider "sm' = sm" | "sm' \<in> set (handler_cuts wd (sm_st sm) sm)" | "sm' \<in> set (stay_cuts wd sm)"
    using assms(1) by (auto simp: cuts_of_def split: if_splits)
  then show ?thesis
  proof cases
    case 2
    consider "sm_st sm = Connected" | "sm_st sm \<in> {Authenticating, WaitingFor2fa}"
      | "sm_st sm \<notin> {Authenticating, WaitingFor2fa, Connected}" by blast
    then show ?thesis
      by cases (use 2 assms(2) loop_connected_cuts blocked_cuts frame_session_cuts in
          \<open>fastforce simp: loop_frame_def frame_of_def\<close>)+
  next
    case 3
    have "submissions (fst (transition wd None (sm_st sm) sm)) = submissions sm"
      using assms(2) transition_submissions [of "sm_st sm" wd None sm] blocked_authenticate [of wd sm]
      by (cases "sm_st sm \<in> {Authenticating, WaitingFor2fa}") auto
    with 3 show ?thesis
      by (cases "transition wd None (sm_st sm) sm") (auto simp: stay_cuts_def split: sum.splits if_splits)
  qed simp
qed

lemma agent_event_frame: "loop_frame (handle_agent_event now e sm) = loop_frame sm"
  by (cases e) (auto simp: handle_error_dialog_def handle_connection_status_def loop_frame_defs emit_def Let_def)

lemma drain_events_frame: "loop_frame (drain_events now evs sm) = loop_frame sm"
  unfolding drain_events_def by (induction evs arbitrary: sm) (simp_all add: agent_event_frame)




section \<open>What a cancellation does not keep\<close>

text \<open>
  Credentials are submitted twice: a command that arrives in the two seconds after a login
  drops the handler before its successor state is stored, and the next run in Authenticating
  finds the same login form. The login handler is chosen by name, so its flag that a login was
  submitted is not consulted.
\<close>

theorem cancelled_login_submits_again:
  assumes "sm_st sm = Authenticating" and "\<not> pc_paused (sm_pause sm)" and "\<not> retry_blocked wd sm"
    and "check_blocking_dialog (wd_windows wd 0) = None" and "wd_windows wd 1 = Some ws"
    and "find (\<lambda>w. is_gateway_title (w_title w)) ws = Some w" and "has_login_fields wd w False"
    and "wd_dispatch_named wd ''LoginHandler'' (w_id w) = Some Handled"
  shows "\<exists>sm' \<in> set (cuts_of wd sm). submissions (fst (do_authenticate wd sm'))
    = submissions sm @ [DispatchNamed ''LoginHandler'' (w_id w), DispatchNamed ''LoginHandler'' (w_id w)]"
proof -
  let ?w = "wait_for_observed_twofa_retry wd"
  have idle: "\<not> tf_retry_waiting_for_screen (sm_twofa sm)" using assms(3) by (simp add: retry_blocked_def)
  define sm2 where "sm2 = sm\<lparr>sm_twofa := (sm_twofa sm)\<lparr>tf_retry_not_before := None\<rparr>\<rparr>"
  have d: "retry_deadline_passed wd sm = Some sm2"
    using assms(3)
    by (cases "tf_retry_not_before (sm_twofa sm)")
       (simp_all add: retry_deadline_passed_def retry_blocked_def sm2_def)
  have again: "do_authenticate wd x = submit_login wd w x"
    if "\<not> tf_retry_waiting_for_screen (sm_twofa x)" "tf_retry_not_before (sm_twofa x) = None" for x
    using that assms(4-7)
    by (simp add: do_authenticate_def wait_for_observed_twofa_retry_def retry_deadline_passed_def)
  let ?sm' = "fst (submit_login wd w sm2)"
  have "?sm' \<in> set (authenticate_cuts wd sm)"
    using idle d assms(4-8) by (simp add: authenticate_cuts_def wait_for_observed_twofa_retry_def submit_cuts_def)
  then have "?sm' \<in> set (cuts_of wd sm)" using assms(1,2) by (simp add: cuts_of_def)
  moreover have "sm_twofa ?sm' = sm_twofa sm2" using assms(8) by (simp add: submit_login_def emit_def Let_def)
  then have "do_authenticate wd ?sm' = submit_login wd w ?sm'"
    using idle by (intro again) (simp_all add: sm2_def)
  then have "submissions (fst (do_authenticate wd ?sm'))
      = submissions sm @ [DispatchNamed ''LoginHandler'' (w_id w), DispatchNamed ''LoginHandler'' (w_id w)]"
    using assms(8) by (simp add: submit_login_def emit_def submissions_def Let_def sm2_def)
  ultimately show ?thesis by blast
qed

text \<open>
  A restart is counted before the JVM is killed, so every cancellation during the kill counts
  it once more: at the limit less two, one cancelled restart makes the next run end the
  container although one restart fewer than the limit was begun.
\<close>

theorem cancelled_restart_is_counted:
  assumes "sm_st sm = Restarting" and "\<not> pc_paused (sm_pause sm)" and "sm_warm_restart_pending sm = None"
    and "base = ti_restart_delay_secs (cf_timing (sm_config sm))" and "n = sm_jvm_restarts sm" and "n + 2 \<le> u32_max"
    and "restart_delay base n False \<le> in_state_ms wd sm div 1000"
    and "restart_delay base (n + 1) False \<le> in_state_ms wd' sm div 1000"
    and "env_uint wd u32_max ''IBCTL_CONTAINER_EXIT_AFTER_RESTARTS'' 8 = n + 2"
    and "env_uint wd' u32_max ''IBCTL_CONTAINER_EXIT_AFTER_RESTARTS'' 8 = n + 2"
  shows "\<exists>sm' \<in> set (cuts_of wd sm). sm_st sm' = Restarting \<and> sm_jvm_restarts sm' = n + 1
    \<and> snd (do_restart wd' sm') = Inr Shutdown"
proof -
  define sm1 where "sm1 = stop_socat (abort_client_id_task (sm\<lparr>sm_jvm_restarts := n + 1\<rparr>))"
  define sm' where "sm' = emit WaitJvm (if wd_running wd then emit KillJvm sm1 else sm1)"
  have sat: "saturating_add u32_max n 1 = n + 1" "saturating_add u32_max (n + 1) 1 = n + 2"
    using assms(6) by (simp_all add: saturating_add_def)
  have "sm' \<in> set (restart_cuts wd sm)"
    using assms(3,4,5,7,9) sat by (simp add: restart_cuts_def jvm_cuts_def sm'_def sm1_def Let_def not_less)
  then have "sm' \<in> set (cuts_of wd sm)" using assms(1,2) by (simp add: cuts_of_def)
  moreover have f: "sm_st sm' = Restarting" "sm_jvm_restarts sm' = n + 1" "sm_warm_restart_pending sm' = None"
    "sm_config sm' = sm_config sm" "sm_state_entered_at sm' = sm_state_entered_at sm"
    using assms(1,3) by (simp_all add: sm'_def sm1_def emit_def stop_socat_def abort_client_id_task_def)
  then have "snd (do_restart wd' sm') = Inr Shutdown"
    using assms(4,8,10) sat by (simp add: do_restart_def in_state_ms_def Let_def not_less)
  ultimately show ?thesis using f(1,2) by blast
qed

text \<open>
  An attempt to configure the API is counted when it starts: two cancelled attempts and one
  that fails restart the JVM, as three failures are meant to.
\<close>

lemma configure_attempt_cut:
  assumes "sm_st sm = ConfiguringApi" "\<not> pc_paused (sm_pause sm)" "wd_running wd"
    "check_blocking_dialog (wd_windows wd 1) = None"
  shows "\<exists>sm' \<in> set (cuts_of wd sm). sm_config_retries sm' = sm_config_retries sm + 1"
proof
  let ?sm = "dismiss_menus (wd_windows wd 0) sm"
  let ?sm1 = "?sm\<lparr>sm_config_retries := sm_config_retries ?sm + 1\<rparr>"
  let ?sm' = "emit (ApplyApiConfig (api_port_of (sm_config ?sm1))) ?sm1"
  show "sm_config_retries ?sm' = sm_config_retries sm + 1"
    by (simp add: emit_def dismiss_menus_def split: option.split)
  have "?sm' \<in> set (configure_cuts wd sm)" using assms(3,4) by (simp add: configure_cuts_def Let_def)
  then show "?sm' \<in> set (cuts_of wd sm)" using assms(1,2) by (simp add: cuts_of_def)
qed

theorem cancelled_configuration_is_counted:
  assumes "sm_st sm = ConfiguringApi" and "\<not> pc_paused (sm_pause sm)" and "sm_config_retries sm = 0"
    and "wd_running wd" and "check_blocking_dialog (wd_windows wd 1) = None" and "wd_api_config wd = None"
  shows "\<exists>sm1 \<in> set (cuts_of wd sm). \<exists>sm2 \<in> set (cuts_of wd sm1). snd (do_configure_api wd sm2) = Inr Restarting"
proof -
  obtain sm1 where 1: "sm1 \<in> set (cuts_of wd sm)" "sm_config_retries sm1 = 1"
    using configure_attempt_cut [OF assms(1,2,4,5)] assms(3) by auto
  then have p1: "sm_st sm1 = ConfiguringApi" "\<not> pc_paused (sm_pause sm1)"
    using cut_loop_part [OF 1(1)] assms(1,2) by (auto simp: loop_part_def)
  then obtain sm2 where 2: "sm2 \<in> set (cuts_of wd sm1)" "sm_config_retries sm2 = 2"
    using configure_attempt_cut [OF p1 assms(4,5)] 1(2) by auto
  have "sm_config_retries (dismiss_menus ws x) = sm_config_retries x" for ws x
    by (simp add: dismiss_menus_def emit_def split: option.split)
  then have "snd (do_configure_api wd sm2) = Inr Restarting"
    using 2(2) assms(4-6) by (simp add: do_configure_api_def max_config_retries_def emit_def Let_def)
  with 1 2 show ?thesis by blast
qed

text \<open>
  The debounce of the operator wait counts runs of the handler and not time: a login form that
  is in the cache while two agent events arrive is left for WaitingForLogin at once, at one and
  the same instant, and not after the six seconds the threshold stands for.
\<close>

theorem operator_debounce_counts_events:
  assumes "sm_st sm = WaitingForHitl2fa" and "\<not> pc_paused (sm_pause sm)"
    and "hi_entered_at (sm_hitl sm) \<noteq> None" and "hi_login_form_ticks (sm_hitl sm) = 0"
    and "has_login_form (sm_observation sm)" and "\<not> has_2fa_dialog (sm_observation sm)"
    and "\<forall>t. hi_next_retry_at (sm_hitl sm) = Some t \<longrightarrow> wd_now wd < t"
  shows "\<exists>sm1 \<in> set (cuts_of wd sm). \<exists>sm2 \<in> set (cuts_of wd sm1).
    snd (do_waiting_for_hitl_2fa wd None sm2) = Inr WaitingForLogin"
proof -
  let ?up = "\<lambda>k x. x\<lparr>sm_hitl := (sm_hitl x)\<lparr>hi_login_form_ticks := k, hi_connected_ticks := 0\<rparr>\<rparr>"
  let ?waits = "\<lambda>x. sm_st x = WaitingForHitl2fa \<and> \<not> pc_paused (sm_pause x) \<and> hi_entered_at (sm_hitl x) \<noteq> None
      \<and> has_login_form (sm_observation x) \<and> \<not> has_2fa_dialog (sm_observation x)
      \<and> (\<forall>t. hi_next_retry_at (sm_hitl x) = Some t \<longrightarrow> wd_now wd < t)"
  have run: "do_waiting_for_hitl_2fa wd None x =
      (if k \<ge> 2 then (x\<lparr>sm_hitl := (sm_hitl x)\<lparr>hi_login_form_ticks := k + 1\<rparr>\<rparr>, Inr WaitingForLogin)
       else (?up (k + 1) x, Inr WaitingForHitl2fa))"
    if "?waits x" "hi_login_form_ticks (sm_hitl x) = k" "k \<le> 2" for x k
    using that
    by (auto simp: do_waiting_for_hitl_2fa_def hitl_enter_def revoked_or_def hitl_login_check_def Let_def
        hitl_connected_check_def hitl_sees_connected_def hitl_deadline_check_def saturating_add_def u8_max_def
        hitl_demote_tick_threshold_def goto_state_def split: option.split)
  have cut: "?up (k + 1) x \<in> set (cuts_of wd x)"
    if "?waits x" "hi_login_form_ticks (sm_hitl x) = k" "k \<le> 1" for x k
    using that run [of x k] by (simp add: cuts_of_def stay_cuts_def)
  have w: "?waits sm" "?waits (?up 1 sm)" "?waits (?up 2 (?up 1 sm))" using assms by simp_all
  have 1: "?up 1 sm \<in> set (cuts_of wd sm)" using cut [OF w(1), of 0] assms(4) by simp
  have 2: "?up 2 (?up 1 sm) \<in> set (cuts_of wd (?up 1 sm))" using cut [OF w(2), of 1] by (simp add: numeral_2_eq_2)
  have "snd (do_waiting_for_hitl_2fa wd None (?up 2 (?up 1 sm))) = Inr WaitingForLogin"
    using run [OF w(3), of 2] by simp
  with 1 2 show ?thesis by blast
qed

end
