(* ===== verification/Lifecycle_Graph.thy ===== *)
theory Lifecycle_Graph
  imports Cancellation
begin

text \<open>
  The lifecycle as an abstract machine, and the proof that the main loop implements it. The
  abstract machine knows the lifecycle state, the state to return to after an outage of IB and
  the pause control; it moves along a fixed graph of successors when a handler completes, into
  the wait for IB, into standby when recovery gives up, and by the commands and signals of the
  operator. A generic simulation carries the result from one iteration to runs of the loop
  with cancelled handlers.
\<close>

section \<open>Labelled paths and simulation\<close>

inductive steps :: "('l \<Rightarrow> 's \<Rightarrow> 's \<Rightarrow> bool) \<Rightarrow> 'l list \<Rightarrow> 's \<Rightarrow> 's \<Rightarrow> bool" for step where
  no_step: "steps step [] s s"
| one_more: "step l s t \<Longrightarrow> steps step ls t u \<Longrightarrow> steps step (l # ls) s u"

inductive_simps steps_Nil [simp]: "steps step [] s t"
inductive_simps steps_Cons [simp]: "steps step (l # ls) s t"

lemma steps_append: "steps step ls s t \<Longrightarrow> steps step ms t u \<Longrightarrow> steps step (ls @ ms) s u"
  by (induction rule: steps.induct) (auto intro: steps.intros)

lemma steps_single: "step l s t \<Longrightarrow> steps step [l] s t"
  by (auto intro: steps.intros)

lemma steps_maybe:
  assumes "t = s \<or> step l s t"
  shows "\<exists>ls. steps step ls s t \<and> set ls \<subseteq> {l}"
  using assms
proof
  assume "t = s"
  then show ?thesis by (auto intro!: exI [of _ "[]"] steps.no_step)
next
  assume "step l s t"
  then show ?thesis by (auto intro!: exI [of _ "[l]"] steps_single)
qed

text \<open>
  A concrete machine simulates an abstract one when each of its steps, from a state whose image
  is well formed, is a path of the abstract machine with labels the step allows.
\<close>

locale path_simulation =
  fixes cstep :: "'i \<Rightarrow> 'c \<Rightarrow> 'c \<Rightarrow> bool" and astep :: "'l \<Rightarrow> 'a \<Rightarrow> 'a \<Rightarrow> bool"
    and abs :: "'c \<Rightarrow> 'a" and good :: "'a \<Rightarrow> bool" and allows :: "'i \<Rightarrow> 'l \<Rightarrow> bool"
  assumes simulates:
      "good (abs s) \<Longrightarrow> cstep i s t \<Longrightarrow> \<exists>ls. steps astep ls (abs s) (abs t) \<and> (\<forall>l \<in> set ls. allows i l)"
    and good_step: "good a \<Longrightarrow> astep l a b \<Longrightarrow> good b"
begin

lemma good_steps: "steps astep ls a b \<Longrightarrow> good a \<Longrightarrow> good b"
  by (induction rule: steps.induct) (auto intro: good_step)

lemma run_simulates:
  "steps cstep is s t \<Longrightarrow> good (abs s) \<Longrightarrow>
     \<exists>ls. steps astep ls (abs s) (abs t) \<and> (\<forall>l \<in> set ls. \<exists>i \<in> set is. allows i l)"
proof (induction rule: steps.induct)
  case (no_step s)
  then show ?case by (auto intro!: exI [of _ "[]"] steps.no_step)
next
  case (one_more i s t js u)
  obtain ls where l: "steps astep ls (abs s) (abs t)" "\<forall>l \<in> set ls. allows i l"
    using simulates [OF one_more.prems one_more.hyps(1)] by blast
  obtain ms where m: "steps astep ms (abs t) (abs u)" "\<forall>l \<in> set ms. \<exists>j \<in> set js. allows j l"
    using one_more.IH good_steps [OF l(1) one_more.prems] by blast
  have "steps astep (ls @ ms) (abs s) (abs u)" by (rule steps_append [OF l(1) m(1)])
  then show ?case using l(2) m(2) by (intro exI [of _ "ls @ ms"]) auto
qed

lemma run_good: "steps cstep is s t \<Longrightarrow> good (abs s) \<Longrightarrow> good (abs t)"
  using run_simulates good_steps by blast

end

section \<open>The lifecycle\<close>

record life =
  lf_state :: sm_state
  lf_return :: "sm_state option"
  lf_pause :: pause_control

text \<open>The successors of a state, and the states whose handler may fail into a restart.\<close>

fun successors :: "sm_state \<Rightarrow> sm_state list" where
  "successors WaitingForLaunch = []"
| "successors Init = [Launching]"
| "successors Launching = [WaitingForAgent]"
| "successors WaitingForAgent = [WaitingForLogin]"
| "successors WaitingForLogin =
     [Authenticating, WaitingFor2fa, HandlingSessionConflict, ReconnectingSession, DismissingPopups]"
| "successors Authenticating = [WaitingForLogin, WaitingFor2fa, ReconnectingSession, DismissingPopups]"
| "successors WaitingFor2fa =
     [WaitingForLogin, HandlingSessionConflict, DismissingPopups, Restarting, WaitingForHitl2fa, Shutdown]"
| "successors HandlingSessionConflict = [DismissingPopups]"
| "successors DismissingPopups = [WaitingFor2fa, HandlingSessionConflict, ReconnectingSession, WaitingForApiReady]"
| "successors WaitingForApiReady =
     [WaitingForLogin, WaitingFor2fa, HandlingSessionConflict, ReconnectingSession, ConfiguringApi, Restarting]"
| "successors ConfiguringApi = [WaitingFor2fa, ReconnectingSession, Connected, Restarting]"
| "successors Connected = [WaitingForLogin, WaitingFor2fa, HandlingSessionConflict, ReconnectingSession, Restarting]"
| "successors ReconnectingSession = [WaitingForLogin, WaitingFor2fa, Connected, Restarting]"
| "successors Restarting = [Launching, Shutdown]"
| "successors WaitingForIB = []"
| "successors WaitingForHitl2fa = [WaitingForLogin, WaitingForApiReady, Restarting]"
| "successors Shutdown = []"
| "successors (ErrorState m) = []"

definition may_fail :: "sm_state \<Rightarrow> bool" where
  "may_fail s \<longleftrightarrow> s \<in> {Init, WaitingForAgent, WaitingForLogin, WaitingFor2fa, DismissingPopups}"

text \<open>Entering a state pauses the machine when it is the ceiling.\<close>

definition enter :: "sm_state \<Rightarrow> life \<Rightarrow> life" where
  "enter s l =
     l\<lparr>lf_state := s,
       lf_pause := (if pc_ceiling (lf_pause l) = Some s then \<lparr>pc_paused = True, pc_ceiling = None\<rparr> else lf_pause l)\<rparr>"

fun life_command :: "command \<Rightarrow> life \<Rightarrow> life" where
  "life_command CmdStop l = l\<lparr>lf_state := WaitingForLaunch\<rparr>"
| "life_command CmdExit l = l\<lparr>lf_state := Shutdown\<rparr>"
| "life_command CmdStart l = (if lf_state l = WaitingForLaunch then l\<lparr>lf_state := Init\<rparr> else l)"
| "life_command CmdRestart l = l\<lparr>lf_state := Restarting\<rparr>"
| "life_command CmdPause l = l\<lparr>lf_pause := \<lparr>pc_paused = True, pc_ceiling = None\<rparr>\<rparr>"
| "life_command (CmdPauseAt name) l =
     (case from_name name of
        None \<Rightarrow> l
      | Some s \<Rightarrow> if s = lf_state l then l\<lparr>lf_pause := \<lparr>pc_paused = True, pc_ceiling = None\<rparr>\<rparr>
                  else l\<lparr>lf_pause := (lf_pause l)\<lparr>pc_ceiling := Some s\<rparr>\<rparr>)"
| "life_command CmdResume l = l\<lparr>lf_pause := \<lparr>pc_paused = False, pc_ceiling = None\<rparr>\<rparr>"
| "life_command (CmdSetState name) l = (case from_name name of None \<Rightarrow> l | Some s \<Rightarrow> l\<lparr>lf_state := s\<rparr>)"
| "life_command CmdHitlResume l = (if lf_state l = WaitingForHitl2fa then l\<lparr>lf_state := Restarting\<rparr> else l)"
| "life_command _ l = l"

fun life_interrupt :: "interrupt \<Rightarrow> life \<Rightarrow> life" where
  "life_interrupt (IntSignal Terminate) l = l\<lparr>lf_state := Shutdown\<rparr>"
| "life_interrupt (IntSignal Interrupt) l = l\<lparr>lf_state := Shutdown\<rparr>"
| "life_interrupt (IntCommand c) l = life_command c l"
| "life_interrupt (IntColdRestart ColdFire) l =
     (if is_dormant (lf_state l) then l else l\<lparr>lf_state := Restarting\<rparr>)"
| "life_interrupt _ l = l"

datatype cause = ByHandler | ByOutage | ByGiveUp | ByInterrupt interrupt

inductive life_step :: "cause \<Rightarrow> life \<Rightarrow> life \<Rightarrow> bool" where
  completed: "\<not> pc_paused (lf_pause l) \<Longrightarrow> s \<in> set (successors (lf_state l)) \<Longrightarrow> life_step ByHandler l (enter s l)"
| failed: "\<not> pc_paused (lf_pause l) \<Longrightarrow> may_fail (lf_state l) \<Longrightarrow>
     life_step ByHandler l (l\<lparr>lf_state := Restarting\<rparr>)"
| returned: "\<not> pc_paused (lf_pause l) \<Longrightarrow> lf_state l = WaitingForIB \<Longrightarrow> lf_return l = Some s \<Longrightarrow>
     life_step ByHandler l (enter s (l\<lparr>lf_return := None\<rparr>))"
| began: "\<not> pc_paused (lf_pause l) \<Longrightarrow> lf_state l = WaitingForIB \<Longrightarrow> lf_return l = None \<Longrightarrow>
     life_step ByHandler l (enter Init l)"
| outage: "lf_state l \<notin> {WaitingForIB, Shutdown, WaitingForLaunch} \<Longrightarrow>
     life_step ByOutage l (l\<lparr>lf_state := WaitingForIB, lf_return := Some (lf_state l)\<rparr>)"
| gave_up: "active_recovery (lf_state l) \<Longrightarrow> life_step ByGiveUp l (l\<lparr>lf_state := WaitingForLaunch\<rparr>)"
| interrupted: "life_step (ByInterrupt i) l (life_interrupt i l)"

text \<open>
  The well-formed configurations: an error is never a state the machine rests in nor the
  ceiling, and the state to return to is one an outage can interrupt.
\<close>

definition life_ok :: "life \<Rightarrow> bool" where
  "life_ok l \<longleftrightarrow> (\<forall>m. lf_state l \<noteq> ErrorState m)
     \<and> (\<forall>s. lf_return l = Some s \<longrightarrow> s \<notin> {WaitingForIB, Shutdown, WaitingForLaunch} \<and> (\<forall>m. s \<noteq> ErrorState m))
     \<and> (\<forall>m. pc_ceiling (lf_pause l) \<noteq> Some (ErrorState m))"

lemma successors_no_error: "ErrorState m \<notin> set (successors s)"
  by (cases s) simp_all

lemma life_command_ok: "life_ok l \<Longrightarrow> life_ok (life_command c l)"
  using from_name_no_error by (cases c) (auto simp: life_ok_def split: option.splits)

lemma life_interrupt_ok: "life_ok l \<Longrightarrow> life_ok (life_interrupt i l)"
  by (cases "(i, l)" rule: life_interrupt.cases) (simp_all add: life_command_ok, auto simp: life_ok_def)

lemma life_step_ok: "life_step c l l' \<Longrightarrow> life_ok l \<Longrightarrow> life_ok l'"
proof (induction rule: life_step.induct)
  case (completed l s)
  then show ?case using successors_no_error by (auto simp: life_ok_def enter_def)
next
  case (interrupted i l)
  then show ?case by (rule life_interrupt_ok)
qed (auto simp: life_ok_def enter_def)


section \<open>The controller as a lifecycle\<close>

definition life_of :: "state_machine \<Rightarrow> life" where
  "life_of sm = \<lparr>lf_state = sm_st sm, lf_return = ib_return_state (sm_ib sm), lf_pause = sm_pause sm\<rparr>"

text \<open>The outcome of a handler as the graph sees it: a successor, a failure or the same state.\<close>

definition graph_result :: "sm_state \<Rightarrow> sm_error + sm_state \<Rightarrow> bool" where
  "graph_result s r \<longleftrightarrow>
     (case r of Inl e \<Rightarrow> True
      | Inr t \<Rightarrow> t = s \<or> t \<in> set (successors s) \<or> (may_fail s \<and> (\<exists>m. t = ErrorState m)))"

lemmas graph_simps = graph_result_def may_fail_def goto_state_def Let_def

lemma graph_goto:
  "graph_result s (Inl e)"
  "graph_result s (Inr t) \<longleftrightarrow> t = s \<or> t \<in> set (successors s) \<or> (may_fail s \<and> (\<exists>m. t = ErrorState m))"
  by (simp_all add: graph_result_def)

lemma blocking_cases: "check_blocking_dialog ws = Some s \<Longrightarrow> s = ReconnectingSession \<or> s = WaitingFor2fa"
  using check_blocking_cases [of ws] by auto

lemma graph_launch:
  "graph_result WaitingForLaunch (snd (do_waiting_for_launch sm))"
  "graph_result Init (snd (do_init wd sm))"
  "graph_result Launching (snd (do_launch wd sm))"
  "graph_result WaitingForAgent (snd (do_wait_for_agent wd sm))"
  by (simp_all add: do_waiting_for_launch_def do_init_def do_launch_def do_wait_for_agent_def graph_simps)

lemma graph_login: "graph_result WaitingForLogin (snd (do_wait_for_login wd sm))"
proof -
  have cache: "login_by_cache ob = Some s \<Longrightarrow> s \<in> set (successors WaitingForLogin)" for ob s
    by (auto simp: login_by_cache_def split: option.splits if_splits)
  have http: "login_by_http wd k = Some s \<Longrightarrow> s \<in> set (successors WaitingForLogin)" for k s
    by (auto simp: login_by_http_def split: option.splits if_splits dest: blocking_cases)
  have "graph_result WaitingForLogin (snd (cold_login wd k s))" for k s
    using cache [of "sm_observation s"] http [of k]
    by (auto simp: cold_login_def graph_simps simp del: successors.simps split: option.split)
  then show ?thesis by (simp add: do_wait_for_login_def) (simp add: graph_simps)
qed

lemma graph_authenticate: "graph_result Authenticating (snd (do_authenticate wd sm))"
  by (auto simp: do_authenticate_def submit_login_def graph_simps
      split: prod.splits sum.splits bool.splits option.splits dispatch_result.splits dest: blocking_cases)

lemma graph_2fa: "graph_result WaitingFor2fa (snd (do_wait_for_2fa wd sm))"
proof -
  have w: "twofa_windows wd ws s = (s', Some t) \<Longrightarrow> t = WaitingFor2fa \<or> t \<in> set (successors WaitingFor2fa)" for ws s s' t
    by (auto simp: twofa_windows_def twofa_visible_def twofa_submit_def twofa_gone_def Let_def
        split: option.splits if_splits)
  have t: "graph_result WaitingFor2fa (snd (twofa_timeout wd s))" for s
    by (simp add: twofa_timeout_def timeout_successor_def graph_simps split: twofa_on_timeout.split)
  show ?thesis
    by (auto simp: do_wait_for_2fa_def t graph_goto may_fail_def Let_def
        split: prod.splits sum.splits bool.splits option.splits dest: w)
qed

lemma graph_popups:
  "graph_result HandlingSessionConflict (snd (do_handle_session_conflict wd sm))"
  "graph_result DismissingPopups (snd (do_dismiss_popups wd sm))"
  "graph_result WaitingForApiReady (snd (do_wait_for_api_ready wd sm))"
  "graph_result ConfiguringApi (snd (do_configure_api wd sm))"
proof -
  have "popups_blocked wd sm = Some (s, t) \<Longrightarrow> t \<in> set (successors DismissingPopups)" for s t
    by (auto simp: popups_blocked_def Let_def split: option.splits if_splits dest: blocking_cases)
  then show "graph_result DismissingPopups (snd (do_dismiss_popups wd sm))"
    by (auto simp: do_dismiss_popups_def graph_simps split: option.splits)
  show "graph_result HandlingSessionConflict (snd (do_handle_session_conflict wd sm))"
    by (simp add: do_handle_session_conflict_def graph_simps split: option.split)
  show "graph_result WaitingForApiReady (snd (do_wait_for_api_ready wd sm))"
    by (auto simp: do_wait_for_api_ready_def graph_simps split: option.splits api_scan.splits dest: blocking_cases)
  show "graph_result ConfiguringApi (snd (do_configure_api wd sm))"
    by (auto simp: do_configure_api_def graph_simps split: option.splits dest: blocking_cases)
qed


lemma graph_revoked_or:
  assumes "\<And>sm s. r = (sm, Some s) \<Longrightarrow> graph_result st (Inr s)" and "\<And>sm. graph_result st (snd (k sm))"
  shows "graph_result st (snd (revoked_or r k))"
  using assms by (cases r) (auto simp: revoked_or_def split: option.split)

lemma graph_connected: "graph_result Connected (snd (do_connected wd sm))"
proof -
  have src: "graph_result Connected (Inr (next_state x))" for x by (cases x) (simp_all add: graph_goto)
  have bus: "bus wd b x s = (s', Some t) \<Longrightarrow> graph_result Connected (Inr t)" for b x s s' t
    by (auto simp: bus_def src split: if_splits prod.splits)
  have port: "bus_port wd s = (s', Some t) \<Longrightarrow> graph_result Connected (Inr t)" for s s' t
    by (auto simp: bus_port_def src split: if_splits prod.splits option.splits)
  have probe: "graph_result Connected (snd (connected_probe wd ws s))" for ws s
    unfolding connected_probe_def Let_def
    by (simp add: graph_goto) (intro conjI impI graph_revoked_or; (erule bus)?; simp add: graph_goto)
  show ?thesis
    unfolding do_connected_def Let_def
    by (simp add: jvm_exited_def graph_goto Let_def)
       (intro impI graph_revoked_or; ((erule bus | erule port)?); simp add: probe)
qed


lemma graph_reconnecting: "graph_result ReconnectingSession (snd (do_reconnecting_session wd sm))"
  by (auto simp: do_reconnecting_session_def relogin_exhausted_def relogin_gone_def graph_goto Let_def
      split: option.splits relogin_failure_action.splits)

lemma graph_restart: "graph_result Restarting (snd (do_restart wd sm))"
  by (simp add: do_restart_def restart_jvm_def graph_goto Let_def)

lemma graph_hitl: "graph_result WaitingForHitl2fa (snd (do_waiting_for_hitl_2fa wd rx sm))"
proof -
  have checks: "hitl_login_check s = (s', Some t) \<Longrightarrow> graph_result WaitingForHitl2fa (Inr t)"
    "hitl_connected_check wd s = (s', Some t) \<Longrightarrow> graph_result WaitingForHitl2fa (Inr t)"
    "hitl_deadline_check wd s = (s', Some t) \<Longrightarrow> graph_result WaitingForHitl2fa (Inr t)" for s s' t
    by (auto simp: hitl_login_check_def hitl_connected_check_def hitl_deadline_check_def graph_goto Let_def
        split: option.splits if_splits)
  show ?thesis
    unfolding do_waiting_for_hitl_2fa_def Let_def
    by (simp add: graph_goto) (intro impI graph_revoked_or; ((erule checks)?); simp add: graph_goto)
qed

lemma transition_graph:
  assumes "s \<noteq> WaitingForIB"
  shows "graph_result s (snd (transition wd rx s sm))"
  using assms
  by (cases s) (simp_all add: graph_launch graph_login graph_authenticate graph_2fa graph_popups graph_connected
      graph_reconnecting graph_restart graph_hitl graph_goto)

section \<open>The state to return to\<close>

text \<open>Only the wait for IB itself touches what the controller knows about IB.\<close>

lemma ib_basic [simp]:
  "sm_ib (emit e sm) = sm_ib sm" "sm_ib (abort_client_id_task sm) = sm_ib sm" "sm_ib (stop_socat sm) = sm_ib sm"
  "sm_ib (start_socat b p q sm) = sm_ib sm" "sm_ib (sm_record w s t sm) = sm_ib sm"
  by (simp_all add: emit_def abort_client_id_task_def stop_socat_def start_socat_def sm_record_def Let_def)

lemma ib_fold: "(\<And>w s. sm_ib (f w s) = sm_ib s) \<Longrightarrow> sm_ib (fold f ws sm) = sm_ib sm"
  by (induction ws arbitrary: sm) auto

lemma ib_passes [simp]:
  "sm_ib (popup_pass wd ws sm) = sm_ib sm" "sm_ib (dispatch_all ws sm) = sm_ib sm"
  "sm_ib (dismiss_menus l sm) = sm_ib sm"
  unfolding popup_pass_def dispatch_all_def dismiss_menus_def
  by (simp_all add: ib_fold Let_def split: option.split)

lemma ib_login:
  "sm_ib (fst (do_wait_for_login wd sm)) = sm_ib sm"
  "sm_ib (fst (submit_login wd w sm)) = sm_ib sm"
  "sm_ib (fst (wait_for_observed_twofa_retry wd sm)) = sm_ib sm"
  "retry_deadline_passed wd sm = Some sm2 \<Longrightarrow> sm_ib sm2 = sm_ib sm"
  by (auto simp: do_wait_for_login_def cold_login_def submit_login_def wait_for_observed_twofa_retry_def
      retry_deadline_passed_def Let_def split: option.splits dispatch_result.splits if_splits)


lemma ib_authenticate: "sm_ib (fst (do_authenticate wd sm)) = sm_ib sm"
  using ib_login(3) [of wd sm]
  by (cases "wait_for_observed_twofa_retry wd sm")
     (auto simp: do_authenticate_def ib_login(2) split: sum.split bool.split option.split dest: ib_login(4))

lemma ib_code: "sm_ib (fst (twofa_submit wd w sm)) = sm_ib sm"
  by (simp add: twofa_submit_def)

lemma ib_twofa_windows: "sm_ib (fst (twofa_windows wd ws sm)) = sm_ib sm"
  by (simp add: twofa_windows_def twofa_visible_def twofa_gone_def ib_code Let_def split: option.split)

lemma ib_timeout: "sm_ib (fst (twofa_timeout wd sm)) = sm_ib sm"
  by (simp add: twofa_timeout_def Let_def)

lemma ib_2fa: "sm_ib (fst (do_wait_for_2fa wd sm)) = sm_ib sm"
proof -
  have tail: "sm_ib (fst (case twofa_windows wd ws s of (s3, Some x) \<Rightarrow> goto_state x s3
      | (s3, None) \<Rightarrow> twofa_timeout wd s3)) = sm_ib s" for ws s
    using ib_twofa_windows [of wd ws s] by (cases "twofa_windows wd ws s") (simp add: ib_timeout split: option.split)
  show ?thesis
    using ib_login(3) [of wd sm]
    by (cases "wait_for_observed_twofa_retry wd sm")
       (auto simp: do_wait_for_2fa_def tail ib_timeout Let_def split: sum.split bool.split option.split dest: ib_login(4))
qed

lemma ib_popups:
  "sm_ib (fst (do_handle_session_conflict wd sm)) = sm_ib sm"
  "sm_ib (fst (do_dismiss_popups wd sm)) = sm_ib sm"
  "sm_ib (fst (do_wait_for_api_ready wd sm)) = sm_ib sm"
  "sm_ib (fst (do_configure_api wd sm)) = sm_ib sm"
proof -
  show "sm_ib (fst (do_handle_session_conflict wd sm)) = sm_ib sm"
    by (simp add: do_handle_session_conflict_def split: option.split)
  have "popups_blocked wd sm = Some (s, t) \<Longrightarrow> sm_ib s = sm_ib sm" for s t
    by (auto simp: popups_blocked_def Let_def split: option.splits if_splits)
  then show "sm_ib (fst (do_dismiss_popups wd sm)) = sm_ib sm"
    by (cases "popups_blocked wd sm") (auto simp: do_dismiss_popups_def Let_def)
  show "sm_ib (fst (do_wait_for_api_ready wd sm)) = sm_ib sm"
    by (simp add: do_wait_for_api_ready_def Let_def split: option.split api_scan.split)
  show "sm_ib (fst (do_configure_api wd sm)) = sm_ib sm"
    by (simp add: do_configure_api_def Let_def split: option.split prod.split)
qed

lemma ib_session:
  "sm_ib (fst (relogin_exhausted wd sm)) = sm_ib sm"
  "sm_ib (fst (do_reconnecting_session wd sm)) = sm_ib sm"
  "sm_ib (fst (do_restart wd sm)) = sm_ib sm"
  "sm_ib (hitl_enter wd sm) = sm_ib sm"
  "sm_ib (fst (hitl_login_check sm)) = sm_ib sm"
  by (auto simp: relogin_exhausted_def do_reconnecting_session_def relogin_gone_def do_restart_def restart_jvm_def
      hitl_enter_def hitl_login_check_def ib_fold Let_def split: option.split relogin_failure_action.split)

lemma ib_revoked_or:
  assumes "sm_ib (fst r) = sm_ib sm" and "\<And>s. sm_ib s = sm_ib sm \<Longrightarrow> sm_ib (fst (k s)) = sm_ib sm"
  shows "sm_ib (fst (revoked_or r k)) = sm_ib sm"
  using assms by (cases r) (auto simp: revoked_or_def split: option.split)

lemma ib_checks:
  "sm_ib (fst (bus wd b src sm)) = sm_ib sm" "sm_ib (fst (bus_port wd sm)) = sm_ib sm"
  "sm_ib (ensure_socat wd b sm) = sm_ib sm" "sm_ib (record_window_class wd sm) = sm_ib sm"
  "sm_ib (adopt_window_class sm) = sm_ib sm" "sm_ib (connected_upkeep wd sm) = sm_ib sm"
  "sm_ib (fst (hitl_connected_check wd sm)) = sm_ib sm" "sm_ib (fst (hitl_deadline_check wd sm)) = sm_ib sm"
  by (auto simp: bus_def bus_port_def ensure_socat_def record_window_class_def adopt_window_class_def
      connected_upkeep_def hitl_connected_check_def hitl_deadline_check_def Let_def
      split: prod.split option.split bool.split)

lemma ib_probe: "sm_ib (fst (connected_probe wd ws sm)) = sm_ib sm"
  unfolding connected_probe_def Let_def
  by (simp add: ib_checks) (intro conjI impI ib_revoked_or; simp add: ib_checks)

lemma ib_connected: "sm_ib (fst (do_connected wd sm)) = sm_ib sm"
  unfolding do_connected_def Let_def
  by (simp add: jvm_exited_def ib_checks Let_def) (intro impI ib_revoked_or; simp add: ib_checks ib_probe)

lemma ib_hitl: "sm_ib (fst (do_waiting_for_hitl_2fa wd rx sm)) = sm_ib sm"
  unfolding do_waiting_for_hitl_2fa_def Let_def
  by (simp add: ib_session) (intro impI ib_revoked_or; simp add: ib_session ib_checks)

lemma transition_ib: "s \<noteq> WaitingForIB \<Longrightarrow> sm_ib (fst (transition wd rx s sm)) = sm_ib sm"
  by (cases s) (simp_all add: do_waiting_for_launch_def do_init_def do_launch_def do_wait_for_agent_def ib_login
      ib_authenticate ib_2fa ib_popups ib_session ib_connected ib_hitl Let_def)


lemma ib_cut_passes:
  "sm' \<in> set (popup_pass_cuts wd ws sm) \<Longrightarrow> sm_ib sm' = sm_ib sm"
  "sm' \<in> set (dispatch_cuts ws sm) \<Longrightarrow> sm_ib sm' = sm_ib sm"
  "sm' \<in> set (click_cuts l ws sm) \<Longrightarrow> sm_ib sm' = sm_ib sm"
  by (induction ws arbitrary: sm) (auto simp: Let_def)

lemma ib_connected_cuts: "sm' \<in> set (connected_cuts wd sm) \<Longrightarrow> sm_ib sm' = sm_ib sm"
proof -
  have u: "unrevoked r = Some x \<Longrightarrow> sm_ib (fst r) = sm_ib y \<Longrightarrow> sm_ib x = sm_ib y" for r x y
    by (auto simp: unrevoked_def split: prod.splits option.splits)
  have c: "connected_checks wd sm = Some x \<Longrightarrow> sm_ib x = sm_ib sm" for x
    by (auto simp: connected_checks_def Let_def bind_eq_Some_conv ib_checks split: if_splits dest!: u)
  show "sm' \<in> set (connected_cuts wd sm) \<Longrightarrow> sm_ib sm' = sm_ib sm"
    by (cases "connected_checks wd sm")
       (auto simp: connected_cuts_def Let_def ib_checks split: if_splits dest!: c ib_cut_passes(2))
qed

lemma ib_login_cuts:
  assumes "sm' \<in> set (handler_cuts wd s sm)" and "s \<in> {Authenticating, WaitingFor2fa}"
  shows "sm_ib sm' = sm_ib sm"
proof -
  obtain sm1 r where w: "wait_for_observed_twofa_retry wd sm = (sm1, r)" by (cases "wait_for_observed_twofa_retry wd sm")
  then have p: "sm_ib sm1 = sm_ib sm" using ib_login(3) [of wd sm] by simp
  have code: "x \<in> set (code_cuts wd win y) \<Longrightarrow> sm_ib x = sm_ib y" for x win y
    by (auto simp: code_cuts_def ib_code split: if_splits)
  have submit: "x \<in> set (submit_cuts wd win y) \<Longrightarrow> sm_ib x = sm_ib y" for x win y
    by (auto simp: submit_cuts_def ib_login(2) split: option.splits dispatch_result.splits)
  have challenge: "x \<in> set (challenge_cuts wd win y) \<Longrightarrow> sm_ib x = sm_ib y" for x win y
    by (auto simp: challenge_cuts_def Let_def split: if_splits dest: code)
  have windows: "x \<in> set (twofa_window_cuts wd ws y) \<Longrightarrow> sm_ib x = sm_ib y" for x ws y
    by (auto simp: twofa_window_cuts_def Let_def split: if_splits option.splits dest: challenge)
  show ?thesis
    using assms w p
    by (auto simp: authenticate_cuts_def twofa_cuts_def retry_cuts_def split: if_splits sum.splits bool.splits option.splits
        dest!: submit windows ib_login(4) [OF sym])
qed

lemma ib_handler_cuts:
  assumes "sm' \<in> set (handler_cuts wd s sm)"
  shows "sm_ib sm' = sm_ib sm"
proof (cases s)
  case WaitingForHitl2fa
  obtain sm1 r where h: "hitl_login_check (hitl_enter wd sm) = (sm1, r)" by (cases "hitl_login_check (hitl_enter wd sm)")
  then have "sm_ib sm1 = sm_ib sm" using ib_session(4) [of wd sm] ib_session(5) [of "hitl_enter wd sm"] by simp
  with assms WaitingForHitl2fa h show ?thesis by (cases r) (auto simp: hitl_cuts_def Let_def split: if_splits)
next
  case Restarting
  with assms show ?thesis by (auto simp: restart_cuts_def jvm_cuts_def Let_def split: if_splits)
next
  case ReconnectingSession
  with assms show ?thesis
    by (auto simp: reconnect_cuts_def ib_session(1) Let_def split: option.splits if_splits dest: ib_cut_passes(3))
next
  case ConfiguringApi
  with assms show ?thesis by (auto simp: configure_cuts_def Let_def split: option.splits if_splits)
next
  case WaitingForLogin
  with assms show ?thesis by (auto simp: login_form_cuts_def split: if_splits)
next
  case HandlingSessionConflict
  with assms show ?thesis by (auto simp: conflict_cuts_def ib_popups(1) split: if_splits)
next
  case DismissingPopups
  with assms show ?thesis by (auto simp: popup_cuts_def split: if_splits dest: ib_cut_passes(1))
qed (use assms ib_connected_cuts ib_login_cuts [OF assms] in auto)

lemma cut_life:
  assumes "sm' \<in> set (cuts_of wd sm)" and "life_ok (life_of sm)"
  shows "life_of sm' = life_of sm"
proof -
  have "ib_return_state (sm_ib sm) \<noteq> Some WaitingForIB" using assms(2) by (auto simp: life_ok_def life_of_def)
  then have ib: "sm_ib (fst (do_waiting_for_ib wd sm)) = sm_ib sm" if "snd (do_waiting_for_ib wd sm) = Inr WaitingForIB"
    using that by (auto simp: do_waiting_for_ib_def split: if_splits option.splits)
  have "sm_ib x = sm_ib sm" if "x \<in> set (stay_cuts wd sm)" for x
    using that ib transition_ib [of "sm_st sm" wd None sm]
    by (cases "sm_st sm = WaitingForIB"; cases "transition wd None (sm_st sm) sm")
       (auto simp: stay_cuts_def split: sum.splits if_splits)
  then have "sm_ib sm' = sm_ib sm"
    using assms(1) ib_handler_cuts by (auto simp: cuts_of_def split: if_splits)
  then show ?thesis using cut_loop_part [OF assms(1)] by (simp add: life_of_def loop_part_def)
qed


section \<open>The loop implements the lifecycle\<close>

lemma life_basic [simp]:
  "life_of (emit e sm) = life_of sm" "life_of (sm_record w s t sm) = life_of sm"
  "life_of (abort_client_id_task sm) = life_of sm" "life_of (stop_socat sm) = life_of sm"
  "life_of (start_socat b p q sm) = life_of sm" "life_of (halt_jvm running sm) = life_of sm"
  by (simp_all add: life_of_def emit_def sm_record_def abort_client_id_task_def stop_socat_def start_socat_def
      halt_jvm_def Let_def)

lemma life_fields [simp]: "lf_state (life_of sm) = sm_st sm" "lf_pause (life_of sm) = sm_pause sm"
  by (simp_all add: life_of_def)

lemma life_async [simp]: "life_of (fold async_step evs sm) = life_of sm"
proof -
  have "life_of (async_step e x) = life_of x" for e x
    by (cases e) (auto simp: life_of_def split: option.splits prod.splits bool.splits)
  then show ?thesis by (induction evs arbitrary: sm) simp_all
qed

lemma life_events [simp]: "life_of (drain_events now evs sm) = life_of sm" "life_of (handle_agent_event now e sm) = life_of sm"
proof -
  have e: "life_of (handle_agent_event now e x) = life_of x" for e x
    by (cases e) (auto simp: handle_error_dialog_def handle_connection_status_def life_of_def emit_def Let_def)
  then show "life_of (handle_agent_event now e sm) = life_of sm" .
  show "life_of (drain_events now evs sm) = life_of sm"
    unfolding drain_events_def by (induction evs arbitrary: sm) (simp_all add: e)
qed

lemma life_dwell: "life_of (drain_dwell c q sm) = life_of sm"
  by (induction c q sm rule: drain_dwell.induct) (auto simp: life_of_def split: prod.splits)

lemma outage_path:
  "\<exists>ls. steps life_step ls (life_of sm) (life_of (check_ib_system_availability wall (check_ib_status_ttl now sm)))
     \<and> set ls \<subseteq> {ByOutage}"
proof -
  let ?sm = "check_ib_status_ttl now sm"
  have t: "life_of ?sm = life_of sm" by (simp add: check_ib_status_ttl_def life_of_def split: option.split)
  have "life_of (check_ib_system_availability wall ?sm) = life_of ?sm
      \<or> life_step ByOutage (life_of ?sm) (life_of (check_ib_system_availability wall ?sm))"
    using life_step.outage [of "life_of ?sm"]
    by (auto simp: check_ib_system_availability_def life_of_def sm_record_def)
  then show ?thesis unfolding t by (rule steps_maybe)
qed

lemma recovery_path:
  assumes "tick_recovery pr now wall running sm = Inr sm1"
  shows "\<exists>ls. steps life_step ls (life_of sm) (life_of sm1) \<and> set ls \<subseteq> {ByGiveUp}"
proof -
  define sm2 where "sm2 = drain_dwell (pr_codec pr)
    (sm_dwell_queue (if sm_st sm \<noteq> Connected \<and> sm_dwell_guard sm \<noteq> None then sm\<lparr>sm_dwell_guard := None\<rparr> else sm))
    (if sm_st sm \<noteq> Connected \<and> sm_dwell_guard sm \<noteq> None then sm\<lparr>sm_dwell_guard := None\<rparr> else sm)"
  have l: "life_of sm2 = life_of sm" by (simp add: sm2_def life_dwell) (simp add: life_of_def)
  let ?ticked = "\<lambda>co d. sm2\<lparr>sm_pending_token := None, sm_recovery := co, sm_disk := d\<rparr>"
  have tick: "tick_recovery pr now wall running sm =
      (if \<not> active_recovery (sm_st sm2) then Inr sm2
       else case coordinator_tick (pr_codec pr) (pr_sip pr) wall now False 0 (sm_pending_token sm2)
              (sm_recovery sm2) (sm_disk sm2) of
            Inl p \<Rightarrow> Inl p
          | Inr (co, d, sigs, r) \<Rightarrow>
              Inr (case r of Inr a \<Rightarrow> applied_effect wall running a (?ticked co d) | Inl e \<Rightarrow> ?ticked co d))"
    unfolding tick_recovery_def sm2_def Let_def by (rule refl)
  have "life_of sm1 = life_of sm \<or> (active_recovery (sm_st sm) \<and> life_of sm1 = (life_of sm)\<lparr>lf_state := WaitingForLaunch\<rparr>)"
  proof (cases "active_recovery (sm_st sm2)")
    case False
    then show ?thesis using assms l by (simp add: tick)
  next
    case True
    then have st: "sm_st sm \<notin> {WaitingForLaunch, Shutdown}" "\<forall>m. sm_st sm \<noteq> ErrorState m" "sm_st sm2 = sm_st sm"
      using arg_cong [OF l, of lf_state] by (auto simp: active_recovery_def)
    have "life_of (case r of Inr a \<Rightarrow> applied_effect wall running a (?ticked co d) | Inl e \<Rightarrow> ?ticked co d)
        \<in> {life_of sm, (life_of sm)\<lparr>lf_state := WaitingForLaunch\<rparr>}" for co d and r :: "apply_error + applied_action"
      using l st
      by (auto simp: applied_effect_def giveup_halt_def life_of_def halt_jvm_def sm_record_def emit_def stop_socat_def
          abort_client_id_task_def Let_def split: sum.split applied_action.split sm_state.split)
    then show ?thesis
      using assms True st(3)
      by (cases "coordinator_tick (pr_codec pr) (pr_sip pr) wall now False 0 (sm_pending_token sm2) (sm_recovery sm2) (sm_disk sm2)")
         (auto simp: tick)
  qed
  then show ?thesis
    using life_step.gave_up [of "life_of sm"] by (intro steps_maybe) auto
qed


lemma pre_path:
  assumes "pre_transition pr wd (fold async_step evs sm) = Inr sm1"
  shows "\<exists>ls. steps life_step ls (life_of sm) (life_of sm1) \<and> set ls \<subseteq> {ByOutage, ByGiveUp}"
proof -
  let ?sm = "check_ib_system_availability (wd_wall wd) (check_ib_status_ttl (wd_now wd) (fold async_step evs sm))"
  obtain ls where ls: "steps life_step ls (life_of sm) (life_of ?sm)" "set ls \<subseteq> {ByOutage}"
    using outage_path [of "fold async_step evs sm" "wd_wall wd" "wd_now wd"] by auto
  have "tick_recovery pr (wd_now wd) (wd_wall wd) (wd_running wd) ?sm = Inr sm1"
    using assms by (simp add: pre_transition_def)
  from recovery_path [OF this] obtain ms
    where ms: "steps life_step ms (life_of ?sm) (life_of sm1)" "set ms \<subseteq> {ByGiveUp}" by blast
  show ?thesis using steps_append [OF ls(1) ms(1)] ls(2) ms(2) by (intro exI [of _ "ls @ ms"]) auto
qed

lemma interrupt_life: "life_of (handle_interrupt wd i sm) = life_interrupt i (life_of sm)"
proof (cases i)
  case (IntSignal sg)
  then show ?thesis by (cases sg) (simp_all add: handle_interrupt_def life_of_def abort_client_id_task_def)
next
  case (IntColdRestart c)
  then show ?thesis
    by (cases c) (simp_all add: handle_interrupt_def life_of_def abort_client_id_task_def skip_record_def)
next
  case (IntAgentEvent e)
  then show ?thesis by (simp add: handle_interrupt_def)
next
  case (IntCommand c)
  have fold: "life_of (fold f ws x) = life_of x" if "\<And>w y. life_of (f w y) = life_of y" for f ws x
    using that by (induction ws arbitrary: x) simp_all
  have post: "life_of (dismiss_post_save_dialogs wd x) = life_of x" for x
    unfolding dismiss_post_save_dialogs_def by (cases "wd_windows wd 1") (simp_all add: fold Let_def)
  have save: "life_of (save_tws_settings wd x) = life_of x" for x
    by (simp add: save_tws_settings_def post Let_def split: option.split)
  have key: "life_of (send_key_first wd k x) = life_of x" for k x
    by (simp add: send_key_first_def split: option.split list.split)
  have "life_of (dispatch_command wd c sm) = life_command c (life_of sm)"
    by (cases c) (simp_all add: dispatch_command_def handle_command_def save key,
        auto simp: life_of_def sm_record_def halt_jvm_def stop_socat_def abort_client_id_task_def emit_def Let_def
          split: option.split)
  with IntCommand show ?thesis by (simp add: handle_interrupt_def)
qed

text \<open>A failure is stored as a restart.\<close>

definition entered :: "sm_state \<Rightarrow> life \<Rightarrow> life" where
  "entered t l = (case t of ErrorState m \<Rightarrow> (enter t l)\<lparr>lf_state := Restarting\<rparr> | _ \<Rightarrow> enter t l)"

lemma life_stages [simp]:
  "life_of (at_twofa_answered n sm) = life_of sm" "life_of (at_dwell now n sm) = life_of sm"
  "life_of (at_connection pr now wall n sm) = life_of sm" "life_of (at_leave_hitl n sm) = life_of sm"
  "life_of (at_entry now n sm) = life_of sm" "life_of (do_shutdown running sm) = life_of sm"
  "life_of (sm\<lparr>sm_state_entered_at := t, sm_agent_failures := k\<rparr>) = life_of sm"
  by (simp_all add: step_defs life_of_def)

lemma life_ceiling: "life_of (at_ceiling s sm) =
    (life_of sm)\<lparr>lf_pause := if pc_ceiling (sm_pause sm) = Some s then \<lparr>pc_paused = True, pc_ceiling = None\<rparr> else sm_pause sm\<rparr>"
  by (simp add: at_ceiling_def life_of_def)

lemma life_st [simp]: "life_of (sm\<lparr>sm_st := s\<rparr>) = (life_of sm)\<lparr>lf_state := s\<rparr>"
  by (simp add: life_of_def)

lemma apply_life:
  "life_of (apply_transition pr now wall running next sm) = entered next (life_of sm)"
  by (cases "next") (simp_all add: apply_transition_def life_ceiling enter_def entered_def Let_def)


text \<open>What the loop makes of a successor, seen as a lifecycle.\<close>

lemma settled_life:
  assumes "life_of sm3 = life_of sm2"
  shows "life_of (if t \<noteq> sm_st sm3 then apply_transition pr now wall running t sm3 else sm3) =
    (if t = sm_st sm2 then life_of sm2 else entered t (life_of sm2))"
proof -
  have "sm_st sm3 = sm_st sm2" using arg_cong [OF assms, of lf_state] by simp
  then show ?thesis by (cases "t = sm_st sm2") (simp_all add: apply_life assms)
qed

lemma graph_step:
  assumes "life_ok (life_of sm)" and "\<not> pc_paused (sm_pause sm)" and "sm_st sm \<noteq> WaitingForIB"
    and "transition wd None (sm_st sm) sm = (sm2, Inr t)" and "life_of sm3 = life_of sm2"
    and "sm4 = (if t \<noteq> sm_st sm3 then apply_transition pr now wall running t sm3 else sm3)"
  shows "life_of sm4 = life_of sm \<or> life_step ByHandler (life_of sm) (life_of sm4)"
proof -
  have l2: "life_of sm2 = life_of sm"
    using transition_ib [OF assms(3), of wd None sm] transition_loop_part [of wd None "sm_st sm" sm] assms(4)
    by (simp add: life_of_def loop_part_def)
  have st: "sm_st sm2 = sm_st sm" using arg_cong [OF l2, of lf_state] by simp
  have l4: "life_of sm4 = (if t = sm_st sm then life_of sm else entered t (life_of sm))"
    using settled_life [OF assms(5), of t pr now wall running] by (simp add: assms(6) l2 st)
  have "graph_result (sm_st sm) (Inr t)" using transition_graph [OF assms(3), of wd None sm] assms(4) by simp
  then consider "t = sm_st sm" | "t \<in> set (successors (sm_st sm))" | m where "may_fail (sm_st sm)" "t = ErrorState m"
    by (auto simp: graph_goto)
  then show ?thesis
  proof cases
    case 2
    have "t \<noteq> ErrorState m" for m using 2 successors_no_error by auto
    then have "life_of sm4 = life_of sm \<or> life_of sm4 = enter t (life_of sm)" by (cases t) (auto simp: l4 entered_def)
    then show ?thesis using life_step.completed [of "life_of sm" t] assms(2) 2 by auto
  next
    case 3
    have "pc_ceiling (sm_pause sm) \<noteq> Some (ErrorState m)" for m using assms(1) by (simp add: life_ok_def)
    then have "life_of sm4 = life_of sm \<or> life_of sm4 = (life_of sm)\<lparr>lf_state := Restarting\<rparr>"
      by (simp add: l4 3 entered_def enter_def)
    then show ?thesis using life_step.failed [of "life_of sm"] assms(2) 3(1) by auto
  qed (simp add: l4)
qed

lemma ib_step:
  assumes "life_ok (life_of sm)" and "\<not> pc_paused (sm_pause sm)" and "sm_st sm = WaitingForIB"
    and "do_waiting_for_ib wd sm = (sm2, Inr t)" and "life_of sm3 = life_of sm2"
    and "sm4 = (if t \<noteq> sm_st sm3 then apply_transition pr now wall running t sm3 else sm3)"
  shows "life_of sm4 = life_of sm \<or> life_step ByHandler (life_of sm) (life_of sm4)"
proof -
  have l4: "life_of sm4 = (if t = sm_st sm2 then life_of sm2 else entered t (life_of sm2))"
    using settled_life [OF assms(5)] by (simp add: assms(6))
  show ?thesis
  proof (cases "ib_available (sm_ib sm)")
    case False
    then show ?thesis using assms(3,4) l4 by (auto simp: do_waiting_for_ib_def goto_state_def)
  next
    case True
    show ?thesis
    proof (cases "ib_return_state (sm_ib sm)")
      case None
      then have "sm2 = sm" "t = Init" using assms(4) True by (auto simp: do_waiting_for_ib_def goto_state_def)
      then have "life_of sm4 = enter Init (life_of sm)" using l4 assms(3) by (simp add: entered_def)
      then show ?thesis using life_step.began [of "life_of sm"] assms(2,3) None by (simp add: life_of_def)
    next
      case (Some s)
      then have t: "sm2 = sm\<lparr>sm_ib := (sm_ib sm)\<lparr>ib_return_state := None\<rparr>\<rparr>" "t = s"
        using assms(4) True by (auto simp: do_waiting_for_ib_def goto_state_def)
      have "s \<noteq> WaitingForIB" "\<forall>m. s \<noteq> ErrorState m" using assms(1) Some by (auto simp: life_ok_def life_of_def)
      then have "life_of sm4 = enter s (life_of sm2)" using l4 assms(3) t by (cases s) (auto simp: entered_def)
      then have "life_of sm4 = enter s ((life_of sm)\<lparr>lf_return := None\<rparr>)" by (simp add: t life_of_def)
      then show ?thesis using life_step.returned [of "life_of sm" s] assms(2,3) Some by (simp add: life_of_def)
    qed
  qed
qed

lemma handler_path:
  assumes "life_ok (life_of sm)" and "run_handler wd sm = (sm2, r)" and "life_of sm3 = life_of sm2"
    and "finish_transition pr wd r sm3 = Continue sm4"
  shows "\<exists>ls. steps life_step ls (life_of sm) (life_of sm4) \<and> set ls \<subseteq> {ByHandler}"
proof -
  obtain t where r: "r = Inr t" using assms(4) by (cases r) (simp_all add: finish_transition_def)
  have sm4: "sm4 = (if t \<noteq> sm_st sm3 then apply_transition pr (wd_now wd) (wd_wall wd) (wd_running wd) t sm3 else sm3)"
    using assms(4) r by (simp add: finish_transition_def Let_def split: if_splits)
  have "life_of sm4 = life_of sm \<or> life_step ByHandler (life_of sm) (life_of sm4)"
  proof (cases "pc_paused (sm_pause sm)")
    case True
    then have "sm2 = sm" "t = sm_st sm" using assms(2) r by (auto simp: run_handler_def goto_state_def)
    then show ?thesis using settled_life [OF assms(3), of t] by (simp add: sm4)
  next
    case False
    then have "transition wd None (sm_st sm) sm = (sm2, Inr t)" using assms(2) r by (simp add: run_handler_def)
    with False show ?thesis
      using graph_step [OF assms(1) False _ _ assms(3) sm4] ib_step [OF assms(1) False _ _ assms(3) sm4]
      by (cases "sm_st sm = WaitingForIB") auto
  qed
  then show ?thesis by (rule steps_maybe)
qed


definition cut_step :: "params \<Rightarrow> iteration \<times> nat \<Rightarrow> state_machine \<Rightarrow> state_machine \<Rightarrow> bool" where
  "cut_step pr x sm sm' \<longleftrightarrow> loop_iteration_cut pr (fst x) (snd x) sm = Continue sm'"

definition may_cause :: "iteration \<times> nat \<Rightarrow> cause \<Rightarrow> bool" where
  "may_cause x c \<longleftrightarrow>
     (case c of ByInterrupt i \<Rightarrow> it_outcome (fst x) = Interrupted i | ByHandler \<Rightarrow> it_outcome (fst x) = Completed
      | _ \<Rightarrow> True)"

lemma run_loop_cut_steps: "run_loop_cut pr its sm = Continue sm' \<longleftrightarrow> steps (cut_step pr) its sm sm'"
proof (induction its arbitrary: sm)
  case Nil
  then show ?case by auto
next
  case (Cons x its)
  then show ?case
    by (cases x; cases "loop_iteration_cut pr (fst x) (snd x) sm") (simp_all add: cut_step_def)
qed

interpretation lifecycle: path_simulation "cut_step pr" life_step life_of life_ok may_cause for pr
proof unfold_locales
  fix a b c
  assume "life_ok a" "life_step c a b"
  then show "life_ok b" using life_step_ok by blast
next
  fix sm sm' x
  assume ok: "life_ok (life_of sm)" and step: "cut_step pr x sm sm'"
  obtain it k where x: "x = (it, k)" by (cases x)
  obtain sm1 where p: "pre_transition pr (it_pre it) (fold async_step (it_async it) sm) = Inr sm1"
    using step by (auto simp: x cut_step_def loop_iteration_cut_def split: sum.splits)
  obtain ls where ls: "steps life_step ls (life_of sm) (life_of sm1)" "set ls \<subseteq> {ByOutage, ByGiveUp}"
    using pre_path [OF p] by auto
  have ok1: "life_ok (life_of sm1)" using ls(1) ok by (induction rule: steps.induct) (auto intro: life_step_ok)
  have "\<exists>ms. steps life_step ms (life_of sm1) (life_of sm') \<and> (\<forall>m \<in> set ms. may_cause x m)"
  proof (cases "it_outcome it")
    case (Interrupted i)
    let ?cut = "drain_events (wd_now (it_post it)) (it_events it) (cut_at (it_post it) k sm1)"
    have "sm' = handle_interrupt (it_post it) i ?cut"
      using step p Interrupted by (auto simp: x cut_step_def loop_iteration_cut_def finish_interrupt_def Let_def split: if_splits)
    then have "life_of sm' = life_interrupt i (life_of sm1)"
      by (simp add: interrupt_life cut_life [OF cut_at_in ok1])
    then show ?thesis
      using life_step.interrupted [of i "life_of sm1"] Interrupted
      by (auto simp: may_cause_def x intro!: exI [of _ "[ByInterrupt i]"] steps_single)
  next
    case Completed
    obtain sm2 r where h: "run_handler (it_post it) sm1 = (sm2, r)" by (cases "run_handler (it_post it) sm1")
    have "finish_transition pr (it_post it) r (drain_events (wd_now (it_post it)) (it_events it) sm2) = Continue sm'"
      using step p Completed h by (simp add: x cut_step_def loop_iteration_cut_def)
    from handler_path [OF ok1 h _ this] show ?thesis using Completed by (force simp: may_cause_def x)
  qed
  then obtain ms where ms: "steps life_step ms (life_of sm1) (life_of sm')" "\<forall>m \<in> set ms. may_cause x m" by blast
  have "\<forall>l \<in> set (ls @ ms). may_cause x l" using ls(2) ms(2) by (auto simp: may_cause_def)
  with steps_append [OF ls(1) ms(1)] show "\<exists>ls. steps life_step ls (life_of sm) (life_of sm') \<and> (\<forall>l \<in> set ls. may_cause x l)"
    by blast
qed

text \<open>
  The main loop refines the lifecycle: every run of it, with handlers completing or
  cancelled at any \<open>await\<close>, is a path of the abstract machine. The state changes only along
  the graph of successors, by an outage of IB or its end (which returns to the very state that
  was interrupted), by the coordinator giving up, or by an interrupt that was taken in the run
  and has the effect it has on the abstract machine. The controller never rests in an error
  state.
\<close>

theorem loop_refines_lifecycle:
  assumes "run_loop_cut pr its sm = Continue sm'" and "life_ok (life_of sm)"
  shows "\<exists>cs. steps life_step cs (life_of sm) (life_of sm')
      \<and> (\<forall>i. ByInterrupt i \<in> set cs \<longrightarrow> (\<exists>(it, k) \<in> set its. it_outcome it = Interrupted i))
      \<and> life_ok (life_of sm')"
proof -
  have r: "steps (cut_step pr) its sm sm'" using assms(1) by (simp add: run_loop_cut_steps)
  obtain cs where cs: "steps life_step cs (life_of sm) (life_of sm')" "\<forall>c \<in> set cs. \<exists>x \<in> set its. may_cause x c"
    using lifecycle.run_simulates [OF r assms(2)] by blast
  have "\<exists>(it, k) \<in> set its. it_outcome it = Interrupted i" if "ByInterrupt i \<in> set cs" for i
    using cs(2) that by (force simp: may_cause_def)
  with cs(1) lifecycle.run_good [OF r assms(2)] show ?thesis by blast
qed

theorem loop_refines_lifecycle_witness:
  "\<exists>sm' cs. run_loop_cut pr_example [(it_example (Interrupted (IntCommand CmdRestart)), 2)] (sm_example WaitingForHitl2fa)
        = Continue sm'
      \<and> steps life_step cs (life_of (sm_example WaitingForHitl2fa)) (life_of sm') \<and> cs \<noteq> []
      \<and> sm_st sm' = Restarting"
proof -
  let ?i = "IntCommand CmdRestart"
  let ?it = "it_example (Interrupted ?i)" and ?sm = "sm_example WaitingForHitl2fa"
  let ?cut = "drain_events (wd_now (it_post ?it)) (it_events ?it) (cut_at (it_post ?it) 2 ?sm)"
  let ?sm' = "handle_interrupt (it_post ?it) ?i ?cut"
  have p: "pre_transition pr_example (it_pre ?it) (fold async_step (it_async ?it) ?sm) = Inr ?sm"
    by (simp add: pre_transition_def it_example_def check_ib_status_ttl_def check_ib_system_availability_def
        tick_recovery_def sm_example_def active_recovery_def Let_def)
  have it_outcome: "it_outcome ?it = Interrupted ?i" by (simp add: it_example_def)
  have ok: "life_ok (life_of ?sm)" by (simp add: life_ok_def life_of_def sm_example_def)
  have l: "life_of ?sm' = (life_of ?sm)\<lparr>lf_state := Restarting\<rparr>"
    by (simp add: interrupt_life cut_life [OF cut_at_in ok])
  have "lf_state (life_of ?sm') = Restarting" unfolding l by simp
  then have st: "sm_st ?sm' = Restarting" unfolding life_fields .
  have run: "run_loop_cut pr_example [(?it, 2)] ?sm = Continue ?sm'"
    using p st by (simp add: loop_iteration_cut_def finish_interrupt_def Let_def it_outcome)
  obtain cs where cs: "steps life_step cs (life_of ?sm) (life_of ?sm')"
    using loop_refines_lifecycle [OF run ok] by blast
  moreover have "cs \<noteq> []" using cs l by (cases cs) (auto simp: life_of_def sm_example_def)
  ultimately show ?thesis using run st by blast
qed

end
