(* ===== verification/Process_Runs.thy ===== *)
theory Process_Runs
  imports Wiring Lifecycle_Graph
begin

text \<open>
  The process from its command line to any point of its main loop: the loaded configuration
  is given to the controller (\<open>main.rs\<close>, \<open>StateMachine::new\<close>), which starts in one of two
  states and runs with handlers that complete or are cancelled. The lemmas show that every
  such run follows the lifecycle of \<open>Lifecycle_Graph\<close>, that a site configured not to launch
  stays down until the operator acts, and which of two components an override of the
  dwell time reaches.
\<close>

section \<open>The controller of a process\<close>

text \<open>What the controller reads of the configuration it owns.\<close>

definition controller_config :: "config \<Rightarrow> sm_config" where
  "controller_config c =
     (let tw = cg_twofa c
      in \<lparr>cf_tws_path = gw_tws_path (cg_gateway c), cf_auto_launch = si_auto_launch (cg_site c),
          cf_trading_mode = au_trading_mode (cg_auth c), cf_kick_active_session = cg_kick_active_session c,
          cf_twofa = \<lparr>tc_timeout_action = tw_timeout_action tw, tc_timeout_seconds = tw_timeout_seconds tw,
            tc_device = tw_device tw, tc_relogin_after_timeout = tw_relogin_after_timeout tw,
            tc_has_secret = tw_has_secret tw, tc_backoff = twofa_backoff_config.truncate (tw_backoff tw)\<rparr>,
          cf_gateway = gateway_config.truncate (cg_gateway c),
          cf_timing = (cg_timing c)\<lparr>ti_min_success_dwell_secs := rt_min_success_dwell_secs (cg_recovery c)\<rparr>\<rparr>)"

definition process_controller :: "params \<Rightarrow> instant \<Rightarrow> zoned \<Rightarrow> disk \<Rightarrow> process \<Rightarrow> state_machine" where
  "process_controller pr now wall d ps =
     (let c = ps_config ps
      in start_controller pr (ps_env ps) (controller_config c) (cg_recovery c) (gw_settings_path (cg_gateway c)) now wall d)"

text \<open>
  How a process ends: it returns 0 when the loop finishes, 1 when it fails or never starts,
  101 when it panics; none while it runs.
\<close>

fun exit_code :: "loop_result \<Rightarrow> nat option" where
  "exit_code (Continue sm) = None"
| "exit_code (Finished sm) = Some 0"
| "exit_code (Failed e sm) = Some 1"
| "exit_code (Main_Loop.Panicked p) = Some 101"

definition run_process :: "params \<Rightarrow> boot_world \<Rightarrow> instant \<Rightarrow> disk \<Rightarrow> (iteration \<times> nat) list \<Rightarrow> nat + loop_result" where
  "run_process pr bw now d its =
     (case main_start bw of
        Inl code \<Rightarrow> Inl code
      | Inr ps \<Rightarrow> Inr (run_loop_cut pr its (process_controller pr now (bw_now bw) d ps)))"

section \<open>The first state\<close>

text \<open>The two things that keep a started process down: its site does not launch, or its boot is refused.\<close>

definition stays_down :: "params \<Rightarrow> disk \<Rightarrow> process \<Rightarrow> bool" where
  "stays_down pr d ps \<longleftrightarrow>
     \<not> si_auto_launch (cg_site (ps_config ps))
     \<or> (case load (pr_codec pr) (fst (ps_equivalent_marker ps)) (recovery_mode_tag (au_trading_mode (cg_auth (ps_config ps))))
              (read_force_reset_env (ps_env ps ''IBCTL_RECOVERY_FORCE_RESET'')) d of
          RefusedGivenUpAutoReset r \<Rightarrow> True | _ \<Rightarrow> False)"

definition first_life :: "bool \<Rightarrow> life" where
  "first_life down =
     \<lparr>lf_state = (if down then WaitingForLaunch else Init), lf_return = None,
      lf_pause = \<lparr>pc_paused = False, pc_ceiling = None\<rparr>\<rparr>"

lemma first_life_ok: "life_ok (first_life b)"
  by (simp add: life_ok_def first_life_def)

lemma boot_blocked:
  "co_blocked_awaiting_resume (fst (boot c f sd m rc now wall d)) \<longleftrightarrow>
     (case load c sd m (read_force_reset_env f) d of RefusedGivenUpAutoReset r \<Rightarrow> True | _ \<Rightarrow> False)"
  by (simp add: boot_def Let_def split: load_outcome.split)

lemma boot_config: "co_config (fst (boot c f sd m rc now wall d)) = rc"
  by (simp add: boot_def Let_def split: load_outcome.split)

lemma process_controller_life:
  assumes "main_start bw = Inr ps"
  shows "life_of (process_controller pr now wall d ps) = first_life (stays_down pr d ps)"
proof -
  obtain c where ps: "ps = async_main bw c" using assms by (rule main_startD)
  have m: "equivalent_marker_path (settings_dir_for_marker (ps_env ps) (gw_settings_path (cg_gateway (ps_config ps))))
      = ps_equivalent_marker ps" by (simp add: ps async_main_def)
  show ?thesis
    by (simp add: process_controller_def start_controller_def run_start_def m stays_down_def life_of_def
        first_life_def sm_new_def boot_blocked controller_config_def ib_new_def sm_record_def Let_def)
qed

lemma run_processD:
  assumes "run_process pr bw now d its = Inr r"
  obtains ps where "main_start bw = Inr ps" "run_loop_cut pr its (process_controller pr now (bw_now bw) d ps) = r"
  using assms by (auto simp: run_process_def split: sum.split_asm)

section \<open>A process follows the lifecycle\<close>

text \<open>
  C2. Every process follows the lifecycle: whatever its arguments, environment, files and
  markers, and however its handlers complete or are cancelled, at every point of its run the
  state is the end of a path of the abstract machine. The path starts in Init, or in standby
  when the site is configured not to launch or the recovery markers refuse the boot; it
  moves only along the graph of successors, by an outage of IB or its end (which returns to
  the very state that was interrupted), by the coordinator giving up, or by an interrupt
  that was taken in the run. The controller never rests in an error state.
\<close>

theorem process_follows_lifecycle:
  assumes "run_process pr bw now d its = Inr (Continue sm')"
  shows "\<exists>ps cs. main_start bw = Inr ps
      \<and> steps life_step cs (first_life (stays_down pr d ps)) (life_of sm')
      \<and> (\<forall>i. ByInterrupt i \<in> set cs \<longrightarrow> (\<exists>(it, k) \<in> set its. it_outcome it = Interrupted i))
      \<and> (\<forall>m. sm_st sm' \<noteq> ErrorState m)"
proof -
  obtain ps where ps: "main_start bw = Inr ps"
    and run: "run_loop_cut pr its (process_controller pr now (bw_now bw) d ps) = Continue sm'"
    using assms by (rule run_processD)
  note l = process_controller_life [OF ps, of pr now "bw_now bw" d]
  have "life_ok (life_of (process_controller pr now (bw_now bw) d ps))" by (simp add: l first_life_ok)
  from loop_refines_lifecycle [OF run this] ps show ?thesis by (auto simp: l life_ok_def)
qed

section \<open>A site that does not launch\<close>

text \<open>In standby a handler has nothing to be cancelled in, so the runs are those of the plain loop.\<close>

lemma parked_cut: "sm_st sm = WaitingForLaunch \<Longrightarrow> cut_at wd k sm = sm"
  using cut_at_in [of wd k sm]
  by (auto simp: cuts_of_def stay_cuts_def do_waiting_for_launch_def goto_state_def split: if_splits)

lemma parked_iteration_cut:
  assumes "sm_st sm = WaitingForLaunch"
  shows "loop_iteration_cut pr it k sm = loop_iteration pr it sm"
proof -
  have "sm_st (fold async_step (it_async it) sm) = WaitingForLaunch" using assms by simp
  from pre_transition_parked [OF this, of pr "it_pre it"] show ?thesis
    by (auto simp: loop_iteration_cut_def loop_iteration_def parked_cut split: select_outcome.split)
qed

lemma parked_run_cut:
  "parked co sm \<Longrightarrow> \<forall>(it, k) \<in> set its. \<not> unparks (it_outcome it) \<Longrightarrow> run_loop_cut pr its sm = run_loop pr (map fst its) sm"
proof (induction its arbitrary: sm)
  case (Cons x its)
  obtain it k where x: "x = (it, k)" by (cases x)
  obtain sm1 where s: "loop_iteration pr it sm = Continue sm1"
    using parked.continues [OF Cons.prems(1)] Cons.prems(2) by (force simp: x)
  have "parked co sm1" using parked.keeps [OF Cons.prems(1) _ s] Cons.prems(2) by (simp add: x)
  then show ?case using Cons s by (simp add: x parked_iteration_cut parked_def)
qed simp

lemma auto_launch_override:
  assumes "load_config from_toml exists read env p = Inr c" and "env ''IBCTL_AUTO_LAUNCH'' = Some v" and "v \<noteq> []"
  shows "si_auto_launch (cg_site c) = is_yes v"
proof -
  obtain c0 where "c = apply_env_overrides env read c0" using load_config_Inr [OF assms(1)] by blast
  then show ?thesis using assms(2,3) by (simp add: apply_env_overrides_def override_site_def env_nonempty_def)
qed

text \<open>
  C16. A standby site stays down: when \<open>IBCTL_AUTO_LAUNCH\<close> is anything but yes, true or 1, then
  whatever the configuration file and the recovery markers say, a started process keeps
  running in WaitingForLaunch and asks for no JVM, as long as nobody sends START, RESTART,
  EXIT or SETSTATE or stops it. Outages, resume tokens, cold restarts, events of the agent and
  cancelled handlers do not change that.
\<close>

theorem standby_site_stays_down:
  assumes "bw_env bw ''IBCTL_AUTO_LAUNCH'' = Some v" and "v \<noteq> []" and "\<not> is_yes v"
    and "main_start bw = Inr ps" and "\<forall>(it, k) \<in> set its. \<not> unparks (it_outcome it)"
  shows "\<exists>sm'. run_process pr bw now d its = Inr (Continue sm') \<and> sm_st sm' = WaitingForLaunch \<and> launches sm' = []"
proof -
  obtain p c where c: "load_config (bw_from_toml bw) (bw_exists bw) (bw_read bw) (bw_env bw) p = Inr c" "ps = async_main bw c"
    using assms(4) by (rule main_startD)
  let ?sm = "process_controller pr now (bw_now bw) d ps"
  have auto: "\<not> si_auto_launch (cg_site (ps_config ps))"
    using auto_launch_override [OF c(1) assms(1,2)] assms(3) by (simp add: c(2) async_main_def)
  then have st: "sm_st ?sm = WaitingForLaunch" "launches ?sm = []"
    by (simp_all add: process_controller_def start_controller_def run_start_def sm_new_def controller_config_def
        launches_def Let_def)
  then have run: "run_loop_cut pr its ?sm = run_loop pr (map fst its) ?sm"
    using assms(5) by (intro parked_run_cut [of "sm_recovery ?sm"]) (auto simp: parked_def)
  have "\<forall>it \<in> set (map fst its). \<not> unparks (it_outcome it)" using assms(5) by auto
  from parked_idle.run_continues [of "sm_recovery ?sm" ?sm "[]", OF _ this] st show ?thesis
    by (auto simp: run_process_def assms(4) run parked_def)
qed

text \<open>A container that passes the switch, and the start of its process.\<close>

definition standby_boot :: boot_world where
  "standby_boot = demo_boot\<lparr>bw_env := (bw_env demo_boot)(''IBCTL_AUTO_LAUNCH'' \<mapsto> ''no'')\<rparr>"

lemma standby_boot_starts: "main_start standby_boot = Inr (async_main standby_boot
    (apply_env_overrides (bw_env standby_boot) (\<lambda>_. None) default_config))"
proof -
  let ?c = "apply_env_overrides (bw_env standby_boot) (\<lambda>_. None) default_config"
  have "au_username (cg_auth ?c) = ''user''" "au_password (cg_auth ?c) = ''pw''" "au_trading_mode (cg_auth ?c) = Paper"
    by (simp_all add: override_defs env_or_file_def env_nonempty_def standby_boot_def demo_boot_def default_config_def)
  then have "validate ?c = None" by (simp add: validate_iff valid_config_def)
  then have "load_config (\<lambda>_. None) (\<lambda>_. False) (\<lambda>_. None) (bw_env standby_boot) None = Inr ?c"
    by (simp add: load_config_def Let_def)
  then show ?thesis by (simp add: main_start_def parse_config_arg_def) (simp add: standby_boot_def demo_boot_def)
qed

theorem standby_site_stays_down_witness:
  "\<exists>sm'. run_process pr_example standby_boot 0 refused_disk
       [(it_example (Interrupted (IntCommand CmdResume)), 3), (it_example Completed, 0)] = Inr (Continue sm')
     \<and> sm_st sm' = WaitingForLaunch \<and> launches sm' = []"
proof -
  have e: "bw_env standby_boot ''IBCTL_AUTO_LAUNCH'' = Some ''no''" by (simp add: standby_boot_def)
  have n: "\<not> is_yes ''no''" by (simp add: is_yes_def to_lowercase_def)
  show ?thesis
    by (rule standby_site_stays_down [OF e _ n standby_boot_starts]) (simp_all add: it_example_def)
qed

lemma standby_boot_first:
  "life_of (process_controller pr now wall d (async_main standby_boot
      (apply_env_overrides (bw_env standby_boot) (\<lambda>_. None) default_config))) = first_life True"
proof -
  have "\<not> is_yes ''no''" by (simp add: is_yes_def to_lowercase_def)
  then have "stays_down pr d (async_main standby_boot (apply_env_overrides (bw_env standby_boot) (\<lambda>_. None) default_config))"
    by (simp add: stays_down_def async_main_def apply_env_overrides_def override_site_def env_nonempty_def standby_boot_def)
  then show ?thesis using process_controller_life [OF standby_boot_starts] by simp
qed

theorem process_follows_lifecycle_witness:
  "\<exists>sm' cs. run_process pr_example standby_boot 0 refused_disk
       [(it_example (Interrupted (IntCommand CmdPause)), 3)] = Inr (Continue sm')
     \<and> steps life_step cs (first_life True) (life_of sm')"
proof -
  let ?its = "[(it_example (Interrupted (IntCommand CmdPause)), 3 :: nat)]"
  let ?ps = "async_main standby_boot (apply_env_overrides (bw_env standby_boot) (\<lambda>_. None) default_config)"
  let ?sm = "process_controller pr_example 0 (bw_now standby_boot) refused_disk ?ps"
  have st: "sm_st ?sm = WaitingForLaunch" using arg_cong [OF standby_boot_first, of lf_state] by (simp add: first_life_def)
  then have p: "parked (sm_recovery ?sm) ?sm" by (simp add: parked_def)
  have u: "\<forall>(it, k) \<in> set ?its. \<not> unparks (it_outcome it)" by (simp add: it_example_def)
  obtain sm' where "run_loop pr_example (map fst ?its) ?sm = Continue sm'"
    using parked.run_continues [OF p, of "map fst ?its" pr_example] u by auto
  then have run: "run_process pr_example standby_boot 0 refused_disk ?its = Inr (Continue sm')"
    unfolding run_process_def standby_boot_starts sum.case parked_run_cut [OF p u, of pr_example] by (rule arg_cong)
  obtain ps cs where "main_start standby_boot = Inr ps"
    and cs: "steps life_step cs (first_life (stays_down pr_example refused_disk ps)) (life_of sm')"
    using process_follows_lifecycle [OF run] by blast
  then have "ps = ?ps" by (simp add: standby_boot_starts)
  then have "first_life (stays_down pr_example refused_disk ps) = first_life True"
    using process_controller_life [OF standby_boot_starts] standby_boot_first by metis
  with cs run show ?thesis by auto
qed

section \<open>The dwell time\<close>

text \<open>
  \<open>IBCTL_RECOVERY_MIN_SUCCESS_DWELL_SECS\<close> reaches the coordinator only: the upkeep of a
  connected session, which resets the count of restarts and marks the settings as good after
  the same dwell, reads the value of the configuration file.
\<close>

theorem dwell_override_half_applied:
  assumes "main_start bw = Inr ps" and "bw_env bw ''IBCTL_RECOVERY_MIN_SUCCESS_DWELL_SECS'' = Some v"
    and "trim v \<noteq> []" and "parse_uint u64_max v = Some n"
  shows "rc_min_success_dwell_secs (co_config (sm_recovery (process_controller pr now wall d ps))) = n
      \<and> ti_min_success_dwell_secs (cf_timing (sm_config (process_controller pr now wall d ps)))
          = rt_min_success_dwell_secs (cg_recovery (ps_config ps))"
proof -
  obtain c where ps: "ps = async_main bw c" using assms(1) by (rule main_startD)
  have "ps_env ps ''IBCTL_RECOVERY_MIN_SUCCESS_DWELL_SECS'' = Some v"
    using assms(2) by (simp add: ps async_main_def main_env_other)
  then show ?thesis
    using assms(3,4)
    by (simp add: process_controller_def start_controller_def run_start_def sm_new_def controller_config_def
        boot_config to_runtime_def env_num_def sm_record_def Let_def)
qed

end
