(* ===== verification/Clock_Sampling.thy ===== *)
theory Clock_Sampling
  imports Complex_Main Totp Supervisor
begin

text \<open>
  How the clock offset is measured (\<open>time_sync.rs\<close>): the exchange with an NTP server down to
  the bytes of the datagram and the double-precision arithmetic on its time stamps, the
  request left for the host's own clock task, and the periodic verifier. The lemmas bound the
  rounding error of the arithmetic, and with it the distance between the offset that is
  applied and the true one.
\<close>

section \<open>Double precision\<close>

text \<open>
  A finite \<open>f64\<close> is the rational number it stands for; an operation is the exact one followed
  by \<open>f64\<close>, the rounding to 53 significant bits, to the nearest and on a tie to the even. The
  last place of a number is \<open>2\<close> to the power \<open>ulp_exponent\<close>, not below the one of the
  subnormal numbers. No quantity here comes near the largest finite number.
\<close>

function int_log2 :: "int \<Rightarrow> int" where
  "int_log2 n = (if n \<le> 1 then 0 else 1 + int_log2 (n div 2))"
  by pat_completeness auto

termination
  by (relation "measure nat") auto

declare int_log2.simps [simp del]

definition ulp_exponent :: "rat \<Rightarrow> int" where
  "ulp_exponent x =
     (case quotient_of \<bar>x\<bar> of (n, d) \<Rightarrow>
        let e = int_log2 n - int_log2 d
        in max (- 1074) ((if \<bar>x\<bar> < 2 powi e then e - 1 else e) - 52))"

definition round_half_even :: "rat \<Rightarrow> int" where
  "round_half_even x =
     (let f = \<lfloor>x\<rfloor>; r = x - of_int f
      in if r < 1 / 2 \<or> r = 1 / 2 \<and> even f then f else f + 1)"

definition f64 :: "rat \<Rightarrow> rat" where
  "f64 x = of_int (round_half_even (x / 2 powi ulp_exponent x)) * 2 powi ulp_exponent x"

text \<open>\<open>f64::round\<close>, away from zero on a tie, and the saturating \<open>as i64\<close>.\<close>

definition round_half_away :: "rat \<Rightarrow> int" where
  "round_half_away x = (if 0 \<le> x then \<lfloor>x + 1 / 2\<rfloor> else - \<lfloor>1 / 2 - x\<rfloor>)"

definition as_i64 :: "int \<Rightarrow> int" where
  "as_i64 n = max (- (2 ^ 63)) (min (2 ^ 63 - 1) n)"

section \<open>Time stamps\<close>

text \<open>
  A reading of the system clock is a number of seconds and of nanoseconds since 1970, or an
  error when the clock is set earlier.
\<close>

type_synonym clock_reading = "(nat \<times> nat) option"

definition as_secs_f64 :: "nat \<times> nat \<Rightarrow> rat" where
  "as_secs_f64 d = f64 (f64 (of_nat (fst d)) + f64 (f64 (of_nat (snd d)) / 1000000000))"

definition system_time_secs :: "clock_reading \<Rightarrow> rat" where
  "system_time_secs c = as_secs_f64 (case c of None \<Rightarrow> (0, 0) | Some d \<Rightarrow> d)"

definition ntp_unix_delta_secs :: rat where
  "ntp_unix_delta_secs = 2208988800"

definition be_u32_at :: "u8 list \<Rightarrow> nat \<Rightarrow> u32" where
  "be_u32_at bs i = from_be_bytes32 (bs ! i) (bs ! (i + 1)) (bs ! (i + 2)) (bs ! (i + 3))"

definition ntp_timestamp :: "u8 list \<Rightarrow> rat" where
  "ntp_timestamp bs =
     (let seconds = f64 (of_nat (unat (be_u32_at bs 0)));
          fraction = f64 (f64 (of_nat (unat (be_u32_at bs 4))) / 4294967296)
      in f64 (f64 (seconds - ntp_unix_delta_secs) + fraction))"

section \<open>The exchange\<close>

text \<open>
  What one exchange meets: the addresses the server's name resolves to, the outcome of each
  socket call, the datagram that arrives, and the two readings of the clock. A received
  datagram overwrites the front of the buffer and is cut at its length.
\<close>

record ntp_exchange =
  nx_addrs :: "string \<Rightarrow> string + string list"
  nx_bind :: "string + unit"
  nx_read_timeout :: "nat \<Rightarrow> string + unit"
  nx_write_timeout :: "nat \<Rightarrow> string + unit"
  nx_sent_at :: clock_reading
  nx_send :: "string \<Rightarrow> u8 list \<Rightarrow> string + unit"
  nx_recv :: "string + u8 list"
  nx_received_at :: clock_reading

definition ntp_request :: "u8 list" where
  "ntp_request = 0x23 # replicate 47 0"

definition recv_into :: "u8 list \<Rightarrow> u8 list \<Rightarrow> nat \<times> u8 list" where
  "recv_into buf dgram = (min (length dgram) (length buf), take (length buf) dgram @ drop (length dgram) buf)"

definition offset_from :: "clock_reading \<Rightarrow> u8 list \<Rightarrow> clock_reading \<Rightarrow> int" where
  "offset_from sent packet received =
     (let t1 = system_time_secs sent; t4 = system_time_secs received;
          t2 = ntp_timestamp (take 8 (drop 32 packet));
          t3 = ntp_timestamp (take 8 (drop 40 packet));
          offset = f64 (f64 (f64 (t2 - t1) + f64 (t3 - t4)) / 2)
      in as_i64 (round_half_away (f64 (offset * 1000))))"

definition sample_ntp :: "ntp_exchange \<Rightarrow> string \<Rightarrow> nat \<Rightarrow> string + int" where
  "sample_ntp nx server timeout =
     and_then (nx_addrs nx server) (\<lambda>addrs.
     and_then (case addrs of [] \<Rightarrow> Inl (''no address for '' @ server) | a # _ \<Rightarrow> Inr a) (\<lambda>addr.
     and_then (nx_bind nx) (\<lambda>_.
     and_then (nx_read_timeout nx timeout) (\<lambda>_.
     and_then (nx_write_timeout nx timeout) (\<lambda>_.
     and_then (nx_send nx addr ntp_request) (\<lambda>_.
     and_then (nx_recv nx) (\<lambda>dgram.
       case recv_into ntp_request dgram of (received, packet) \<Rightarrow>
         if received < 48 \<or> packet ! 1 = 0 then Inl ''invalid NTP response''
         else Inr (offset_from (nx_sent_at nx) packet (nx_received_at nx)))))))))"

section \<open>The request for the host\<close>

text \<open>
  \<open>Path::parent\<close> as components, and the directory and name under which a path addresses a
  file. The request is written beside its place and renamed, without a sync; the path of a
  directory cannot be the target of the rename.
\<close>

definition path_parent :: "string \<Rightarrow> string list option" where
  "path_parent p = (if components p = [] \<or> components p = [''/''] then None else Some (butlast (components p)))"

definition split_dir :: "string \<Rightarrow> path" where
  "split_dir p =
     (let n = rev (takeWhile (\<lambda>c. c \<noteq> CHR ''/'') (rev p))
      in (take (length p - length n) p, n))"

definition default_request_file :: string where
  "default_request_file = ''/opt/ibctl/persist/time-sync/request''"

definition write_request :: "path \<Rightarrow> string \<Rightarrow> unit io" where
  "write_request p b =
     io_bind (file_create (tmp_path p)) (\<lambda>_.
     io_bind (file_write_all (tmp_path p) b) (\<lambda>_.
     if path_file_name p = None then io_return () else io_ignore (fs_rename (tmp_path p) p)))"

definition request_body :: "clock_reading \<Rightarrow> string \<Rightarrow> string" where
  "request_body now reason =
     show_nat (case now of None \<Rightarrow> 0 | Some d \<Rightarrow> fst d) @ [CHR 0x09] @ reason @ [CHR 0x0A]"

definition request_host_sync ::
  "string option \<Rightarrow> (string list \<Rightarrow> bool) \<Rightarrow> clock_reading \<Rightarrow> string \<Rightarrow> disk \<Rightarrow> disk" where
  "request_host_sync var mkdir_ok now reason d =
     (let p = (case var of None \<Rightarrow> default_request_file | Some v \<Rightarrow> v)
      in case path_parent p of
           None \<Rightarrow> d
         | Some parent \<Rightarrow>
             if \<not> mkdir_ok parent then d else fst (write_request (split_dir p) (request_body now reason) d))"

section \<open>Verification\<close>

text \<open>
  One call of \<open>verify_now\<close> with everything around the measurement: the request, the task that
  may be lost, and the store of the outcome. The periodic verifier is a first call and one
  after every interval.
\<close>

record verification =
  vf_request_file :: "string option"
  vf_mkdir_ok :: "string list \<Rightarrow> bool"
  vf_requested_at :: clock_reading
  vf_servers :: "string option"
  vf_exchange :: "string \<Rightarrow> ntp_exchange"
  vf_joined :: bool
  vf_stored_at :: clock_reading

definition ntp_timeout_secs :: nat where "ntp_timeout_secs = 2"

definition sampled :: "(string \<Rightarrow> ntp_exchange) \<Rightarrow> string \<Rightarrow> int option" where
  "sampled nx server = (case sample_ntp (nx server) server ntp_timeout_secs of Inl e \<Rightarrow> None | Inr x \<Rightarrow> Some x)"

definition verify_clock :: "string \<Rightarrow> verification \<Rightarrow> time_sync \<times> disk \<Rightarrow> time_sync \<times> disk" where
  "verify_clock reason v s =
     (let d = request_host_sync (vf_request_file v) (vf_mkdir_ok v) (vf_requested_at v) reason (snd s);
          now = (case vf_stored_at v of None \<Rightarrow> 0 | Some t \<Rightarrow> int (fst t))
      in (if vf_joined v then verify_now (vf_servers v) (sampled (vf_exchange v)) now (fst s) else fst s, d))"

fun periodic_verifier :: "verification list \<Rightarrow> time_sync \<times> disk \<Rightarrow> time_sync \<times> disk" where
  "periodic_verifier [] s = s"
| "periodic_verifier (v # vs) s = fold (verify_clock ''periodic'') vs (verify_clock ''startup'' v s)"

section \<open>The rounding error\<close>

lemma int_log2_bound:
  "0 < n \<Longrightarrow> 2 powi (int_log2 n) \<le> (of_int n :: rat) \<and> (of_int n :: rat) < 2 powi (int_log2 n + 1) \<and> 0 \<le> int_log2 n"
proof (induction n rule: int_log2.induct)
  case (1 n)
  show ?case
  proof (cases "n \<le> 1")
    case True
    with 1 have "n = 1" by simp
    then show ?thesis by (simp add: int_log2.simps)
  next
    case False
    then have IH: "2 powi int_log2 (n div 2) \<le> (of_int (n div 2) :: rat)"
        "(of_int (n div 2) :: rat) < 2 powi (int_log2 (n div 2) + 1)" "0 \<le> int_log2 (n div 2)"
      using "1.IH" by auto
    define k where "k = nat (int_log2 (n div 2))"
    have k: "int_log2 (n div 2) = int k" using IH(3) by (simp add: k_def)
    have e: "int_log2 n = int (Suc k)" using False k by (simp add: int_log2.simps [of n])
    have "of_int (2 ^ k) \<le> (of_int (n div 2) :: rat)" "(of_int (n div 2) :: rat) < of_int (2 ^ Suc k)"
      using IH(1,2) unfolding k by (simp_all add: power_int_def nat_add_distrib)
    then have "2 ^ k \<le> n div 2" "n div 2 < 2 ^ Suc k" by (simp_all only: of_int_le_iff of_int_less_iff)
    then have "2 ^ Suc k \<le> n" "n < 2 ^ Suc (Suc k)" by auto
    then have "of_int (2 ^ Suc k) \<le> (of_int n :: rat)" "(of_int n :: rat) < of_int (2 ^ Suc (Suc k))"
      by (simp_all only: of_int_le_iff of_int_less_iff)
    then show ?thesis unfolding e by (simp add: power_int_def nat_add_distrib)
  qed
qed

lemma ulp_exponent_le:
  assumes "\<bar>x\<bar> < 2 ^ k"
  shows "ulp_exponent x \<le> int k - 53"
proof (cases "x = 0")
  case True
  then show ?thesis by (simp add: ulp_exponent_def int_log2.simps [of 0] int_log2.simps [of 1])
next
  case False
  obtain n d where q: "quotient_of \<bar>x\<bar> = (n, d)" by fastforce
  have x: "\<bar>x\<bar> = of_int n / of_int d" and d: "0 < d"
    using quotient_of_div [OF q] quotient_of_denom_pos [OF q] by simp_all
  have "0 < (of_int n / of_int d :: rat)" using False by (simp flip: x)
  then have n: "0 < n" using d by (simp add: zero_less_divide_iff)
  let ?e = "int_log2 n - int_log2 d"
  have "2 powi (?e - 1) = (2 powi int_log2 n :: rat) / 2 powi (int_log2 d + 1)"
    by (metis diff_diff_eq power_int_diff zero_neq_numeral)
  also have "\<dots> < of_int n / of_int d"
    using int_log2_bound [OF n] int_log2_bound [OF d] d n by (intro frac_less2) auto
  finally have low: "2 powi (?e - 1) < \<bar>x\<bar>" by (simp add: x)
  let ?E = "if \<bar>x\<bar> < 2 powi ?e then ?e - 1 else ?e"
  have "2 powi ?E \<le> \<bar>x\<bar>" using low by auto
  also have "\<dots> < 2 powi (int k)" using assms by simp
  finally have "?E < int k" using power_int_increasing [of "int k" ?E "2 :: rat"] by (meson leD leI one_le_numeral)
  then show ?thesis by (simp add: ulp_exponent_def q Let_def)
qed

lemma round_half_even_near: "\<bar>of_int (round_half_even x) - x\<bar> \<le> 1 / 2"
proof -
  have "of_int \<lfloor>x\<rfloor> \<le> x" "x < of_int \<lfloor>x\<rfloor> + 1" by linarith+
  then show ?thesis by (auto simp: round_half_even_def Let_def abs_le_iff)
qed

lemma f64_near:
  assumes "\<bar>x\<bar> < 2 ^ k"
  shows "\<bar>f64 x - x\<bar> \<le> 2 powi (int k - 54)"
proof -
  let ?u = "2 powi ulp_exponent x :: rat"
  have u: "0 < ?u" by simp
  have "f64 x - x = (of_int (round_half_even (x / ?u)) - x / ?u) * ?u"
    using u by (simp add: f64_def left_diff_distrib)
  then have "\<bar>f64 x - x\<bar> = \<bar>of_int (round_half_even (x / ?u)) - x / ?u\<bar> * ?u" by (simp add: abs_mult)
  also have "\<dots> \<le> 1 / 2 * ?u" using round_half_even_near u by (intro mult_right_mono) auto
  also have "\<dots> \<le> 1 / 2 * 2 powi (int k - 53)"
    using ulp_exponent_le [OF assms] by (intro mult_left_mono power_int_increasing) auto
  also have "\<dots> = 2 powi (int k - 54)"
    using power_int_add [of "2::rat" "int k - 54" 1] by simp
  finally show ?thesis .
qed

lemma f64_near_seconds: "\<bar>x\<bar> < 2 ^ 35 \<Longrightarrow> \<bar>f64 x - x\<bar> \<le> 1 / 524288"
  using f64_near [of x 35] by (simp add: power_int_def power_one_over inverse_eq_divide)

lemma f64_near_millis: "\<bar>x\<bar> < 2 ^ 45 \<Longrightarrow> \<bar>f64 x - x\<bar> \<le> 1 / 512"
  using f64_near [of x 45] by (simp add: power_int_def power_one_over inverse_eq_divide)

text \<open>A third is rounded down, and ties go to the even neighbour.\<close>

lemma f64_examples:
  "f64 (1 / 3) = 6004799503160661 / 2 ^ 54"
  "f64 9007199254740993 = 9007199254740992"
  "f64 9007199254740995 = 9007199254740996"
  by code_simp+

text \<open>The numbers the two kinds of time stamp stand for.\<close>

definition exact_secs :: "nat \<times> nat \<Rightarrow> rat" where
  "exact_secs d = of_nat (fst d) + of_nat (snd d) / 1000000000"

definition exact_stamp :: "u8 list \<Rightarrow> rat" where
  "exact_stamp bs = of_nat (unat (be_u32_at bs 0)) - ntp_unix_delta_secs + of_nat (unat (be_u32_at bs 4)) / 4294967296"


lemma f64_ratio_near:
  assumes "0 \<le> n" "n \<le> 2 ^ 33" "1 \<le> c"
  shows "\<bar>f64 (f64 n / c) - n / c\<bar> \<le> 2 / 524288"
proof -
  have 1: "\<bar>f64 n - n\<bar> \<le> 1 / 524288" using assms by (intro f64_near_seconds) simp
  have q: "\<bar>a / c\<bar> \<le> \<bar>a\<bar>" for a using assms(3) by (simp add: divide_le_eq mult_le_cancel_left1)
  have "\<bar>f64 n\<bar> < 2 ^ 35" using 1 assms unfolding abs_le_iff abs_less_iff by simp
  then have "\<bar>f64 n / c\<bar> < 2 ^ 35" using q [of "f64 n"] by linarith
  then have 2: "\<bar>f64 (f64 n / c) - f64 n / c\<bar> \<le> 1 / 524288" by (rule f64_near_seconds)
  have "\<bar>f64 n / c - n / c\<bar> \<le> 1 / 524288" using q [of "f64 n - n"] 1 by (simp add: diff_divide_distrib)
  with 2 show ?thesis by linarith
qed

lemma f64_sum_near:
  assumes "\<bar>a - x\<bar> \<le> d" "\<bar>b - y\<bar> \<le> e" "\<bar>x\<bar> + \<bar>y\<bar> \<le> 2 ^ 34" "d + e \<le> 1"
  shows "\<bar>f64 (a + b) - (x + y)\<bar> \<le> d + e + 1 / 524288"
proof -
  have "\<bar>a + b\<bar> < 2 ^ 35" using assms by simp
  then have "\<bar>f64 (a + b) - (a + b)\<bar> \<le> 1 / 524288" by (rule f64_near_seconds)
  with assms(1,2) show ?thesis by linarith
qed

lemma f64_diff_near:
  assumes "\<bar>a - x\<bar> \<le> d" "\<bar>b - y\<bar> \<le> e" "\<bar>x\<bar> + \<bar>y\<bar> \<le> 2 ^ 34" "d + e \<le> 1"
  shows "\<bar>f64 (a - b) - (x - y)\<bar> \<le> d + e + 1 / 524288"
proof -
  have "\<bar>- b - - y\<bar> \<le> e" "\<bar>x\<bar> + \<bar>- y\<bar> \<le> 2 ^ 34" using assms(2,3) by simp_all
  then show ?thesis using f64_sum_near [OF assms(1), of "- b" "- y" e] assms(4) by simp
qed

lemma of_nat_range: "m \<le> k \<Longrightarrow> 0 \<le> (of_nat m :: rat) \<and> (of_nat m :: rat) \<le> of_nat k"
  by simp

lemma as_secs_near:
  assumes "fst d < 2 ^ 32" "snd d < 1000000000"
  shows "\<bar>as_secs_f64 d - exact_secs d\<bar> \<le> 4 / 524288" "0 \<le> exact_secs d" "exact_secs d \<le> 2 ^ 32"
proof -
  define s n :: rat where "s = of_nat (fst d)" and "n = of_nat (snd d)"
  have s: "0 \<le> s" "s \<le> 4294967295" and n: "0 \<le> n" "n \<le> 1000000000"
    using assms of_nat_range [of "fst d" 4294967295] of_nat_range [of "snd d" 1000000000]
    by (simp_all add: s_def n_def)
  have 1: "\<bar>f64 s - s\<bar> \<le> 1 / 524288" using s by (intro f64_near_seconds) simp
  have 2: "\<bar>f64 (f64 n / 1000000000) - n / 1000000000\<bar> \<le> 2 / 524288" using n by (intro f64_ratio_near) simp_all
  have b: "\<bar>s\<bar> + \<bar>n / 1000000000\<bar> \<le> 2 ^ 34" using s n by simp
  show "\<bar>as_secs_f64 d - exact_secs d\<bar> \<le> 4 / 524288"
    using f64_sum_near [OF 1 2 b] by (simp add: as_secs_f64_def exact_secs_def s_def [symmetric] n_def [symmetric])
  show "0 \<le> exact_secs d" "exact_secs d \<le> 2 ^ 32"
    using s n by (simp_all add: exact_secs_def s_def [symmetric] n_def [symmetric])
qed

lemma ntp_timestamp_near:
  "\<bar>ntp_timestamp bs - exact_stamp bs\<bar> \<le> 5 / 524288"
  "- (2 ^ 32) \<le> exact_stamp bs" "exact_stamp bs \<le> 2 ^ 32"
proof -
  define s n :: rat where "s = of_nat (unat (be_u32_at bs 0))" and "n = of_nat (unat (be_u32_at bs 4))"
  have s: "0 \<le> s" "s \<le> 4294967295" and n: "0 \<le> n" "n \<le> 4294967295"
    using u32_less [of "be_u32_at bs 0"] u32_less [of "be_u32_at bs 4"]
      of_nat_range [of "unat (be_u32_at bs 0)" 4294967295] of_nat_range [of "unat (be_u32_at bs 4)" 4294967295]
    unfolding s_def n_def by (simp_all del: of_nat_unat)
  have 1: "\<bar>f64 s - s\<bar> \<le> 1 / 524288" using s by (intro f64_near_seconds) simp
  have 2: "\<bar>f64 (f64 n / 4294967296) - n / 4294967296\<bar> \<le> 2 / 524288" using n by (intro f64_ratio_near) simp_all
  have d: "\<bar>ntp_unix_delta_secs - ntp_unix_delta_secs\<bar> \<le> 0" by simp
  have 3: "\<bar>f64 (f64 s - ntp_unix_delta_secs) - (s - ntp_unix_delta_secs)\<bar> \<le> 2 / 524288"
    using f64_diff_near [OF 1 d] s by (simp add: ntp_unix_delta_secs_def)
  have b: "\<bar>s - ntp_unix_delta_secs\<bar> + \<bar>n / 4294967296\<bar> \<le> 2 ^ 34"
    using s n unfolding ntp_unix_delta_secs_def by (simp add: abs_if)
  show "\<bar>ntp_timestamp bs - exact_stamp bs\<bar> \<le> 5 / 524288"
    using f64_sum_near [OF 3 2 b]
    by (simp add: ntp_timestamp_def exact_stamp_def Let_def s_def [symmetric] n_def [symmetric] del: of_nat_unat)
  show "- (2 ^ 32) \<le> exact_stamp bs" "exact_stamp bs \<le> 2 ^ 32"
    using s n by (simp_all add: exact_stamp_def ntp_unix_delta_secs_def s_def [symmetric] n_def [symmetric] del: of_nat_unat)
qed

lemma round_half_away_near: "\<bar>of_int (round_half_away x) - x\<bar> \<le> (1 / 2 :: rat)"
proof -
  have "of_int \<lfloor>x + 1 / 2\<rfloor> \<le> x + 1 / 2" "x + 1 / 2 < of_int \<lfloor>x + 1 / 2\<rfloor> + 1"
    "of_int \<lfloor>1 / 2 - x\<rfloor> \<le> 1 / 2 - x" "1 / 2 - x < of_int \<lfloor>1 / 2 - x\<rfloor> + 1" by linarith+
  then show ?thesis unfolding round_half_away_def abs_le_iff by (cases "0 \<le> x") (simp_all, linarith+)
qed

text \<open>The exact offset of an exchange, and the distance of the computed one in milliseconds.\<close>

definition exact_offset :: "nat \<times> nat \<Rightarrow> u8 list \<Rightarrow> nat \<times> nat \<Rightarrow> rat" where
  "exact_offset sent packet received =
     ((exact_stamp (take 8 (drop 32 packet)) - exact_secs sent)
      + (exact_stamp (take 8 (drop 40 packet)) - exact_secs received)) / 2"

definition sane_reading :: "nat \<times> nat \<Rightarrow> bool" where
  "sane_reading t \<longleftrightarrow> fst t < 2 ^ 32 \<and> snd t < 1000000000"

lemma offset_from_near:
  assumes "sane_reading sent" "sane_reading received"
  shows "\<bar>of_int (offset_from (Some sent) packet (Some received)) - 1000 * exact_offset sent packet received\<bar> \<le> 1"
proof -
  define t1 t4 where "t1 = as_secs_f64 sent" and "t4 = as_secs_f64 received"
  define t2 t3 where "t2 = ntp_timestamp (take 8 (drop 32 packet))" and "t3 = ntp_timestamp (take 8 (drop 40 packet))"
  define x1 x4 where "x1 = exact_secs sent" and "x4 = exact_secs received"
  define x2 x3 where "x2 = exact_stamp (take 8 (drop 32 packet))" and "x3 = exact_stamp (take 8 (drop 40 packet))"
  note defs = t1_def t2_def t3_def t4_def x1_def x2_def x3_def x4_def
  have 1: "\<bar>t1 - x1\<bar> \<le> 4 / 524288" "0 \<le> x1" "x1 \<le> 2 ^ 32"
    and 4: "\<bar>t4 - x4\<bar> \<le> 4 / 524288" "0 \<le> x4" "x4 \<le> 2 ^ 32"
    and 2: "\<bar>t2 - x2\<bar> \<le> 5 / 524288" "\<bar>x2\<bar> \<le> 2 ^ 32"
    and 3: "\<bar>t3 - x3\<bar> \<le> 5 / 524288" "\<bar>x3\<bar> \<le> 2 ^ 32"
    using as_secs_near [of sent] as_secs_near [of received] assms ntp_timestamp_near
    unfolding defs sane_reading_def abs_le_iff by (simp_all add: minus_le_iff)
  define o1 o2 o3 o4 where "o1 = f64 (t2 - t1)" and "o2 = f64 (t3 - t4)" and "o3 = f64 (o1 + o2)" and "o4 = f64 (o3 / 2)"
  have a: "\<bar>o1 - (x2 - x1)\<bar> \<le> 10 / 524288" using f64_diff_near [OF 2(1) 1(1)] 1 2 by (simp add: o1_def)
  have b: "\<bar>o2 - (x3 - x4)\<bar> \<le> 10 / 524288" using f64_diff_near [OF 3(1) 4(1)] 3 4 by (simp add: o2_def)
  have r: "\<bar>x2 - x1\<bar> \<le> 2 ^ 33" "\<bar>x3 - x4\<bar> \<le> 2 ^ 33" using 1 2 3 4 unfolding abs_le_iff by simp_all
  have c: "\<bar>o3 - ((x2 - x1) + (x3 - x4))\<bar> \<le> 21 / 524288"
    using f64_sum_near [OF a b] r by (simp add: o3_def)
  define z where "z = exact_offset sent packet received"
  have z: "(x2 - x1) + (x3 - x4) = 2 * z" by (simp add: z_def exact_offset_def defs)
  have zr: "\<bar>z\<bar> \<le> 2 ^ 33" using r z unfolding abs_le_iff by linarith
  have h: "\<bar>o3 / 2 - z\<bar> \<le> 11 / 524288" using c unfolding z abs_le_iff by linarith
  have "\<bar>z\<bar> \<le> 8589934592" using zr by simp
  then have "\<bar>o3 / 2\<bar> < 34359738368" using h by linarith
  then have "\<bar>o3 / 2\<bar> < 2 ^ 35" by simp
  then have "\<bar>o4 - o3 / 2\<bar> \<le> 1 / 524288" unfolding o4_def by (rule f64_near_seconds)
  with h have d: "\<bar>o4 - z\<bar> \<le> 12 / 524288" unfolding abs_le_iff by linarith
  have "\<bar>o4\<bar> \<le> 8589934593" using d \<open>\<bar>z\<bar> \<le> 8589934592\<close> by linarith
  then have "\<bar>o4 * 1000\<bar> < 2 ^ 45" by (simp add: abs_mult)
  then have "\<bar>f64 (o4 * 1000) - o4 * 1000\<bar> \<le> 1 / 512" by (rule f64_near_millis)
  with d have e: "\<bar>f64 (o4 * 1000) - 1000 * z\<bar> \<le> 1 / 20" unfolding abs_le_iff by linarith
  define m where "m = round_half_away (f64 (o4 * 1000))"
  have f: "\<bar>of_int m - 1000 * z\<bar> \<le> 1" using round_half_away_near [of "f64 (o4 * 1000)"] e
    unfolding m_def abs_le_iff by linarith
  then have "\<bar>of_int m :: rat\<bar> \<le> of_int (2 ^ 44)" using zr unfolding abs_le_iff by simp
  then have "\<bar>m\<bar> \<le> 2 ^ 44" by (simp only: of_int_le_iff flip: of_int_abs)
  then have "as_i64 m = m" by (simp add: as_i64_def)
  moreover have "offset_from (Some sent) packet (Some received) = as_i64 m"
    by (simp add: offset_from_def Let_def system_time_secs_def m_def o4_def o3_def o2_def o1_def defs)
  ultimately show ?thesis using f by (simp add: z_def)
qed

section \<open>From the exchange to the code\<close>

text \<open>
  An answered exchange: every call succeeds and the answer is whole and is not a kiss of
  death. In an honest one the server's clock is \<open>theta\<close> seconds ahead of the local one, and the
  delays \<open>d1\<close> and \<open>d2\<close> of the two datagrams differ by at most \<open>a\<close> seconds.
\<close>

definition answered :: "ntp_exchange \<Rightarrow> string \<Rightarrow> u8 list \<Rightarrow> nat \<times> nat \<Rightarrow> nat \<times> nat \<Rightarrow> bool" where
  "answered nx server dgram sent received \<longleftrightarrow>
     (\<exists>addr others. nx_addrs nx server = Inr (addr # others) \<and> nx_send nx addr ntp_request = Inr ())
     \<and> nx_bind nx = Inr () \<and> nx_read_timeout nx ntp_timeout_secs = Inr () \<and> nx_write_timeout nx ntp_timeout_secs = Inr ()
     \<and> nx_recv nx = Inr dgram \<and> 48 \<le> length dgram \<and> dgram ! 1 \<noteq> 0
     \<and> nx_sent_at nx = Some sent \<and> sane_reading sent \<and> nx_received_at nx = Some received \<and> sane_reading received"

definition honest_exchange :: "rat \<Rightarrow> rat \<Rightarrow> ntp_exchange \<Rightarrow> string \<Rightarrow> bool" where
  "honest_exchange theta a nx server \<longleftrightarrow>
     (\<exists>dgram sent received d1 d2. answered nx server dgram sent received
        \<and> exact_stamp (take 8 (drop 32 dgram)) = exact_secs sent + d1 + theta
        \<and> exact_secs received = exact_stamp (take 8 (drop 40 dgram)) - theta + d2
        \<and> \<bar>d1 - d2\<bar> \<le> a)"

lemma recv_whole: "48 \<le> length dgram \<Longrightarrow> recv_into ntp_request dgram = (48, take 48 dgram)"
  by (simp add: recv_into_def ntp_request_def)

lemma stamp_slices:
  "take 8 (drop 32 (take 48 xs)) = take 8 (drop 32 xs)" "take 8 (drop 40 (take 48 xs)) = take 8 (drop 40 xs)"
  by (simp_all add: drop_take)

lemma answered_sample:
  assumes "answered (nx server) server dgram sent received"
  obtains x where "sampled nx server = Some x"
    "\<bar>of_int x - 1000 * exact_offset sent (take 48 dgram) received\<bar> \<le> 1"
proof
  show "sampled nx server = Some (offset_from (Some sent) (take 48 dgram) (Some received))"
    using assms by (auto simp: answered_def sampled_def sample_ntp_def recv_whole)
  show "\<bar>of_int (offset_from (Some sent) (take 48 dgram) (Some received))
      - 1000 * exact_offset sent (take 48 dgram) received\<bar> \<le> 1"
    using assms by (intro offset_from_near) (simp_all add: answered_def)
qed

lemma honest_sample:
  assumes "honest_exchange theta a (nx server) server"
  obtains x where "sampled nx server = Some x" "\<bar>of_int x - 1000 * theta\<bar> \<le> 500 * a + 1"
proof -
  from assms obtain dgram sent received d1 d2 where
    ans: "answered (nx server) server dgram sent received"
    and stamps: "exact_stamp (take 8 (drop 32 dgram)) = exact_secs sent + d1 + theta"
      "exact_secs received = exact_stamp (take 8 (drop 40 dgram)) - theta + d2" "\<bar>d1 - d2\<bar> \<le> a"
    unfolding honest_exchange_def by blast
  obtain x where x: "sampled nx server = Some x"
    "\<bar>of_int x - 1000 * exact_offset sent (take 48 dgram) received\<bar> \<le> 1"
    using answered_sample [of nx server, OF ans] by blast
  moreover have "1000 * exact_offset sent (take 48 dgram) received = 1000 * theta + 500 * (d1 - d2)"
    using stamps(1,2) by (simp add: exact_offset_def stamp_slices)
  ultimately have "\<bar>of_int x - 1000 * theta\<bar> \<le> 500 * a + 1"
    using stamps(3) unfolding abs_le_iff by (elim conjE, intro conjI) (simp_all add: right_diff_distrib)
  with x(1) show ?thesis by (rule that)
qed

lemma verify_servers_majority:
  assumes "length servers < 2 * length (filter good servers)"
    and "\<And>s. s \<in> set servers \<Longrightarrow> good s \<Longrightarrow> \<exists>x. f s = Some x \<and> lo \<le> x \<and> x \<le> hi"
    and "- max_accepted_offset_ms \<le> lo" "hi \<le> max_accepted_offset_ms"
  shows "\<exists>x n. verify_servers f servers = Some (x, n) \<and> lo \<le> x \<and> x \<le> hi"
proof -
  let ?ok = "\<lambda>x. \<bar>x\<bar> \<le> max_accepted_offset_ms" and ?in = "\<lambda>x. lo \<le> x \<and> x \<le> hi"
  let ?os = "filter ?ok (List.map_filter f servers)"
  have "length (filter good ss) \<le> length (filter ?in (filter ?ok (List.map_filter f ss)))
      \<and> length (List.map_filter f ss) \<le> length ss" if "set ss \<subseteq> set servers" for ss
    using that
  proof (induction ss)
    case (Cons s ss)
    show ?case
    proof (cases "good s")
      case True
      then obtain x where "f s = Some x" "lo \<le> x" "x \<le> hi" using Cons.prems assms(2) [of s] by auto
      with True Cons assms(3,4) show ?thesis by auto
    qed (use Cons in \<open>auto split: option.splits\<close>)
  qed simp
  then have c: "length (filter good servers) \<le> length (filter ?in ?os)" "length (List.map_filter f servers) \<le> length servers"
    by simp_all
  have "length ?os \<le> length servers" using c(2) length_filter_le le_trans by blast
  with c assms(1) have m: "length ?os < 2 * length (filter ?in ?os)" by linarith
  then have "0 < length (sort ?os)" using length_filter_le [of ?in ?os] unfolding length_sort by linarith
  then have ne: "sort ?os \<noteq> []" by (simp only: length_greater_0_conv not_False_eq_True)
  have "length (filter P (sort ?os)) = length (filter P ?os)" for P by (metis filter_sort length_sort)
  then have "?in (sort ?os ! (length (sort ?os) div 2))"
    using m by (intro sorted_median_majority [OF sorted_sort ne]) simp
  with ne show ?thesis by (auto simp: verify_servers_def Let_def)
qed

lemma verify_servers_accurate:
  assumes "length servers < 2 * length (filter good servers)"
    and "\<And>s. s \<in> set servers \<Longrightarrow> good s \<Longrightarrow> honest_exchange theta a (nx s) s"
    and "1000 * \<bar>theta\<bar> + 500 * a + 1 \<le> 120000"
  shows "\<exists>x n. verify_servers (sampled nx) servers = Some (x, n) \<and> \<bar>of_int x - 1000 * theta\<bar> \<le> 500 * a + 1"
proof -
  define lo hi where "lo = \<lceil>1000 * theta - (500 * a + 1)\<rceil>" and "hi = \<lfloor>1000 * theta + (500 * a + 1)\<rfloor>"
  have iff: "lo \<le> x \<and> x \<le> hi \<longleftrightarrow> \<bar>of_int x - 1000 * theta\<bar> \<le> 500 * a + 1" for x
    unfolding lo_def hi_def ceiling_le_iff le_floor_iff abs_le_iff by linarith
  have "of_int (- 120000) \<le> 1000 * theta - (500 * a + 1)" "1000 * theta + (500 * a + 1) \<le> of_int 120000"
    using assms(3) by linarith+
  then have "- 120000 \<le> lo" "hi \<le> 120000"
    unfolding lo_def hi_def using le_ceiling_iff floor_le_iff by linarith+
  then show ?thesis
    using verify_servers_majority [OF assms(1), of "sampled nx" lo hi] assms(2) honest_sample iff
    by (metis max_accepted_offset_ms_def)
qed

lemma unat_of_int_u64:
  assumes "0 \<le> c" "c < 2 ^ 64"
  shows "unat (of_int c :: u64) = nat c"
proof -
  have "unat (of_nat (nat c) :: u64) = nat c mod 2 ^ 64" using unat_of_nat [where 'a = 64, of "nat c"] by simp
  also have "nat c < 2 ^ 64" using assms by (simp add: nat_less_iff)
  then have "nat c mod 2 ^ 64 = nat c" by simp
  finally show ?thesis using assms(1) by simp
qed

lemma corrected_unat:
  assumes "0 \<le> local_ms + ts_offset_ms ts" "local_ms + ts_offset_ms ts < 2 ^ 64"
  shows "unat (corrected_unix_seconds ts local_ms) = nat ((local_ms + ts_offset_ms ts) div 1000)"
proof -
  define m where "m = local_ms + ts_offset_ms ts"
  have "unat (of_int m div 1000 :: u64) = nat m div 1000"
    using unat_of_int_u64 [of m] assms by (simp add: unat_div m_def)
  then show ?thesis using assms(1) by (simp add: corrected_unix_seconds_def nat_div_distrib flip: m_def)
qed

text \<open>The time stamp of a server whose clock reads the Unix second \<open>u\<close>.\<close>

definition era_stamp :: "nat \<Rightarrow> u8 list" where
  "era_stamp u = to_be_bytes32 (of_nat (u + 2208988800)) @ to_be_bytes32 0"

lemma from_to_be_bytes32:
  "from_be_bytes32 (ucast (drop_bit 24 w)) (ucast (drop_bit 16 w)) (ucast (drop_bit 8 w)) (ucast w) = w"
proof (rule bit_word_eqI)
  fix n
  assume "n < LENGTH(32)"
  then have "n < 32" by simp
  then have "n < 8 \<or> (\<exists>i. n = 8 + i \<and> i < 8) \<or> (\<exists>i. n = 16 + i \<and> i < 8) \<or> (\<exists>i. n = 24 + i \<and> i < 8)"
    by presburger
  then show "bit (from_be_bytes32 (ucast (drop_bit 24 w)) (ucast (drop_bit 16 w)) (ucast (drop_bit 8 w)) (ucast w)) n = bit w n"
    by (elim disjE exE conjE) (auto simp: from_be_bytes32_def bit_simps)
qed

lemma be_u32_at_stamp: "be_u32_at (era_stamp u) 0 = of_nat (u + 2208988800)" "be_u32_at (era_stamp u) 4 = 0"
  using from_to_be_bytes32 [of "of_nat (u + 2208988800)"] from_to_be_bytes32 [of 0]
  by (simp_all add: be_u32_at_def era_stamp_def to_be_bytes32_def del: of_nat_add)

text \<open>
  C7. A verified clock yields valid codes: when more than half of the asked servers answer
  honestly (their clocks are \<open>theta\<close> seconds ahead, at most 119 either way, and the delays of the
  two datagrams differ by less than two seconds), then whatever the other servers answer, the
  code generated after the window guard is the code of the servers' time \<open>tau\<close> (in milliseconds)
  at every moment of the two seconds that follow.
\<close>

theorem verified_clock_gives_valid_code:
  assumes "servers = ntp_servers (vf_servers v)" and "vf_joined v"
    and "length servers < 2 * length (filter good servers)"
    and "\<forall>s \<in> set servers. good s \<longrightarrow> honest_exchange theta a (vf_exchange v s) s"
    and "500 * a \<le> 999" and "\<bar>theta\<bar> \<le> 119"
    and "ts = fst (verify_clock reason v st)"
    and "200000 \<le> local_ms" and "local_ms \<le> 2 ^ 62"
    and "local_ms' = local_ms + 1000 * int (safe_window_wait (corrected_unix_seconds ts local_ms))"
    and "of_int local_ms' + 1000 * theta \<le> tau" and "tau \<le> of_int local_ms' + 1000 * theta + 2000"
  shows "generate_totp_at secret (corrected_unix_seconds ts local_ms') 30 digits
    = generate_totp_at secret (of_int \<lfloor>tau / 1000\<rfloor>) 30 digits"
proof -
  define w where "w = safe_window_wait (corrected_unix_seconds ts local_ms)"
  have lim: "1000 * \<bar>theta\<bar> + 500 * a + 1 \<le> 120000" using assms(5,6) by linarith
  obtain x n where v: "verify_servers (sampled (vf_exchange v)) servers = Some (x, n)"
    and near: "\<bar>of_int x - 1000 * theta\<bar> \<le> 500 * a + 1"
    using verify_servers_accurate [OF assms(3) _ lim, of "vf_exchange v"] assms(4) by blast
  have ts: "ts_offset_ms ts = x"
    using v assms(1,2,7) by (simp add: verify_clock_def Let_def verify_now_def)
  have x: "\<bar>x\<bar> \<le> 120000" using verify_servers_bounded [OF v] by (simp add: max_accepted_offset_ms_def)
  have w: "w \<le> 5" "(unat (corrected_unix_seconds ts local_ms) + w) mod 30 \<in> {2..26}"
    using safe_window_position [of "corrected_unix_seconds ts local_ms"] by (simp_all add: w_def)
  have l: "local_ms' = local_ms + 1000 * int w" using assms(10) by (simp add: w_def)
  define c where "c = (local_ms' + x) div 1000"
  have c: "0 \<le> c" "c < 2 ^ 63" "(local_ms + x) div 1000 = c - int w" "0 \<le> c - int w"
    using x assms(8,9) w(1) l unfolding c_def by auto
  have t: "unat (corrected_unix_seconds ts local_ms') = nat c" "unat (corrected_unix_seconds ts local_ms) = nat (c - int w)"
    using corrected_unat [of local_ms' ts] corrected_unat [of local_ms ts] x assms(8,9) w(1) c unfolding l ts
    by (simp_all add: c_def l)
  define T where "T = \<lfloor>tau / 1000\<rfloor>"
  have "of_int (local_ms' + x) - 1000 \<le> tau" "tau \<le> of_int (local_ms' + x) + 3000"
    using near assms(5,11,12) unfolding abs_le_iff by simp_all
  moreover have "1000 * c \<le> local_ms' + x" "local_ms' + x < 1000 * c + 1000" unfolding c_def by linarith+
  then have "of_int (1000 * c) \<le> (of_int (local_ms' + x) :: rat)" "(of_int (local_ms' + x) :: rat) < of_int (1000 * c + 1000)"
    by (simp_all only: of_int_le_iff of_int_less_iff)
  ultimately have "of_int (c - 1) \<le> tau / 1000" "tau / 1000 < of_int (c + 4)"
    by (simp_all add: le_divide_eq divide_less_eq)
  then have T: "c - 1 \<le> T" "T < c + 4"
    unfolding T_def by (simp_all only: le_floor_iff floor_less_iff)
  have "1 \<le> c" using x assms(8) l unfolding c_def by linarith
  have "unat (of_int T :: u64) = nat T" using T \<open>1 \<le> c\<close> c(2) by (intro unat_of_int_u64) simp_all
  moreover have "nat T div 30 = nat c div 30"
  proof (rule same_window)
    show "nat c mod 30 \<in> {2..26}" using w(2) c(4) unfolding t(2) by (simp add: nat_diff_distrib)
  qed (use T \<open>1 \<le> c\<close> in simp_all)
  ultimately have "of_int T div 30 = corrected_unix_seconds ts local_ms' div 30"
    by (simp add: word_unat_eq_iff unat_div_30 t(1))
  then show ?thesis unfolding T_def generate_totp_at_def by (simp only: simp_thms)
qed

definition demo_dgram :: "nat \<Rightarrow> u8 list" where
  "demo_dgram u = replicate 32 1 @ era_stamp u @ era_stamp u"

definition demo_exchange :: "bool \<Rightarrow> nat \<Rightarrow> nat \<Rightarrow> ntp_exchange" where
  "demo_exchange ok u u' =
     \<lparr>nx_addrs = (\<lambda>s. Inr [s]), nx_bind = (if ok then Inr () else Inl ''in use''), nx_read_timeout = (\<lambda>_. Inr ()),
      nx_write_timeout = (\<lambda>_. Inr ()), nx_sent_at = Some (u, 0), nx_send = (\<lambda>_ _. Inr ()),
      nx_recv = Inr (demo_dgram u'), nx_received_at = Some (u, 0)\<rparr>"

definition demo_verification :: verification where
  "demo_verification =
     \<lparr>vf_request_file = None, vf_mkdir_ok = (\<lambda>_. True), vf_requested_at = Some (1700000000, 0), vf_servers = None,
      vf_exchange = (\<lambda>s. demo_exchange (s \<noteq> ''pool.ntp.org:123'') 1700000000 1700000005),
      vf_joined = True, vf_stored_at = Some (1700000001, 0)\<rparr>"

lemma demo_answered:
  assumes "u < 2 ^ 32"
  shows "answered (demo_exchange True u u') s (demo_dgram u') (u, 0) (u, 0)"
    "take 8 (drop 32 (demo_dgram u')) = era_stamp u'" "take 8 (drop 40 (demo_dgram u')) = era_stamp u'"
  using assms by (simp_all add: answered_def demo_exchange_def demo_dgram_def sane_reading_def era_stamp_def to_be_bytes32_def nth_append)

lemma demo_honest: "honest_exchange 5 0 (demo_exchange True 1700000000 1700000005) s"
proof -
  have "exact_stamp (era_stamp 1700000005) = 1700000005"
    by (simp add: exact_stamp_def be_u32_at_stamp ntp_unix_delta_secs_def)
  then show ?thesis
    unfolding honest_exchange_def
    by (intro exI [of _ "demo_dgram 1700000005"] exI [of _ "(1700000000, 0)"] exI [of _ "0 :: rat"])
       (simp add: demo_answered [of 1700000000] exact_secs_def)
qed

definition demo_clock :: time_sync where
  "demo_clock = fst (verify_clock ''startup'' demo_verification (\<lparr>ts_offset_ms = 0, ts_last_verified = 0\<rparr>, healthy_disk (\<lambda>_. None)))"

definition demo_guarded_ms :: int where
  "demo_guarded_ms = 1700000012000 + 1000 * int (safe_window_wait (corrected_unix_seconds demo_clock 1700000012000))"

theorem verified_clock_gives_valid_code_witness:
  "generate_totp_at ''JBSWY3DP'' (corrected_unix_seconds demo_clock demo_guarded_ms) 30 6
   = generate_totp_at ''JBSWY3DP'' (of_int \<lfloor>(of_int demo_guarded_ms + 6500 :: rat) / 1000\<rfloor>) 30 6"
proof -
  let ?good = "\<lambda>s. s \<noteq> ''pool.ntp.org:123''"
  have v: "ntp_servers (vf_servers demo_verification) = default_servers" "vf_joined demo_verification"
    by (simp_all add: demo_verification_def ntp_servers_def)
  have m: "length default_servers < 2 * length (filter ?good default_servers)" by (simp add: default_servers_def)
  have h: "\<forall>s \<in> set default_servers. ?good s \<longrightarrow> honest_exchange 5 0 (vf_exchange demo_verification s) s"
    using demo_honest by (simp add: demo_verification_def)
  show ?thesis
    by (rule verified_clock_gives_valid_code [OF v(1) [symmetric] v(2) m h _ _ demo_clock_def, of 1700000012000])
       (simp_all add: demo_guarded_ms_def)
qed

section \<open>The end of the first NTP era\<close>

lemma era_stamp_value:
  assumes "2085978496 \<le> u" "u < 2 ^ 32"
  shows "exact_stamp (era_stamp u) = of_nat u - 4294967296"
proof -
  have "unat (of_nat (u + 2208988800) :: u32) = (u + 2208988800) mod 2 ^ 32"
    using unat_of_nat [where 'a = 32, of "u + 2208988800"] by simp
  also have "(u + 2208988800) mod 2 ^ 32 = u - 2085978496"
    using assms by (simp add: mod_if)
  finally show ?thesis using assms
    by (simp add: exact_stamp_def be_u32_at_stamp ntp_unix_delta_secs_def del: of_nat_unat of_nat_add)
qed

text \<open>
  The first NTP era ends on 7 February 2036 (Unix second 2085978496). From then on a server
  whose clock agrees with the local one to the second seems 136 years behind, its sample is
  rejected, and a verification over such servers only never changes the offset again.
\<close>

theorem ntp_era_rollover:
  assumes "2085978496 \<le> u" and "u < 2 ^ 32"
    and "\<forall>s \<in> set (ntp_servers var). \<exists>dgram. answered (nx s) s dgram (u, 0) (u, 0)
       \<and> take 8 (drop 32 dgram) = era_stamp u \<and> take 8 (drop 40 dgram) = era_stamp u"
  shows "verify_now var (sampled nx) now ts = ts"
proof -
  have "\<exists>x. sampled nx s = Some x \<and> \<not> \<bar>x\<bar> \<le> max_accepted_offset_ms" if s: "s \<in> set (ntp_servers var)" for s
  proof -
    obtain dgram where a: "answered (nx s) s dgram (u, 0) (u, 0)"
      and d: "take 8 (drop 32 dgram) = era_stamp u" "take 8 (drop 40 dgram) = era_stamp u"
      using assms(3) s by blast
    obtain x where x: "sampled nx s = Some x" "\<bar>of_int x - 1000 * exact_offset (u, 0) (take 48 dgram) (u, 0)\<bar> \<le> 1"
      using answered_sample [of nx s, OF a] by blast
    have "exact_offset (u, 0) (take 48 dgram) (u, 0) = - 4294967296"
      by (simp add: exact_offset_def stamp_slices d era_stamp_value [OF assms(1,2)] exact_secs_def)
    then have "(of_int x :: rat) < of_int (- 120000)" using x(2) by simp
    then have "x < - 120000" by (simp only: of_int_less_iff)
    with x(1) show ?thesis by (simp add: max_accepted_offset_ms_def)
  qed
  then have "filter (\<lambda>x. \<bar>x\<bar> \<le> max_accepted_offset_ms) (List.map_filter (sampled nx) (ntp_servers var)) = []"
    by (force simp: filter_empty_conv List.map_filter_def)
  then show ?thesis by (simp add: verify_now_def verify_servers_def)
qed

theorem ntp_era_rollover_witness:
  "verify_now None (sampled (\<lambda>_. demo_exchange True 2100000000 2100000000)) 0 \<lparr>ts_offset_ms = 7, ts_last_verified = 1\<rparr>
   = \<lparr>ts_offset_ms = 7, ts_last_verified = 1\<rparr>"
  by (rule ntp_era_rollover [of 2100000000]) (use demo_answered [of 2100000000 2100000000] in auto)

section \<open>The request file\<close>

interpretation request_steps: write_steps "io_return ()" "io_return ()"
  by unfold_locales (simp_all add: io_return_def)

lemma write_request_shape:
  "path_file_name p \<noteq> None \<Longrightarrow> fst (write_request p b d) = fst (write_shape (io_return ()) (io_return ()) p b d)"
  by (auto simp: write_request_def write_shape_def fill_tmp_def io_bind_assoc io_bind_fst io_ignore_def
      io_return_def split: sum.splits option.splits)

lemma write_request_whole:
  "read_to_string p (fst (write_request p b d)) \<in> {read_to_string p d, Inr b}"
proof (cases "path_file_name p")
  case None
  then have "files (fst (write_request p b d)) p = files d p"
    by (simp add: write_request_def io_bind_fst io_return_def write_tmp_frame split: sum.splits)
  then show ?thesis by (simp add: read_to_string_def)
next
  case (Some n)
  then show ?thesis using request_steps.read_old_or_new by (simp add: write_request_shape)
qed

definition request_path :: "string option \<Rightarrow> path" where
  "request_path var = split_dir (case var of None \<Rightarrow> default_request_file | Some v \<Rightarrow> v)"

lemma request_host_sync_whole:
  "read_to_string (request_path var) (request_host_sync var mk now reason d)
     \<in> {read_to_string (request_path var) d, Inr (request_body now reason)}"
  using write_request_whole [of "request_path var" "request_body now reason" d]
  by (auto simp: request_host_sync_def request_path_def Let_def split: option.splits if_splits)

lemma verify_clock_disk:
  "snd (verify_clock reason v s) = request_host_sync (vf_request_file v) (vf_mkdir_ok v) (vf_requested_at v) reason (snd s)"
  by (simp add: verify_clock_def Let_def)

text \<open>
  The host never reads a torn request: after any run of the periodic verifier, whatever
  writes failed and wherever the process died, the request file holds what it held before or
  the whole request of one of the verifications.
\<close>

theorem host_request_never_torn:
  assumes "\<forall>v \<in> set vs. vf_request_file v = var"
  shows "read_to_string (request_path var) (snd (periodic_verifier vs s))
    \<in> insert (read_to_string (request_path var) (snd s))
        ((\<lambda>(v, reason). Inr (request_body (vf_requested_at v) reason)) ` (set vs \<times> {''startup'', ''periodic''}))"
proof -
  have one: "read_to_string (request_path var) (snd (verify_clock reason v t))
      \<in> {read_to_string (request_path var) (snd t), Inr (request_body (vf_requested_at v) reason)}"
    if "v \<in> set vs" for v t reason
    using request_host_sync_whole [of var] assms that unfolding verify_clock_disk by force
  have many: "read_to_string (request_path var) (snd (fold (verify_clock ''periodic'') ws t))
      \<in> insert (read_to_string (request_path var) (snd t)) ((\<lambda>v. Inr (request_body (vf_requested_at v) ''periodic'')) ` set ws)"
    if "set ws \<subseteq> set vs" for ws t
    using that
  proof (induction ws arbitrary: t)
    case (Cons w ws)
    have "w \<in> set vs" "set ws \<subseteq> set vs" using Cons.prems by simp_all
    then show ?case using Cons.IH [of "verify_clock ''periodic'' w t"] one [of w "''periodic''" t] by auto
  qed simp
  show ?thesis
  proof (cases vs)
    case (Cons v ws)
    then have "set ws \<subseteq> set vs" "v \<in> set vs" by auto
    then show ?thesis
      using one [of v "''startup''" s] many [of ws "verify_clock ''startup'' v s"] unfolding Cons by auto
  qed simp
qed

theorem host_request_never_torn_witness:
  "read_to_string (request_path None) (snd (periodic_verifier [demo_verification, demo_verification]
      (\<lparr>ts_offset_ms = 0, ts_last_verified = 0\<rparr>, (healthy_disk (\<lambda>_. None))\<lparr>crash_at := Some 3\<rparr>)))
   \<in> insert (Inl NotFound)
       ((\<lambda>(v, reason). Inr (request_body (vf_requested_at v) reason))
          ` (set [demo_verification, demo_verification] \<times> {''startup'', ''periodic''}))"
  using host_request_never_torn [of "[demo_verification, demo_verification]" None
      "(\<lparr>ts_offset_ms = 0, ts_last_verified = 0\<rparr>, (healthy_disk (\<lambda>_. None))\<lparr>crash_at := Some 3\<rparr>)"]
  by (simp add: demo_verification_def read_to_string_def healthy_disk_def)

end
