(* ===== verification/Spec2Isabelle.thy ===== *)
theory Spec2Isabelle
  imports Process_Runs Clock_Sampling
begin

text \<open>
  \<^bold>\<open>The program.\<close> ibctl keeps an Interactive Brokers gateway (a Java program without an API of
  its own for this) logged in. A Rust process launches the JVM with an injected agent, logs in
  through the Swing windows, answers the second factor, configures the API, watches the
  session and restarts the JVM when it must. A state machine (\<open>state_machine/mod.rs\<close>) is the
  centre; around it are a recovery coordinator that gives up after repeated failures and
  persists that decision (\<open>state_machine/recovery.rs\<close>), a weekly cold-restart scheduler
  (\<open>cold_restart.rs\<close>), dialog handlers that drive the windows (\<open>handlers/\<close>), one-time
  passwords (\<open>totp.rs\<close>, \<open>time_sync.rs\<close>), and a TCP command server (\<open>command_server.rs\<close>). At
  the edges are the supervisor of the JVM (\<open>supervisor.rs\<close>), the client of the agent and the
  reader of its events (\<open>agent_client.rs\<close>, \<open>event_stream.rs\<close>) with their fall-backs
  (\<open>atspi.rs\<close>, \<open>ocr.rs\<close>), and the status documents (\<open>state_machine/queries.rs\<close>).
  All of it is the Rust crate under \<open>src/ibctl/src\<close>; paths below are relative to it.

  \<^bold>\<open>How the model is built.\<close> A struct is a record, an enum a datatype, a function with effects
  takes and returns the record it changes. Effects that leave the process (launching and
  killing the JVM, clicking, socat, notifications) are appended to a log in the state, and the
  outside world answers through records of functions (\<open>world\<close>, \<open>agent\<close>, \<open>peer_io\<close>) that may
  depend on what was done before. Errors are values: \<open>Result\<close> is a sum, \<open>panic + 'a\<close> is code that
  may panic. Time is an \<open>instant\<close> in milliseconds (\<open>std::time::Instant\<close>) or a civil date with a
  time of day; clocks are arguments, so no theorem fixes how long anything takes. Integers
  are naturals with the saturation or checks of the source written out, and machine words
  where the code works on bits (addresses, digests, token hashes).

  \<^bold>\<open>Theories.\<close>
  \<^item> \<open>Ibctl_Prelude\<close>: results, instants, saturating arithmetic, the string functions of the
    standard library that the code uses (trim, split, parse, display) and their lemmas.
  \<^item> \<open>Ibctl_Files\<close>: a disk with failing primitives and crashes between any two of them; the two
    \<open>atomic_write\<close> routines and the contract \<open>atomic_store\<close> both satisfy.
  \<^item> \<open>Recovery_Policy\<close>, \<open>Recovery_Store\<close>, \<open>Recovery_Coordinator\<close>: \<open>recovery.rs\<close>. The pure decision
    \<open>compute_next_action\<close>; \<open>load\<close>, \<open>save\<close>, \<open>classify_corrupt\<close> over the disk with the JSON codec
    as a parameter; the coordinator with its clocks, tokens and give-up signal. The lemmas
    show that a recorded halt survives a crash at every point of a save, that a halt is left
    only by a fresh token, and when the phases escalate.
  \<^item> \<open>Cold_Restart\<close>: the scheduler of \<open>cold_restart.rs\<close> as a step function over clock readings,
    its marker files and skip rules; fires are on strictly increasing days, and a due day
    fires.
  \<^item> \<open>Lifecycle_State\<close>, \<open>Revocation\<close>, \<open>Gateway_Ui\<close>: states and their names, the bounded
    history, the debounce tracker (\<open>revocation.rs\<close>), the component trees and the window
    observation cache (\<open>agent_events.rs\<close>, \<open>handlers/totp_entry.rs\<close>, \<open>time_sync.rs\<close>), the last two as
    refinements of an unbounded log and of a finite map.
  \<^item> \<open>State_Machine\<close>: the controller's record, \<open>apply_transition\<close> with its enter and leave hooks,
    commands, interrupts, the recovery tick.
  \<^item> \<open>Login_Handlers\<close>, \<open>Session_Handlers\<close>: one function per \<open>do_*\<close> handler of \<open>mod.rs\<close>;
    \<open>transition\<close> dispatches on the state. \<open>Handler_Frames\<close> says which fields each leaves alone.
  \<^item> \<open>Main_Loop\<close>: \<open>run\<close> as an iteration of bookkeeping, select, interrupt or transition, folded
    over an arbitrary list of outcomes. The list is the only bound: the loop itself is
    endless, and every theorem quantifies over all finite runs.
  \<^item> \<open>Cancellation\<close>: the loop in which an interrupt drops the handler at any of its awaits, with
    the states it may leave behind (\<open>handler_cuts\<close>); what a dropped handler keeps, and four
    effects it does not undo.
  \<^item> \<open>Lifecycle_Graph\<close>: an abstract machine of the lifecycle (state, state to return to, pause)
    and the simulation \<open>path_simulation\<close> by which the loop with cancellations refines it.
  \<^item> \<open>Controller_Properties\<close>, \<open>Session_Properties\<close>: properties of handlers and of runs: on which
    evidence Connected is entered, that no credentials are sent during an enforced wait, that
    waits end, what a transition cleans up.
  \<^item> \<open>Startup\<close>: recovery settings from file and environment (\<open>config.rs\<close>), \<open>StateMachine::new\<close>
    (\<open>state_machine/types.rs\<close>), and the run from boot (\<open>main.rs\<close>).
  \<^item> \<open>Command_Server\<close>: the line protocol, the allow-list, privileges and a whole connection.
  \<^item> \<open>Dialog_Handlers\<close>: the registry and the eleven handlers (\<open>handlers/*.rs\<close>); what they may
    press and type, under which policy. The contract \<open>dismissing_handler\<close> holds for nine of them.
  \<^item> \<open>Totp\<close>: base32, SHA-1, HMAC, the code generator, the window guard, the NTP median. The
    contract \<open>fixed_hash\<close> is what HMAC needs of a hash.
  \<^item> \<open>Clock_Sampling\<close>: the NTP exchange of \<open>time_sync.rs\<close> in double precision (every operation
    rounded to nearest even), the verifier, and the request file for the host. With a majority of
    honest servers the generated code is valid; the era of 2036 is a finding.
  \<^item> \<open>Save_Settings\<close>: the daily settings-save schedule (\<open>save_settings.rs\<close>) and its rounds.
  \<^item> \<open>Config_Loading\<close>: the configuration sections, every environment override, secret files,
    validation, debug output and \<open>Config::load\<close> (\<open>config.rs\<close>), with the path of the
    second-factor secret to its handler.
  \<^item> \<open>Supervisor\<close>: where the version, the jars and the runtime are found, the JVM's command
    line, the orphan scan, the disabled launcher, starting and stopping. The lemmas fix the
    shape of every command line and show that a relaunch first kills what an earlier one left.
  \<^item> \<open>Status_Queries\<close>: the documents of \<open>queries.rs\<close> and their publication: they do not depend
    on secrets, the announced retry is the one of \<open>Recovery_Policy\<close>, and the stream of
    \<open>Command_Server\<close> delivers every published version once.
  \<^item> \<open>Agent_Client\<close>: HTTP requests, decoding, every operation of \<open>agent_client.rs\<close>, the
    accessibility fall-back and the API handshake (\<open>api_probe.rs\<close>).
  \<^item> \<open>Api_Config\<close>: the settings dialog (\<open>handlers/api_config.rs\<close>) as the sequence of its calls;
    what a failed and a successful run have done.
  \<^item> \<open>Server_Loop\<close>: the accept loop as a step relation over the contract \<open>permit_pool\<close>, and the
    event reader with its back-off.
  \<^item> \<open>Peripherals\<close>: the OCR verdict of the code handler, the rotating log, the signal bridge.
  \<^item> \<open>Wiring\<close>: the command line and \<open>async_main\<close> (\<open>main.rs\<close>), SETRESTART, the client-list and
    probe tasks of \<open>mod.rs\<close>, the \<open>oathtool\<close> provider: which directory and socket the parts
    share, what SETRESTART changes, when the probe raises its flag.
  \<^item> \<open>Process_Runs\<close>: a whole process, from \<open>main\<close> with its configuration to any point of the
    loop: it follows the lifecycle, and a site that does not launch stays down.
  This theory holds the properties that span components.

  \<^bold>\<open>Bounds.\<close> Loops with a computable end are recursive functions with a termination proof (the
  SHA-1 padding, the base32 accumulator, JSON trees). Retries with a fixed limit in the source
  (five looks at the mode switch, three ticks of evidence, three attempts of twenty polls for
  the settings dialog and three sweeps after it, ten connections, pauses of 100 to 5000 ms)
  carry that limit; the accept loop and the event reader run over arbitrary finite sequences
  of what happens to them. Case mapping and
  white space are the ASCII part of the Unicode functions: strings are lists of 8-bit
  characters.

  \<^bold>\<open>Parameters.\<close> serde_json is a codec with a round-trip hypothesis where the code relies on
  one, and a printer or a partial parser elsewhere; \<open>DefaultHasher\<close> is a function on tokens,
  jiff's date texts a pair of functions with a round-trip hypothesis and its addition a partial
  function that adds, the TOML parser a partial function, base64 a partial function. The file
  system of the supervisor is a lookup on paths, the process table a list. NTP datagrams and clock readings, the
  programs \<open>oathtool\<close>, \<open>tesseract\<close> and the accessibility helper, sockets, the calendar and the
  results of system calls are arguments.

  \<^bold>\<open>Not modelled.\<close> The length of sleeps and delays; reply writes that fail; numbers of the NTP
  exchange outside the range of normal doubles, which its 32-bit seconds cannot reach;
  the scheduling of the tasks \<open>main.rs\<close> spawns against each other, beyond the arbitrary order
  of events in the runs; the tests inside the Rust files; the Java agent, the dashboard and the container scripts, which are other programs.
\<close>

section \<open>Codes reach the second-factor dialog\<close>


text \<open>
  A challenge answered with a code for a known secret. The code itself is left symbolic: that
  there is one is what the shape theorem of the generator says.
\<close>

definition demo_totp :: handler_env where
  "demo_totp = (demo_env [])\<lparr>he_totp := \<lparr>te_ocr = OcrOff, te_ocr_strict = False,
     te_code = handler_code Builtin (\<lambda>s t. Inl (OathtoolFailed [])) (Some ''JBSWY3DP'') (Some 62)\<rparr>\<rparr>"

lemma demo_code: "\<exists>c. handler_code Builtin (\<lambda>s t. Inl (OathtoolFailed [])) (Some ''JBSWY3DP'') (Some 62) = Some c"
proof -
  obtain key where "decode_base32 ''JBSWY3DP'' = Inr key"
  proof -
    have "decode_base32 ''JBSWY3DP'' = Inr [0x48, 0x65, 0x6c, 0x6c, 0x6f]" by code_simp
    then show thesis by (rule that)
  qed
  moreover obtain b where "truncate_digest (hmac_sha1 key (to_be_bytes64 (62 div 30))) = Inr b"
    using truncate_digest_ok [OF hmac_length] by blast
  ultimately show ?thesis by (simp add: handler_code_def generate_at_def generate_totp_at_def)
qed

lemma demo_titles:
  "is_twofa_title ''Second Factor Authentication''"
  "\<not> title_has (demo_dialog ''Second Factor Authentication'') ''login''"
  by code_simp+


end
